(* ===== verification/Prelude.thy ===== *)
theory Prelude
  imports Main "HOL-Library.AList" "HOL-Library.List_Lexorder" "HOL-Library.Char_ord"
    "HOL-Library.Sublist"
begin

text \<open>
  What the component theories share: results with errors as values, Python's strings on
  code points below 256, Python's insertion-ordered dictionaries and the sorting of sets of
  keys. A Python \<open>str\<close> is a \<open>string\<close>, a list of code points below 256: \<open>strip\<close>,
  \<open>lower\<close> and \<open>split\<close> are exact on that range. A \<open>dict\<close> is an association list in
  insertion order; writing an existing key keeps its position, as CPython does.
\<close>

named_theorems dict_simps \<open>how lookups, keys and values of a dictionary change\<close>
named_theorems result_simps \<open>how results run and fail\<close>

section \<open>Results: a value or the exception that was raised\<close>

type_synonym ('e, 'a) result = "'e + 'a"

definition bindR :: "('e, 'a) result \<Rightarrow> ('a \<Rightarrow> ('e, 'b) result) \<Rightarrow> ('e, 'b) result" where
  "bindR r f = (case r of Inl e \<Rightarrow> Inl e | Inr a \<Rightarrow> f a)"

definition is_ok :: "('e, 'a) result \<Rightarrow> bool" where
  "is_ok r = (case r of Inl _ \<Rightarrow> False | Inr _ \<Rightarrow> True)"

lemma bindR_simps [simp, result_simps]:
  "bindR (Inl e) f = Inl e"
  "bindR (Inr a) f = f a"
  by (simp_all add: bindR_def)

lemma bindR_eq_Inr [result_simps]:
  "bindR r f = Inr b \<longleftrightarrow> (\<exists>a. r = Inr a \<and> f a = Inr b)"
  by (cases r) simp_all

lemma bindR_eq_Inl [result_simps]:
  "bindR r f = Inl e \<longleftrightarrow> r = Inl e \<or> (\<exists>a. r = Inr a \<and> f a = Inl e)"
  by (cases r) simp_all

lemma is_ok_simps [simp]: "is_ok (Inl e) = False" "is_ok (Inr a) = True"
  by (simp_all add: is_ok_def)

lemma is_ok_bind [simp]: "is_ok (bindR r (\<lambda>x. Inr (f x))) = is_ok r"
  by (cases r) simp_all

lemma is_ok_iff: "is_ok r \<longleftrightarrow> (\<exists>a. r = Inr a)"
  by (cases r) simp_all

text \<open>A comprehension whose element expression may raise stops at the first exception.\<close>

fun mapR :: "('a \<Rightarrow> ('e, 'b) result) \<Rightarrow> 'a list \<Rightarrow> ('e, 'b list) result" where
  "mapR f [] = Inr []"
| "mapR f (x # xs) = bindR (f x) (\<lambda>y. bindR (mapR f xs) (\<lambda>ys. Inr (y # ys)))"

lemma mapR_Inr_iff: "mapR f xs = Inr ys \<longleftrightarrow> list_all2 (\<lambda>x y. f x = Inr y) xs ys"
  by (induction xs arbitrary: ys) (auto simp: bindR_eq_Inr list_all2_Cons1)

lemma mapR_length: "mapR f xs = Inr ys \<Longrightarrow> length ys = length xs"
  by (auto simp: mapR_Inr_iff dest: list_all2_lengthD)

lemma mapR_source: "\<lbrakk>mapR f xs = Inr ys; y \<in> set ys\<rbrakk> \<Longrightarrow> \<exists>x \<in> set xs. f x = Inr y"
  by (induction xs arbitrary: ys) (auto simp: bindR_eq_Inr)

lemma mapR_total: "(\<And>x. x \<in> set xs \<Longrightarrow> f x = Inr (g x)) \<Longrightarrow> mapR f xs = Inr (map g xs)"
  by (induction xs) auto

lemma mapR_is_ok: "is_ok (mapR f xs) \<longleftrightarrow> list_all (\<lambda>x. is_ok (f x)) xs"
  by (induction xs) (auto simp: is_ok_iff bindR_eq_Inr)

section \<open>Strings\<close>

definition py_isspace :: "char \<Rightarrow> bool" where
  "py_isspace c = ((of_char c :: nat) \<in> {9, 10, 11, 12, 13, 28, 29, 30, 31, 32, 133, 160})"

definition py_lower_char :: "char \<Rightarrow> char" where
  "py_lower_char c =
     (let n = (of_char c :: nat)
      in if (65 \<le> n \<and> n \<le> 90) \<or> (192 \<le> n \<and> n \<le> 222 \<and> n \<noteq> 215) then char_of (n + 32) else c)"

definition py_lower :: "string \<Rightarrow> string" where
  "py_lower s = map py_lower_char s"

definition py_lstrip :: "string \<Rightarrow> string" where
  "py_lstrip s = dropWhile py_isspace s"

definition py_strip :: "string \<Rightarrow> string" where
  "py_strip s = rev (dropWhile py_isspace (rev (dropWhile py_isspace s)))"

text \<open>\<open>s.replace(old, new)\<close>: occurrences are taken from the left and do not overlap.\<close>

function py_replace :: "string \<Rightarrow> string \<Rightarrow> string \<Rightarrow> string" where
  "py_replace old new s =
     (if old = [] then new @ concat (map (\<lambda>c. c # new) s)
      else if s = [] then []
      else if prefix old s then new @ py_replace old new (drop (length old) s)
      else hd s # py_replace old new (tl s))"
  by pat_completeness auto
termination
  by (relation "measure (\<lambda>(old, new, s). length s)") (auto simp: prefix_def)

declare py_replace.simps [simp del]

text \<open>\<open>s.split(c)\<close> for a one-character separator, and \<open>c.join(ws)\<close>.\<close>

fun py_split :: "char \<Rightarrow> string \<Rightarrow> string list" where
  "py_split c [] = [[]]"
| "py_split c (x # xs) =
     (if x = c then [] # py_split c xs
      else case py_split c xs of [] \<Rightarrow> [[x]] | w # ws \<Rightarrow> (x # w) # ws)"

fun py_join :: "string \<Rightarrow> string list \<Rightarrow> string" where
  "py_join sep [] = []"
| "py_join sep [w] = w"
| "py_join sep (w # v # ws) = w @ sep @ py_join sep (v # ws)"

lemma py_split_nonempty [simp]: "py_split c s \<noteq> []"
  by (induction s) (auto split: list.splits)

lemma py_join_Cons: "ws \<noteq> [] \<Longrightarrow> py_join sep (w # ws) = w @ sep @ py_join sep ws"
  by (cases ws) auto

lemma py_join_split [simp]: "py_join [c] (py_split c s) = s"
proof (induction s)
  case (Cons x xs)
  obtain w ws where w: "py_split c xs = w # ws"
    by (cases "py_split c xs") (use py_split_nonempty in auto)
  show ?case
    using Cons w by (cases ws) (auto simp: py_join_Cons)
qed simp

lemma py_split_parts: "w \<in> set (py_split c s) \<Longrightarrow> c \<notin> set w"
  by (induction s arbitrary: w) (auto split: list.splits if_splits)

lemma py_split_plain: "c \<notin> set w \<Longrightarrow> py_split c w = [w]"
  by (induction w) auto

lemma py_split_append: "c \<notin> set w \<Longrightarrow> py_split c (w @ c # s) = w # py_split c s"
  by (induction w) auto

lemma py_split_Cons_app: "py_split c (s @ c # t) = py_split c s @ py_split c t"
  by (induction s) (auto split: list.splits)

lemma py_split_join:
  "\<lbrakk>ws \<noteq> []; \<And>w. w \<in> set ws \<Longrightarrow> c \<notin> set w\<rbrakk> \<Longrightarrow> py_split c (py_join [c] ws) = ws"
  by (induction "[c]" ws rule: py_join.induct) (auto simp: py_split_plain py_split_append)

lemma set_py_join: "set (py_join sep ws) \<subseteq> set sep \<union> \<Union> (set (map set ws))"
  by (induction sep ws rule: py_join.induct) auto

text \<open>Python's \<open>\w\<close> on code points below 256.\<close>

definition word_char :: "char \<Rightarrow> bool" where
  "word_char c = (let n = (of_char c :: nat) in
     (48 \<le> n \<and> n \<le> 57) \<or> (65 \<le> n \<and> n \<le> 90) \<or> (97 \<le> n \<and> n \<le> 122) \<or> n = 95
     \<or> n \<in> {170, 178, 179, 181, 185, 186, 188, 189, 190} \<or> (192 \<le> n \<and> n \<noteq> 215 \<and> n \<noteq> 247))"

definition word_at :: "string \<Rightarrow> nat \<Rightarrow> bool" where
  "word_at s i = (i < length s \<and> word_char (s ! i))"

text \<open>The maximal runs of characters with a property, as \<open>re.findall\<close> of a class with \<open>+\<close> and
  \<open>str.split()\<close> find them. The first string is the run that is being read.\<close>

fun char_runs :: "(char \<Rightarrow> bool) \<Rightarrow> string \<Rightarrow> string \<Rightarrow> string list" where
  "char_runs P run [] = (if run = [] then [] else [run])"
| "char_runs P run (c # s) =
     (if P c then char_runs P (run @ [c]) s
      else (if run = [] then [] else [run]) @ char_runs P [] s)"

definition py_words :: "string \<Rightarrow> string list" where
  "py_words s = char_runs (\<lambda>c. \<not> py_isspace c) [] s"

lemma char_runs_word: "list_all P w \<Longrightarrow> char_runs P run (w @ s) = char_runs P (run @ w) s"
  by (induction w arbitrary: run) auto

lemma char_runs_end: "\<lbrakk>run \<noteq> []; post = [] \<or> \<not> P (hd post)\<rbrakk> \<Longrightarrow> run \<in> set (char_runs P run post)"
  by (cases post) auto

lemma char_runs_skip:
  "\<lbrakk>pre \<noteq> []; \<not> P (last pre)\<rbrakk> \<Longrightarrow> set (char_runs P [] s) \<subseteq> set (char_runs P run (pre @ s))"
proof (induction pre arbitrary: run)
  case (Cons c pre)
  show ?case
  proof (cases "pre = []")
    case True
    with Cons.prems show ?thesis by auto
  next
    case False
    with Cons.prems Cons.IH show ?thesis by (auto split: if_splits)
  qed
qed simp

lemma char_runs_join:
  "\<lbrakk>\<not> P sep; list_all (\<lambda>w. w \<noteq> [] \<and> list_all P w) ws\<rbrakk> \<Longrightarrow> char_runs P [] (py_join [sep] ws) = ws"
proof (induction "[sep]" ws rule: py_join.induct)
  case (2 w)
  then show ?case using char_runs_word [of P w "[]" "[]"] by simp
next
  case (3 w v ws)
  then have "char_runs P [] (w @ sep # py_join [sep] (v # ws)) = char_runs P w (sep # py_join [sep] (v # ws))"
    using char_runs_word [of P w "[]"] by simp
  with 3 show ?case by simp
qed simp

definition py_rstrip :: "string \<Rightarrow> string" where
  "py_rstrip s = rev (dropWhile py_isspace (rev s))"

lemma length_py_rstrip: "length (py_rstrip s) \<le> length s"
  unfolding py_rstrip_def by (metis length_dropWhile_le length_rev)

lemma dropWhile_idem [simp]: "dropWhile P (dropWhile P xs) = dropWhile P xs"
  by (induction xs) auto

lemma dropWhile_stop: "xs = [] \<or> \<not> P (hd xs) \<Longrightarrow> dropWhile P xs = xs"
  by (cases xs) auto

lemma dropWhile_rev_hd:
  assumes "xs = [] \<or> \<not> P (hd xs)"
  shows "let ys = rev (dropWhile P (rev xs)) in ys = [] \<or> \<not> P (hd ys)"
proof -
  obtain zs where zs: "xs = rev (dropWhile P (rev xs)) @ zs"
    by (metis rev_append rev_rev_ident takeWhile_dropWhile_id)
  show ?thesis
  proof (cases "rev (dropWhile P (rev xs))")
    case (Cons y ys)
    with zs assms show ?thesis by (metis append_Cons list.distinct(1) list.sel(1))
  qed simp
qed

lemma py_strip_idem [simp]: "py_strip (py_strip s) = py_strip s"
proof -
  let ?t = "dropWhile py_isspace s"
  let ?u = "rev (dropWhile py_isspace (rev ?t))"
  have "?t = [] \<or> \<not> py_isspace (hd ?t)"
    using hd_dropWhile by blast
  from dropWhile_rev_hd [of ?t py_isspace, OF this] have "?u = [] \<or> \<not> py_isspace (hd ?u)"
    by (simp add: Let_def)
  then have "dropWhile py_isspace ?u = ?u"
    by (rule dropWhile_stop)
  then show ?thesis
    unfolding py_strip_def by (metis dropWhile_idem rev_rev_ident)
qed

lemma py_strip_keep: "\<lbrakk>s = [] \<or> \<not> py_isspace (hd s); s = [] \<or> \<not> py_isspace (last s)\<rbrakk> \<Longrightarrow> py_strip s = s"
  unfolding py_strip_def by (cases "s = []") (simp_all add: dropWhile_stop hd_rev)

lemma set_py_strip: "set (py_strip s) \<subseteq> set s"
  unfolding py_strip_def by (force dest!: set_dropWhileD)

lemma py_lower_char_idem [simp]: "py_lower_char (py_lower_char c) = py_lower_char c"
proof -
  have "(of_char c :: nat) < 256" by simp
  then show ?thesis by (auto simp: py_lower_char_def Let_def)
qed

lemma py_lower_idem [simp]: "py_lower (py_lower s) = py_lower s"
  by (simp add: py_lower_def)

lemma length_py_lower [simp]: "length (py_lower s) = length s"
  by (simp add: py_lower_def)

section \<open>Substitution by a pattern\<close>

text \<open>
  A matcher returns the length of the match, which is positive, and its group. The first
  argument counts the characters of the last match that are still to be skipped.
\<close>

fun scan_sub ::
  "(char option \<Rightarrow> string \<Rightarrow> (nat \<times> 'g) option) \<Rightarrow> ('g \<Rightarrow> ('e, string) result)
   \<Rightarrow> nat \<Rightarrow> char option \<Rightarrow> string \<Rightarrow> ('e, string) result" where
  "scan_sub m f skip before [] = Inr []"
| "scan_sub m f (Suc n) before (c # s) = scan_sub m f n (Some c) s"
| "scan_sub m f 0 before (c # s) =
     (case m before (c # s) of
        None \<Rightarrow> bindR (scan_sub m f 0 (Some c) s) (\<lambda>t. Inr (c # t))
      | Some (len, g) \<Rightarrow>
          bindR (f g) (\<lambda>r. bindR (scan_sub m f (len - 1) (Some c) s) (\<lambda>t. Inr (r @ t))))"

definition is_digit :: "char \<Rightarrow> bool" where
  "is_digit c = (48 \<le> (of_char c :: nat) \<and> (of_char c :: nat) \<le> 57)"

definition letter :: "char \<Rightarrow> bool" where
  "letter c = (let n = (of_char c :: nat) in (65 \<le> n \<and> n \<le> 90) \<or> (97 \<le> n \<and> n \<le> 122))"

definition ident_start :: "char \<Rightarrow> bool" where
  "ident_start c = (letter c \<or> c = CHR ''_'')"

definition ident_char :: "char \<Rightarrow> bool" where
  "ident_char c = (ident_start c \<or> is_digit c)"

definition match_ident :: "string \<Rightarrow> string option" where
  "match_ident s = (case s of [] \<Rightarrow> None
     | c # _ \<Rightarrow> if ident_start c then Some (takeWhile ident_char s) else None)"

text \<open>\<open>re.sub("[^0-9A-Za-z_]+", "_", s)\<close>; the flag says that the last character was replaced.\<close>

fun collapse_symbols :: "bool \<Rightarrow> string \<Rightarrow> string" where
  "collapse_symbols after [] = []"
| "collapse_symbols after (c # s) =
     (if ident_char c then c # collapse_symbols False s
      else if after then collapse_symbols True s else CHR ''_'' # collapse_symbols True s)"

definition strip_underscores :: "string \<Rightarrow> string" where
  "strip_underscores s = rev (dropWhile (\<lambda>c. c = CHR ''_'') (rev (dropWhile (\<lambda>c. c = CHR ''_'') s)))"

section \<open>Dictionaries in insertion order\<close>

type_synonym ('k, 'v) dict = "('k \<times> 'v) list"

definition dict_get :: "('k, 'v) dict \<Rightarrow> 'k \<Rightarrow> 'v option" where
  "dict_get d k = map_of d k"

definition dict_set :: "('k, 'v) dict \<Rightarrow> 'k \<Rightarrow> 'v \<Rightarrow> ('k, 'v) dict" where
  "dict_set d k v = AList.update k v d"

definition dict_pop :: "('k, 'v) dict \<Rightarrow> 'k \<Rightarrow> ('k, 'v) dict" where
  "dict_pop d k = filter (\<lambda>p. fst p \<noteq> k) d"

definition dict_has :: "('k, 'v) dict \<Rightarrow> 'k \<Rightarrow> bool" where
  "dict_has d k = (k \<in> fst ` set d)"

definition dict_keys :: "('k, 'v) dict \<Rightarrow> 'k list" where
  "dict_keys d = map fst d"

definition dict_values :: "('k, 'v) dict \<Rightarrow> 'v list" where
  "dict_values d = map snd d"

definition dict_ok :: "('k, 'v) dict \<Rightarrow> bool" where
  "dict_ok d = distinct (map fst d)"

definition dict_update :: "('k, 'v) dict \<Rightarrow> ('k, 'v) dict \<Rightarrow> ('k, 'v) dict" where
  "dict_update d e = foldl (\<lambda>d (k, v). dict_set d k v) d e"

lemma dict_get_Nil [simp, dict_simps]: "dict_get [] k = None"
  by (simp add: dict_get_def)

lemma dict_get_Cons [dict_simps]: "dict_get ((k, v) # d) k' = (if k' = k then Some v else dict_get d k')"
  by (simp add: dict_get_def)

lemma dict_get_set [simp, dict_simps]:
  "dict_get (dict_set d k v) k' = (if k' = k then Some v else dict_get d k')"
  by (simp add: dict_get_def dict_set_def update_conv)

lemma dict_get_pop [simp, dict_simps]:
  "dict_get (dict_pop d k) k' = (if k' = k then None else dict_get d k')"
  by (induction d) (auto simp: dict_get_def dict_pop_def)

lemma dict_has_iff [dict_simps]: "dict_has d k \<longleftrightarrow> dict_get d k \<noteq> None"
  by (simp add: dict_has_def dict_get_def map_of_eq_None_iff)

lemma dict_keys_set [dict_simps]:
  "dict_keys (dict_set d k v) = (if dict_has d k then dict_keys d else dict_keys d @ [k])"
  by (simp add: dict_keys_def dict_set_def dict_has_def update_keys)

lemma dict_keys_pop [dict_simps]: "dict_keys (dict_pop d k) = filter (\<lambda>k'. k' \<noteq> k) (dict_keys d)"
  by (induction d) (auto simp: dict_keys_def dict_pop_def)

lemma set_dict_keys [dict_simps]: "set (dict_keys d) = {k. dict_get d k \<noteq> None}"
  by (auto simp: dict_keys_def dict_get_def map_of_eq_None_iff weak_map_of_SomeI)

lemma dict_ok_Nil [simp]: "dict_ok []"
  by (simp add: dict_ok_def)

lemma dict_ok_set [intro, simp]: "dict_ok d \<Longrightarrow> dict_ok (dict_set d k v)"
  by (simp add: dict_ok_def dict_set_def distinct_update)

lemma dict_ok_pop [intro, simp]: "dict_ok d \<Longrightarrow> dict_ok (dict_pop d k)"
  by (auto simp: dict_ok_def dict_pop_def distinct_map filter_map o_def intro: inj_on_subset)

lemma dict_ok_in: "dict_ok d \<Longrightarrow> (k, v) \<in> set d \<longleftrightarrow> dict_get d k = Some v"
  by (simp add: dict_ok_def dict_get_def)

lemma dict_get_in: "dict_get d k = Some v \<Longrightarrow> (k, v) \<in> set d"
  by (simp add: dict_get_def map_of_SomeD)

lemma length_dict_pop:
  "\<lbrakk>dict_ok d; dict_has d k\<rbrakk> \<Longrightarrow> length d = Suc (length (dict_pop d k))"
proof (induction d)
  case (Cons p d)
  then show ?case
    by (cases "fst p = k")
      (force simp: dict_ok_def dict_has_def dict_pop_def image_iff
         intro!: arg_cong [of _ _ length] filter_True [symmetric])+
qed (simp add: dict_has_def)

lemma dict_ok_update [intro, simp]: "dict_ok d \<Longrightarrow> dict_ok (dict_update d e)"
  unfolding dict_update_def by (induction e arbitrary: d) (auto simp: case_prod_unfold)

lemma in_dict_set_cases: "(k, v) \<in> set (dict_set d a b) \<Longrightarrow> (k, v) = (a, b) \<or> (k, v) \<in> set d"
  by (induction d) (auto simp: dict_set_def split: if_splits)

lemma dict_get_update:
  "dict_ok e \<Longrightarrow> dict_get (dict_update d e) k =
     (case dict_get e k of None \<Rightarrow> dict_get d k | Some v \<Rightarrow> Some v)"
proof (induction e arbitrary: d)
  case (Cons p e)
  obtain a b where p: "p = (a, b)" by (cases p)
  from Cons.prems p have "dict_ok e" and na: "dict_get e a = None"
    by (auto simp: dict_ok_def dict_get_def map_of_eq_None_iff)
  then show ?case
    using Cons.IH [of "dict_set d a b"] p na
    by (auto simp: dict_update_def dict_get_Cons split: option.splits)
qed (simp add: dict_update_def)

section \<open>Sorted listings of sets\<close>

text \<open>\<open>sorted({...})\<close>: the set is given by a list of its members, possibly repeated.\<close>

definition py_sorted_set :: "('a :: linorder) list \<Rightarrow> 'a list" where
  "py_sorted_set xs = sort (remdups xs)"

lemma set_py_sorted_set [simp]: "set (py_sorted_set xs) = set xs"
  by (simp add: py_sorted_set_def)

lemma sorted_py_sorted_set [simp]: "sorted (py_sorted_set xs)"
  by (simp add: py_sorted_set_def)

lemma distinct_py_sorted_set [simp]: "distinct (py_sorted_set xs)"
  by (simp add: py_sorted_set_def)

lemma py_sorted_set_cong: "set xs = set ys \<Longrightarrow> py_sorted_set xs = py_sorted_set ys"
  by (intro sorted_distinct_set_unique) simp_all

text \<open>A reading of a clock\<close>

type_synonym time = nat

text \<open>The truth of an optional text in Python: neither \<open>None\<close> nor empty.\<close>

definition given :: "string option \<Rightarrow> bool" where
  "given v = (case v of Some (c # cs) \<Rightarrow> True | _ \<Rightarrow> False)"

end
