(* ===== verification/Plan_Models.thy ===== *)
theory Plan_Models
  imports Complex_Main Prelude
begin

text \<open>
  The data model of the federation layer (\<open>federation/models/plans.py\<close>,
  \<open>federation/models/virtual_dataset.py\<close>): table references, logical plans, source
  subplans, stages, physical plans, artifacts, metrics, and the virtual dataset with its
  bindings. Field names carry a prefix for their class. UUIDs are their canonical strings.
  Float estimates are rationals, that is, exact arithmetic stands for IEEE rounding. Clock
  readings (\<open>started_at\<close>, \<open>finished_at\<close>, \<open>created_at\<close>) are left out.
\<close>

type_synonym uuid = string

section \<open>Logical plans\<close>

datatype query_type = QT_SMQ | QT_SQL

datatype join_strategy = BROADCAST | PARTITIONED_HASH

datatype stage_type = REMOTE_SCAN | REMOTE_FULL_QUERY | LOCAL_COMPUTE

record table_ref =
  tr_alias :: string
  tr_table_key :: string
  tr_source_id :: string
  tr_connector_id :: "string option"
  tr_schema :: "string option"
  tr_table :: string
  tr_catalog :: "string option"

record join_ref =
  jr_left_alias :: string
  jr_right_alias :: string
  jr_join_type :: string
  jr_on_sql :: string

record logical_plan =
  lp_query_type :: query_type
  lp_sql :: string
  lp_from_alias :: string
  lp_tables :: "(string, table_ref) dict"
  lp_joins :: "join_ref list"
  lp_where_sql :: "string option"
  lp_having_sql :: "string option"
  lp_group_by_sql :: "string list"
  lp_order_by_sql :: "string list"
  lp_limit :: "int option"
  lp_offset :: "int option"
  lp_has_cte :: bool

section \<open>Physical plans\<close>

record source_subplan =
  sp_stage_id :: string
  sp_source_id :: string
  sp_alias :: string
  sp_table_key :: string
  sp_sql :: "string option"
  sp_resource :: "string option"
  sp_projected_columns :: "string list"
  sp_pushed_filters :: "string list"
  sp_pushed_limit :: "int option"
  sp_estimated_rows :: "rat option"
  sp_estimated_bytes :: "rat option"

text \<open>
  \<open>StageDefinition.metadata\<close> is an open dictionary; these are the keys that the planner
  writes and the executor reads, absent when \<open>None\<close>.
\<close>

record stage_metadata =
  md_alias :: "string option"
  md_table_inputs :: "(string, string) dict option"
  md_join_order :: "string list option"
  md_join_strategies :: "(string, join_strategy) dict option"

definition empty_metadata :: stage_metadata where
  "empty_metadata = \<lparr>md_alias = None, md_table_inputs = None, md_join_order = None,
     md_join_strategies = None\<rparr>"

record stage_definition =
  sd_stage_id :: string
  sd_stage_type :: stage_type
  sd_dependencies :: "string list"
  sd_source_id :: "string option"
  sd_sql :: "string option"
  sd_sql_dialect :: "string option"
  sd_subplan :: "source_subplan option"
  sd_retry_limit :: int
  sd_metadata :: stage_metadata

record physical_plan =
  pp_plan_id :: string
  pp_logical_plan :: logical_plan
  pp_stages :: "stage_definition list"
  pp_result_stage_id :: string
  pp_join_order :: "string list"
  pp_join_strategies :: "(string, join_strategy) dict"

section \<open>Artifacts and metrics\<close>

record stage_artifact =
  sa_stage_id :: string
  sa_artifact_key :: string
  sa_rows :: nat
  sa_bytes_written :: nat
  sa_content_hash :: string

record stage_metrics =
  sm_stage_id :: string
  sm_attempts :: int
  sm_runtime_ms :: nat
  sm_rows :: nat
  sm_bytes_written :: nat
  sm_source_elapsed_ms :: "nat option"
  sm_cached :: bool

record execution_summary =
  es_plan_id :: string
  es_total_runtime_ms :: nat
  es_stage_metrics :: "stage_metrics list"

record result_handle =
  rh_handle_id :: string
  rh_workspace_id :: string
  rh_plan_id :: string
  rh_result_stage_id :: string
  rh_artifact_key :: string
  rh_execution :: execution_summary

section \<open>Virtual datasets\<close>

record table_statistics =
  ts_row_count_estimate :: "rat option"
  ts_bytes_per_row :: rat

definition default_statistics :: table_statistics where
  "default_statistics = \<lparr>ts_row_count_estimate = None, ts_bytes_per_row = 128\<rparr>"

datatype freshness_policy = FP_REVISION | FP_VOLATILE | FP_UNKNOWN

record freshness_descriptor =
  fd_policy :: freshness_policy
  fd_freshness_key :: "string option"
  fd_revision_id :: "uuid option"
  fd_revision_hash :: "string option"
  fd_reason :: "string option"

text \<open>\<open>DatasetFreshnessDescriptor._validate_descriptor\<close>: \<open>str(key or "").strip()\<close> is empty.\<close>

definition blank :: "string option \<Rightarrow> bool" where
  "blank v = (case v of None \<Rightarrow> True | Some s \<Rightarrow> py_strip s = [])"

definition freshness_valid :: "freshness_descriptor \<Rightarrow> bool" where
  "freshness_valid d = (\<not> (fd_policy d = FP_REVISION \<and> blank (fd_freshness_key d)))"

record dataset_descriptor =
  dd_dataset_id :: "uuid option"
  dd_name :: "string option"
  dd_materialization_mode :: "string option"
  dd_relation_identity :: "(string, string) dict"
  dd_freshness :: "freshness_descriptor option"

text \<open>
  A binding's \<open>metadata\<close> dictionary holds strings, flags and nulls; \<open>M_null\<close> is a key
  whose value is \<open>None\<close>.
\<close>

datatype meta_value = M_str string | M_bool bool | M_null

record table_binding =
  tb_table_key :: string
  tb_source_id :: string
  tb_connector_id :: "uuid option"
  tb_schema_name :: "string option"
  tb_table :: string
  tb_catalog :: "string option"
  tb_stats :: "table_statistics option"
  tb_metadata :: "(string, meta_value) dict"
  tb_descriptor :: "dataset_descriptor option"

definition contains_sub :: "string \<Rightarrow> string \<Rightarrow> bool" where
  "contains_sub needle hay = sublist needle hay"

definition full_name :: "table_binding \<Rightarrow> string" where
  "full_name b =
     (if (case tb_schema_name b of None \<Rightarrow> False | Some s \<Rightarrow> contains_sub s (tb_table b))
      then tb_table b
      else py_join ''.''
        (filter (\<lambda>p. p \<noteq> [])
          [case tb_catalog b of None \<Rightarrow> [] | Some c \<Rightarrow> c,
           case tb_schema_name b of None \<Rightarrow> [] | Some s \<Rightarrow> s,
           tb_table b]))"

record virtual_dataset =
  vd_id :: string
  vd_workspace_id :: string
  vd_tables :: "(string, table_binding) dict"
  vd_stats_overrides :: "(string, table_statistics) dict"

definition dataset_valid :: "virtual_dataset \<Rightarrow> bool" where
  "dataset_valid d = (vd_tables d \<noteq> [])"

text \<open>\<open>virtual_tables\<close>: the bindings by lower-cased key; of two keys that agree the last wins.\<close>

definition virtual_tables :: "virtual_dataset \<Rightarrow> (string, table_binding) dict" where
  "virtual_tables d = foldl (\<lambda>m (k, b). dict_set m (py_lower k) b) [] (vd_tables d)"

record federation_workflow =
  fw_id :: string
  fw_workspace_id :: string
  fw_dataset :: virtual_dataset
  fw_broadcast_threshold_bytes :: int
  fw_partition_count :: int
  fw_max_stage_retries :: int
  fw_stage_parallelism :: int

section \<open>What a plan's stage graph must satisfy to be scheduled\<close>

definition stage_ids :: "stage_definition list \<Rightarrow> string list" where
  "stage_ids ss = map sd_stage_id ss"

text \<open>
  The stages can be listed so that each depends only on stages before it: the executable
  form of an acyclic graph whose dependencies are all stages.
\<close>

fun topo_from :: "string set \<Rightarrow> stage_definition list \<Rightarrow> bool" where
  "topo_from done [] = True"
| "topo_from done (s # ss) =
     (set (sd_dependencies s) \<subseteq> done \<and> topo_from (insert (sd_stage_id s) done) ss)"

lemma topo_from_mono: "topo_from A ss \<Longrightarrow> A \<subseteq> B \<Longrightarrow> topo_from B ss"
proof (induction ss arbitrary: A B)
  case (Cons s ss)
  then show ?case
    by (metis insert_mono subset_trans topo_from.simps(2))
qed simp

lemma topo_from_append:
  "topo_from A (ss @ ts) \<longleftrightarrow> topo_from A ss \<and> topo_from (sd_stage_id ` set ss \<union> A) ts"
  by (induction ss arbitrary: A) (auto simp: Un_commute insert_commute)

lemma topo_from_filter:
  "topo_from A ss \<Longrightarrow> topo_from (A \<union> sd_stage_id ` {s \<in> set ss. \<not> P s}) (filter P ss)"
proof (induction ss arbitrary: A)
  case (Cons s ss)
  have IH: "topo_from (insert (sd_stage_id s) A \<union> sd_stage_id ` {s \<in> set ss. \<not> P s})
      (filter P ss)"
    using Cons.IH [of "insert (sd_stage_id s) A"] Cons.prems by simp
  show ?case
  proof (cases "P s")
    case True
    moreover have "{t \<in> set (s # ss). \<not> P t} = {t \<in> set ss. \<not> P t}"
      using True by auto
    ultimately show ?thesis using IH Cons.prems by auto
  next
    case False
    moreover have "insert (sd_stage_id s) A \<union> sd_stage_id ` {s \<in> set ss. \<not> P s}
        = A \<union> sd_stage_id ` {t \<in> set (s # ss). \<not> P t}"
      using False by auto
    ultimately show ?thesis using IH by simp
  qed
qed simp

end
