(* ===== verification/Sql_Utils.thy ===== *)
theory Sql_Utils
  imports Plan_Models
begin

text \<open>
  SQL helpers (\<open>federation/utils/sql.py\<close>) and what the federation layer uses of the
  sqlglot library. The library is a parameter, a record of the functions that the code
  calls: parsing, rendering, the columns, tables and node classes that a traversal of a
  tree reports, and rewriting of its columns and tables. A tree is a value of a type \<open>'x\<close>;
  a parsed WHERE clause is a \<open>pred\<close>, a tree of AND nodes over such values, because the
  code itself walks the AND nodes.
\<close>

section \<open>Dialect names\<close>

definition dialect_aliases :: "(string, string) dict" where
  "dialect_aliases =
     [(''tsql'', ''tsql''), (''sqlserver'', ''tsql''), (''mssql'', ''tsql''),
      (''postgres'', ''postgres''), (''postgresql'', ''postgres''), (''mysql'', ''mysql''),
      (''snowflake'', ''snowflake''), (''redshift'', ''redshift''), (''bigquery'', ''bigquery''),
      (''oracle'', ''oracle''), (''sqlite'', ''sqlite''), (''trino'', ''trino'')]"

definition normalize_sql_dialect :: "string option \<Rightarrow> string \<Rightarrow> string" where
  "normalize_sql_dialect dialect dflt =
     (case dialect of None \<Rightarrow> dflt
      | Some d \<Rightarrow>
        (let n = py_lower (py_strip d)
         in if n = [] then dflt
            else case dict_get dialect_aliases n of None \<Rightarrow> n | Some a \<Rightarrow> a))"

section \<open>The SQL library as a parameter\<close>

record column =
  co_name :: string
  co_table :: string
  co_db :: string
  co_catalog :: string

record table_expr =
  te_is_table :: bool
  te_alias_or_name :: string
  te_name :: string
  te_db :: string
  te_catalog :: string

datatype 'x pred = P_And "'x pred" "'x pred" | P_Atom 'x

text \<open>
  \<open>so_parse d s\<close> is \<open>parse_one(s, read=d)\<close> with \<open>None\<close> for a \<open>ParseError\<close>,
  \<open>so_parse_where\<close> the same for a WHERE text, \<open>so_sql d e\<close> is \<open>e.sql(dialect=d)\<close>,
  \<open>so_kinds\<close> the classes of the nodes of \<open>walk()\<close>, \<open>so_rewrite_columns\<close> and
  \<open>so_rewrite_tables\<close> are \<open>transform\<close> with a function that replaces columns or tables
  (a table by its stage table and alias). \<open>so_limit_text\<close> is the text of a numeric LIMIT
  literal, \<open>so_set_limit\<close> sets the LIMIT. \<open>so_select d cols (t, db, cat) a fs\<close> renders
  the SELECT built with \<open>exp.select(...).from_(table).where(...)\<close>, a \<open>None\<close> for the
  columns being the star; \<open>so_ident\<close> renders one unquoted identifier.
\<close>

record 'x sql_ops =
  so_parse :: "string \<Rightarrow> string \<Rightarrow> 'x option"
  so_parse_where :: "string \<Rightarrow> string \<Rightarrow> 'x pred option"
  so_sql :: "string \<Rightarrow> 'x \<Rightarrow> string"
  so_transpile :: "string \<Rightarrow> string \<Rightarrow> string \<Rightarrow> string option"
  so_columns :: "'x \<Rightarrow> column list"
  so_tables :: "'x \<Rightarrow> table_expr list"
  so_kinds :: "'x \<Rightarrow> string list"
  so_has_star :: "'x \<Rightarrow> bool"
  so_rewrite_columns :: "(column \<Rightarrow> column) \<Rightarrow> 'x \<Rightarrow> 'x"
  so_rewrite_tables :: "(table_expr \<Rightarrow> (string \<times> string) option) \<Rightarrow> 'x \<Rightarrow> 'x"
  so_limit_text :: "'x \<Rightarrow> string option"
  so_set_limit :: "int \<Rightarrow> 'x \<Rightarrow> 'x"
  so_select :: "string \<Rightarrow> string list option \<Rightarrow> string \<times> string option \<times> string option
    \<Rightarrow> string \<Rightarrow> 'x list \<Rightarrow> int option \<Rightarrow> string"
  so_ident :: "string \<Rightarrow> string \<Rightarrow> string"

section \<open>Decimal numbers\<close>

text \<open>\<open>int(text)\<close> for the digits of a literal; \<open>None\<close> for \<open>ValueError\<close>.\<close>

definition py_int :: "string \<Rightarrow> int option" where
  "py_int s = (if s \<noteq> [] \<and> list_all is_digit s
     then Some (foldl (\<lambda>n c. n * 10 + (int (of_char c) - 48)) 0 s) else None)"

text \<open>\<open>str(n)\<close>\<close>

fun nat_digits :: "nat \<Rightarrow> string" where
  "nat_digits n = (if n < 10 then [char_of (n + 48)]
     else nat_digits (n div 10) @ [char_of (n mod 10 + 48)])"

declare nat_digits.simps [simp del]

definition py_str_int :: "int \<Rightarrow> string" where
  "py_str_int n = (if n < 0 then CHR ''-'' # nat_digits (nat (- n)) else nat_digits (nat n))"

lemma digit_value:
  assumes "n < 10"
  shows "is_digit (char_of (n + 48 :: nat))" and "int (of_char (char_of (n + 48 :: nat))) = int n + 48"
  using assms by (auto simp: is_digit_def)

lemma nat_digits_back:
  "nat_digits n \<noteq> [] \<and> list_all is_digit (nat_digits n)
   \<and> foldl (\<lambda>n c. n * 10 + (int (of_char c) - 48)) 0 (nat_digits n) = int n"
proof (induction n rule: nat_digits.induct)
  case (1 n)
  show ?case
  proof (cases "n < 10")
    case True
    then show ?thesis
      using digit_value [OF True] by (subst (1 2 3) nat_digits.simps) simp
  next
    case False
    have "n mod 10 < 10" by simp
    note d = digit_value [OF this]
    have n: "int (n mod 10) + 10 * int (n div 10) = int n"
      unfolding zmod_int zdiv_int by simp
    show ?thesis
      using 1 [OF False] False d by (subst (1 2 3) nat_digits.simps) (simp add: ac_simps n)
  qed
qed

lemma py_int_str: "0 \<le> n \<Longrightarrow> py_int (py_str_int n) = Some n"
  using nat_digits_back [of "nat n"] by (simp add: py_int_def py_str_int_def)

section \<open>Row limits of previews\<close>

datatype sql_error =
    Max_Rows_Not_Positive
  | Missing_Parameter string
  | Sql_Parse_Failed
  | Query_Empty
  | Not_Single_Statement
  | Not_Read_Only
  | Schema_Not_Permitted string
  | Table_Not_Permitted string
  | Statement_Missing

definition py_rstrip_char :: "char \<Rightarrow> string \<Rightarrow> string" where
  "py_rstrip_char c s = rev (dropWhile (\<lambda>x. x = c) (rev s))"

definition read_limit :: "'x sql_ops \<Rightarrow> 'x \<Rightarrow> int option" where
  "read_limit so e = Option.bind (so_limit_text so e) py_int"

definition enforce_preview_limit ::
  "'x sql_ops \<Rightarrow> string \<Rightarrow> int \<Rightarrow> string \<Rightarrow> (sql_error, string \<times> int) result" where
  "enforce_preview_limit so query max_rows dialect =
     (if max_rows < 1 then Inl Max_Rows_Not_Positive
      else let d = normalize_sql_dialect (Some dialect) ''tsql'' in
        (case so_parse so d query of
           None \<Rightarrow>
             (let fallback = py_rstrip_char (CHR '';'') (py_strip query)
              in if d = ''tsql''
                 then Inr (''SELECT TOP '' @ py_str_int max_rows @ '' * FROM ('' @ fallback
                   @ '') AS langbridge_sql_preview'', max_rows)
                 else Inr (''SELECT * FROM ('' @ fallback @ '') AS langbridge_sql_preview LIMIT ''
                   @ py_str_int max_rows, max_rows))
         | Some e \<Rightarrow>
             (case read_limit so e of
                Some n \<Rightarrow> (if n \<le> max_rows then Inr (so_sql so d e, n)
                  else Inr (so_sql so d (so_set_limit so max_rows e), max_rows))
              | None \<Rightarrow> Inr (so_sql so d (so_set_limit so max_rows e), max_rows))))"

text \<open>a preview never asks for more rows than allowed: the limit that is reported is at
  most the maximum, and the rendered statement carries exactly that limit, either its own
  or the maximum set by the code; a maximum below one is refused.\<close>

theorem preview_limit_bounded:
  "case enforce_preview_limit so query max_rows dialect of
     Inl e \<Rightarrow> e = Max_Rows_Not_Positive \<and> max_rows < 1
   | Inr (sql, n) \<Rightarrow> 1 \<le> max_rows \<and> n \<le> max_rows
       \<and> (case so_parse so (normalize_sql_dialect (Some dialect) ''tsql'') query of
            None \<Rightarrow> n = max_rows
          | Some e \<Rightarrow> sql = so_sql so (normalize_sql_dialect (Some dialect) ''tsql'')
              (if read_limit so e = Some n then e else so_set_limit so n e))"
  by (auto simp: enforce_preview_limit_def Let_def split: option.splits)

end
