(* ===== verification/Sql_Renderer.thy ===== *)
theory Sql_Renderer
  imports Sql_Utils
begin

text \<open>
  The SQL of the local stage (\<open>federation/planner/sql_renderer.py\<close>): tables become stage
  tables, columns are rebound to the alias that their qualifier means, and nodes are
  normalised when the query crosses from one dialect to another. The node normaliser is an
  argument of \<open>normalize_boundary\<close>: it is a \<open>transform\<close> over function nodes.
\<close>

section \<open>The alias that a table name stands for\<close>

type_synonym alias_sets = "(string, string list) dict"

definition add_candidate :: "string \<Rightarrow> string \<Rightarrow> alias_sets \<Rightarrow> alias_sets" where
  "add_candidate key a m =
     (let k = py_lower (py_strip key); al = py_strip a
      in if key = [] \<or> a = [] \<or> k = [] \<or> al = [] then m
         else let old = (case dict_get m k of None \<Rightarrow> [] | Some xs \<Rightarrow> xs)
              in dict_set m k (if al \<in> set old then old else old @ [al]))"

definition add_table_candidates :: "table_expr \<Rightarrow> alias_sets \<Rightarrow> alias_sets" where
  "add_table_candidates t m =
     (let a = py_strip (te_alias_or_name t); name = py_strip (te_name t);
          db = py_strip (te_db t); cat = py_strip (te_catalog t)
      in if a = [] then m
         else (let m1 = add_candidate name a (add_candidate a a m);
                   m2 = (if db \<noteq> [] \<and> name \<noteq> [] then add_candidate (db @ ''.'' @ name) a m1 else m1)
               in if cat \<noteq> [] \<and> db \<noteq> [] \<and> name \<noteq> []
                  then add_candidate (cat @ ''.'' @ db @ ''.'' @ name) a m2 else m2))"

definition candidate_aliases :: "table_expr list \<Rightarrow> alias_sets" where
  "candidate_aliases ts = foldl (\<lambda>m t. add_table_candidates t m) [] ts"

definition build_table_alias_lookup :: "table_expr list \<Rightarrow> (string, string) dict" where
  "build_table_alias_lookup ts =
     map (\<lambda>(k, xs). (k, hd xs)) (filter (\<lambda>(k, xs). length xs = 1) (candidate_aliases ts))"

section \<open>Columns and tables of the stage query\<close>

definition column_candidates :: "column \<Rightarrow> string list" where
  "column_candidates c =
     (let t = py_strip (co_table c); db = py_strip (co_db c); cat = py_strip (co_catalog c)
      in (if t \<noteq> [] then [t] else [])
         @ (if db \<noteq> [] \<and> t \<noteq> [] then [db @ ''.'' @ t] else [])
         @ (if cat \<noteq> [] \<and> db \<noteq> [] \<and> t \<noteq> [] then [cat @ ''.'' @ db @ ''.'' @ t] else []))"

fun first_alias :: "(string, string) dict \<Rightarrow> string list \<Rightarrow> string option" where
  "first_alias lookup [] = None"
| "first_alias lookup (c # cs) =
     (case dict_get lookup (py_lower (py_strip c)) of
        Some a \<Rightarrow> if a \<noteq> [] then Some a else first_alias lookup cs
      | None \<Rightarrow> first_alias lookup cs)"

definition rewrite_column_for_stage ::
  "(string, string) dict \<Rightarrow> (string, string) dict \<Rightarrow> column \<Rightarrow> column" where
  "rewrite_column_for_stage stage_tables lookup c =
     (let t = py_strip (co_table c);
          resolved = (case first_alias lookup (column_candidates c) of
             Some a \<Rightarrow> Some a
           | None \<Rightarrow> if t \<noteq> [] \<and> dict_has stage_tables t then Some t else None)
      in (case resolved of Some a \<Rightarrow> c\<lparr>co_table := a\<rparr> | None \<Rightarrow> c)\<lparr>co_db := [], co_catalog := []\<rparr>)"

definition stage_table_for :: "(string, string) dict \<Rightarrow> table_expr \<Rightarrow> (string \<times> string) option" where
  "stage_table_for stage_tables t =
     map_option (\<lambda>s. (s, te_alias_or_name t)) (dict_get stage_tables (te_alias_or_name t))"

definition rewrite_tables_to_stage :: "'x sql_ops \<Rightarrow> (string, string) dict \<Rightarrow> 'x \<Rightarrow> 'x" where
  "rewrite_tables_to_stage so stage_tables e =
     so_rewrite_tables so (stage_table_for stage_tables)
       (so_rewrite_columns so
         (rewrite_column_for_stage stage_tables (build_table_alias_lookup (so_tables so e))) e)"

section \<open>Dialect boundaries\<close>

definition boundary_normalizers :: "('x \<Rightarrow> 'x) \<Rightarrow> string \<Rightarrow> string \<Rightarrow> ('x \<Rightarrow> 'x) list" where
  "boundary_normalizers pg source target =
     (if source = ''postgres'' \<and> target = ''duckdb'' then [pg] else [])"

definition normalize_boundary :: "('x \<Rightarrow> 'x) \<Rightarrow> string \<Rightarrow> string \<Rightarrow> 'x \<Rightarrow> 'x" where
  "normalize_boundary pg source target e =
     foldl (\<lambda>e f. f e) e
       (boundary_normalizers pg (normalize_sql_dialect (Some source) ''tsql'')
         (normalize_sql_dialect (Some target) ''duckdb''))"

definition render_local_stage_sql ::
  "'x sql_ops \<Rightarrow> ('x \<Rightarrow> 'x) \<Rightarrow> 'x \<Rightarrow> (string, string) dict \<Rightarrow> string \<Rightarrow> string \<Rightarrow> string" where
  "render_local_stage_sql so pg e stage_tables source target =
     (let t = normalize_sql_dialect (Some target) ''duckdb''
      in so_sql so t (normalize_boundary pg source t (rewrite_tables_to_stage so stage_tables e)))"

section \<open>What a rebound column refers to\<close>

text \<open>The names under which the columns of a table may be qualified.\<close>

definition table_keys :: "table_expr \<Rightarrow> string list" where
  "table_keys t =
     (let a = py_strip (te_alias_or_name t); name = py_strip (te_name t);
          db = py_strip (te_db t); cat = py_strip (te_catalog t)
      in [a, name]
         @ (if db \<noteq> [] \<and> name \<noteq> [] then [db @ ''.'' @ name] else [])
         @ (if cat \<noteq> [] \<and> db \<noteq> [] \<and> name \<noteq> [] then [cat @ ''.'' @ db @ ''.'' @ name] else []))"

definition names_table :: "string \<Rightarrow> table_expr \<Rightarrow> bool" where
  "names_table k t = (k \<noteq> [] \<and> k \<in> (\<lambda>x. py_lower (py_strip x)) ` set (table_keys t))"

definition aliases_named :: "table_expr list \<Rightarrow> string \<Rightarrow> string set" where
  "aliases_named ts k =
     {a. a \<noteq> [] \<and> (\<exists>t \<in> set ts. a = py_strip (te_alias_or_name t) \<and> names_table k t)}"

definition entry :: "alias_sets \<Rightarrow> string \<Rightarrow> string set" where
  "entry m k = (case dict_get m k of None \<Rightarrow> {} | Some xs \<Rightarrow> set xs)"

definition alias_sets_ok :: "alias_sets \<Rightarrow> bool" where
  "alias_sets_ok m = (dict_ok m \<and> (\<forall>k xs. dict_get m k = Some xs \<longrightarrow> distinct xs \<and> xs \<noteq> []))"

lemma py_lower_Nil [simp]: "py_lower s = [] \<longleftrightarrow> s = []"
  by (simp add: py_lower_def)

lemma add_candidate_entry:
  "entry (add_candidate key a m) k = entry m k \<union>
     (if k \<noteq> [] \<and> k = py_lower (py_strip key) \<and> py_strip a \<noteq> [] then {py_strip a} else {})"
  by (auto simp: add_candidate_def entry_def Let_def py_strip_def split: option.splits)

lemma add_candidate_ok: "alias_sets_ok m \<Longrightarrow> alias_sets_ok (add_candidate key a m)"
  by (auto simp: add_candidate_def alias_sets_ok_def Let_def split: option.splits if_splits)

lemma add_candidates_entry:
  "entry (foldl (\<lambda>m k. add_candidate k a m) m ks) k = entry m k \<union>
     (if k \<noteq> [] \<and> k \<in> (\<lambda>x. py_lower (py_strip x)) ` set ks \<and> py_strip a \<noteq> [] then {py_strip a} else {})"
  by (induction ks arbitrary: m) (auto simp: add_candidate_entry)

lemma add_candidates_ok:
  "alias_sets_ok m \<Longrightarrow> alias_sets_ok (foldl (\<lambda>m k. add_candidate k a m) m ks)"
  by (induction ks arbitrary: m) (auto simp: add_candidate_ok)

lemma add_table_fold:
  "add_table_candidates t m =
     (if py_strip (te_alias_or_name t) = [] then m
      else foldl (\<lambda>m k. add_candidate k (py_strip (te_alias_or_name t)) m) m (table_keys t))"
  by (simp add: add_table_candidates_def table_keys_def Let_def)

lemma add_table_entry:
  "entry (add_table_candidates t m) k = entry m k \<union> aliases_named [t] k"
  by (auto simp: add_table_fold add_candidates_entry aliases_named_def names_table_def)

lemma candidate_aliases_from:
  "entry (foldl (\<lambda>m t. add_table_candidates t m) m ts) k = entry m k \<union> aliases_named ts k"
proof (induction ts arbitrary: m)
  case (Cons t ts)
  have "aliases_named (t # ts) k = aliases_named [t] k \<union> aliases_named ts k"
    by (auto simp: aliases_named_def)
  then show ?case by (simp add: Cons.IH add_table_entry Un_assoc)
qed (simp add: aliases_named_def)

lemma candidate_aliases_ok_from:
  "alias_sets_ok m \<Longrightarrow> alias_sets_ok (foldl (\<lambda>m t. add_table_candidates t m) m ts)"
  by (induction ts arbitrary: m) (auto simp: add_table_fold add_candidates_ok)

lemma candidate_aliases_ok: "alias_sets_ok (candidate_aliases ts)"
  unfolding candidate_aliases_def by (rule candidate_aliases_ok_from) (simp add: alias_sets_ok_def)

lemma candidate_aliases_entry: "entry (candidate_aliases ts) k = aliases_named ts k"
  unfolding candidate_aliases_def candidate_aliases_from by (simp add: entry_def)

lemma single_lookup:
  "dict_ok m \<Longrightarrow> dict_get (map (\<lambda>(k, xs). (k, hd xs)) (filter (\<lambda>(k, xs). length xs = 1) m)) k
     = (case dict_get m k of Some [a] \<Rightarrow> Some a | _ \<Rightarrow> None)"
proof (induction m)
  case (Cons p m)
  obtain j xs where p: "p = (j, xs)" by (cases p)
  have "dict_get m j = None" "dict_ok m"
    using Cons.prems p by (auto simp: dict_ok_def dict_get_def map_of_eq_None_iff)
  then show ?case
    using Cons.IH p by (auto simp: dict_get_Cons length_Suc_conv split: list.splits)
qed simp

lemma singleton_list:
  assumes "distinct xs"
  shows "set xs = {a} \<longleftrightarrow> xs = [a]"
proof
  assume s: "set xs = {a}"
  then have "length xs = 1" using distinct_card [OF assms] by simp
  then obtain b where "xs = [b]" by (auto simp: length_Suc_conv)
  with s show "xs = [a]" by simp
qed simp

lemma build_lookup:
  "dict_get (build_table_alias_lookup ts) k
     = (case dict_get (candidate_aliases ts) k of Some [a] \<Rightarrow> Some a | _ \<Rightarrow> None)"
  unfolding build_table_alias_lookup_def
  by (rule single_lookup) (use candidate_aliases_ok [of ts] in \<open>simp add: alias_sets_ok_def\<close>)

lemma lookup_iff:
  "dict_get (build_table_alias_lookup ts) k = Some a \<longleftrightarrow> aliases_named ts k = {a}"
proof -
  note ok = candidate_aliases_ok [of ts, unfolded alias_sets_ok_def]
  show ?thesis
  proof (cases "dict_get (candidate_aliases ts) k")
    case None
    then have "aliases_named ts k = {}"
      using candidate_aliases_entry [of ts k] by (simp add: entry_def)
    then show ?thesis using None by (simp add: build_lookup)
  next
    case (Some xs)
    then have s: "aliases_named ts k = set xs" and d: "distinct xs"
      using candidate_aliases_entry [of ts k] ok by (simp_all add: entry_def)
    show ?thesis
      using Some ok s singleton_list [OF d, of a]
      by (auto simp: build_lookup split: list.splits)
  qed
qed

lemma first_alias_named:
  "first_alias (build_table_alias_lookup ts) cs = Some a
   \<Longrightarrow> \<exists>c \<in> set cs. aliases_named ts (py_lower (py_strip c)) = {a}"
  by (induction cs) (auto simp: lookup_iff split: option.splits if_splits)

text \<open>rebinding a column for the local stage keeps its name, drops schema and catalog, and
  changes its qualifier only to the one alias of the query whose table bears the name that
  the column was qualified with; where the name is ambiguous, or names no table, the
  qualifier stays, up to surrounding blanks.\<close>

theorem rebound_column_is_unambiguous:
  fixes ts st c
  defines "c' \<equiv> rewrite_column_for_stage st (build_table_alias_lookup ts) c"
  shows "co_name c' = co_name c \<and> co_db c' = [] \<and> co_catalog c' = []
    \<and> (co_table c' = co_table c
       \<or> co_table c' = py_strip (co_table c) \<and> dict_has st (py_strip (co_table c))
       \<or> (\<exists>k \<in> set (column_candidates c). aliases_named ts (py_lower (py_strip k)) = {co_table c'}))"
  using first_alias_named [of ts "column_candidates c"]
  by (auto simp: c'_def rewrite_column_for_stage_def Let_def split: option.splits)

text \<open>A column qualified with a name that only one alias of the query bears is rebound to
  that alias.\<close>

theorem unique_qualifier_is_rebound:
  assumes "py_strip (co_table c) \<noteq> []"
    and "aliases_named ts (py_lower (py_strip (co_table c))) = {a}"
  shows "co_table (rewrite_column_for_stage st (build_table_alias_lookup ts) c) = a"
proof -
  have "dict_get (build_table_alias_lookup ts) (py_lower (py_strip (co_table c))) = Some a" "a \<noteq> []"
    using assms(2) by (auto simp: lookup_iff aliases_named_def)
  then have "first_alias (build_table_alias_lookup ts) (column_candidates c) = Some a"
    using assms(1) by (simp add: column_candidates_def Let_def)
  then show ?thesis by (simp add: rewrite_column_for_stage_def)
qed

definition ex_table_expr :: "string \<Rightarrow> string \<Rightarrow> table_expr" where
  "ex_table_expr n a = \<lparr>te_is_table = True, te_alias_or_name = a, te_name = n, te_db = [], te_catalog = []\<rparr>"

definition ex_column :: "string \<Rightarrow> string \<Rightarrow> column" where
  "ex_column t n = \<lparr>co_name = n, co_table = t, co_db = [], co_catalog = []\<rparr>"

lemma ex_lookup:
  "build_table_alias_lookup [ex_table_expr ''orders'' ''o'', ex_table_expr ''customers'' ''c'']
   = [(''o'', ''o''), (''orders'', ''o''), (''c'', ''c''), (''customers'', ''c'')]"
  by code_simp

theorem unique_qualifier_is_rebound_witness:
  "co_table (rewrite_column_for_stage []
     (build_table_alias_lookup [ex_table_expr ''orders'' ''o'', ex_table_expr ''customers'' ''c''])
     (ex_column ''Orders'' ''total'')) = ''o''"
proof (rule unique_qualifier_is_rebound)
  have s: "py_strip ''Orders'' = ''Orders''" "py_lower ''Orders'' = ''orders''" by code_simp+
  show "py_strip (co_table (ex_column ''Orders'' ''total'')) \<noteq> []" by (simp add: ex_column_def s)
  show "aliases_named [ex_table_expr ''orders'' ''o'', ex_table_expr ''customers'' ''c'']
      (py_lower (py_strip (co_table (ex_column ''Orders'' ''total'')))) = {''o''}"
    unfolding lookup_iff [symmetric] ex_lookup by (simp add: ex_column_def s dict_get_def)
qed

end
