(* ===== verification/Sql_Parser.thy ===== *)
theory Sql_Parser
  imports Sql_Renderer
begin

text \<open>
  Logical plans from SQL (\<open>federation/planner/parser.py\<close>). The SQL text is parsed by
  sqlglot; the planner's code reads the syntax tree through a few accessors, and the
  records below hold what these accessors return: the tables in the order of \<open>find_all\<close>,
  the FROM table, the joins and the clauses of the selected SELECT. The resolution of
  tables against the virtual dataset and the assembly of the plan are the code's.
\<close>

text \<open>\<open>jx_kind\<close> is the \<open>kind\<close> argument of a join as text; \<open>jx_on\<close> the ON clause as SQL.\<close>

record join_expr =
  jx_table :: table_expr
  jx_kind :: "string option"
  jx_on :: "string option"

text \<open>A limit or offset is absent, an integer literal or some other expression.\<close>

datatype int_clause = No_Clause | Int_Clause int | Other_Clause

record select_view =
  sv_cte_entries :: "string list"
  sv_all_tables :: "table_expr list"
  sv_from :: "table_expr option"
  sv_joins :: "join_expr list"
  sv_where :: "string option"
  sv_having :: "string option"
  sv_group :: "string list"
  sv_order :: "string list"
  sv_limit :: int_clause
  sv_offset :: int_clause

datatype parse_error =
    Not_A_Table
  | Not_Mapped string
  | Ambiguous_Mapping string
  | Alias_Conflict string
  | No_Physical_Tables
  | No_From_Clause

definition table_ref_of :: "string \<Rightarrow> table_binding \<Rightarrow> table_ref" where
  "table_ref_of alias b =
     \<lparr>tr_alias = alias, tr_table_key = tb_table_key b, tr_source_id = tb_source_id b,
      tr_connector_id = tb_connector_id b, tr_schema = tb_schema_name b, tr_table = tb_table b,
      tr_catalog = tb_catalog b\<rparr>"

definition opt_or_empty :: "string option \<Rightarrow> string" where
  "opt_or_empty v = (case v of None \<Rightarrow> [] | Some s \<Rightarrow> s)"

definition table_candidates :: "virtual_dataset \<Rightarrow> table_expr \<Rightarrow> table_binding list" where
  "table_candidates d t =
     map snd (filter (\<lambda>(key, b).
         key = te_name t
         \<or> (tb_table b = te_name t
            \<and> \<not> (te_db t \<noteq> [] \<and> opt_or_empty (tb_schema_name b) \<noteq> te_db t)
            \<and> \<not> (te_catalog t \<noteq> [] \<and> opt_or_empty (tb_catalog b) \<noteq> te_catalog t)))
       (vd_tables d))"

definition resolve_table ::
  "virtual_dataset \<Rightarrow> table_expr \<Rightarrow> (parse_error, string \<times> table_binding) result" where
  "resolve_table d t =
     (if \<not> te_is_table t then Inl Not_A_Table
      else case dict_get (virtual_tables d) (py_lower (te_name t)) of
        Some b \<Rightarrow> Inr (te_alias_or_name t, b)
      | None \<Rightarrow>
        (case dict_get (vd_tables d)
            (if te_db t \<noteq> [] then te_db t @ ''.'' @ te_name t else te_name t) of
           Some b \<Rightarrow> Inr (te_alias_or_name t, b)
         | None \<Rightarrow>
           (case table_candidates d t of
              [b] \<Rightarrow> Inr (te_alias_or_name t, b)
            | [] \<Rightarrow> Inl (Not_Mapped (te_name t))
            | _ \<Rightarrow> Inl (Ambiguous_Mapping (te_name t)))))"

text \<open>\<open>_join_kind\<close>: the kind in lower case, "inner" when it is missing or empty.\<close>

definition join_kind :: "join_expr \<Rightarrow> string" where
  "join_kind j =
     (let v = (case jx_kind j of None \<Rightarrow> ''inner'' | Some k \<Rightarrow> py_lower k)
      in if v = [] then ''inner'' else v)"

definition extract_int :: "int_clause \<Rightarrow> int option" where
  "extract_int c = (case c of Int_Clause n \<Rightarrow> Some n | _ \<Rightarrow> None)"

definition extract_cte_names :: "select_view \<Rightarrow> string list" where
  "extract_cte_names v =
     map py_lower (filter (\<lambda>a. a \<noteq> []) (map py_strip (sv_cte_entries v)))"

text \<open>\<open>_resolve_physical_tables\<close>: CTE names without qualification are not physical tables.\<close>

definition is_cte_name :: "string list \<Rightarrow> table_expr \<Rightarrow> bool" where
  "is_cte_name ctes t =
     (py_strip (te_name t) \<noteq> [] \<and> py_lower (py_strip (te_name t)) \<in> set ctes
      \<and> py_strip (te_db t) = [] \<and> py_strip (te_catalog t) = [])"

fun resolve_physical_tables ::
  "virtual_dataset \<Rightarrow> string list \<Rightarrow> table_expr list \<Rightarrow> (string, table_ref) dict
   \<Rightarrow> (parse_error, (string, table_ref) dict) result" where
  "resolve_physical_tables d ctes [] acc = Inr acc"
| "resolve_physical_tables d ctes (t # ts) acc =
     (if is_cte_name ctes t then resolve_physical_tables d ctes ts acc
      else bindR (resolve_table d t) (\<lambda>(alias, b).
        let candidate = table_ref_of alias b
        in case dict_get acc alias of
             None \<Rightarrow> resolve_physical_tables d ctes ts (dict_set acc alias candidate)
           | Some existing \<Rightarrow>
               if tr_table_key existing \<noteq> tr_table_key candidate then Inl (Alias_Conflict alias)
               else resolve_physical_tables d ctes ts acc))"

text \<open>The joins of a query without CTEs: each is joined to the table before it.\<close>

fun resolve_joins ::
  "virtual_dataset \<Rightarrow> string \<Rightarrow> join_expr list \<Rightarrow> (string, table_ref) dict \<times> join_ref list
   \<Rightarrow> (parse_error, (string, table_ref) dict \<times> join_ref list) result" where
  "resolve_joins d base [] acc = Inr acc"
| "resolve_joins d base (j # js) (tables, joins) =
     bindR (resolve_table d (jx_table j)) (\<lambda>(alias, b).
       resolve_joins d base js
         (dict_set tables alias (table_ref_of alias b),
          joins @ [\<lparr>jr_left_alias = (if joins = [] then base else jr_right_alias (last joins)),
                    jr_right_alias = alias, jr_join_type = join_kind j,
                    jr_on_sql = (case jx_on j of None \<Rightarrow> ''1=1'' | Some s \<Rightarrow> s)\<rparr>]))"

definition logical_plan_from_select ::
  "query_type \<Rightarrow> string \<Rightarrow> virtual_dataset \<Rightarrow> select_view \<Rightarrow> (parse_error, logical_plan) result" where
  "logical_plan_from_select qt sql d v =
     (let ctes = extract_cte_names v; has_cte = (ctes \<noteq> [])
      in bindR
        (if has_cte then
           bindR (resolve_physical_tables d ctes (sv_all_tables v) []) (\<lambda>tables.
             case tables of [] \<Rightarrow> Inl No_Physical_Tables
             | (alias, _) # _ \<Rightarrow> Inr (alias, tables, []))
         else case sv_from v of None \<Rightarrow> Inl No_From_Clause
           | Some t \<Rightarrow>
             bindR (resolve_table d t) (\<lambda>(alias, b).
               bindR (resolve_joins d alias (sv_joins v) (dict_set [] alias (table_ref_of alias b), []))
                 (\<lambda>(tables, joins). Inr (alias, tables, joins))))
        (\<lambda>(base, tables, joins). Inr
          \<lparr>lp_query_type = qt, lp_sql = sql, lp_from_alias = base, lp_tables = tables,
           lp_joins = joins, lp_where_sql = sv_where v, lp_having_sql = sv_having v,
           lp_group_by_sql = sv_group v, lp_order_by_sql = sv_order v,
           lp_limit = extract_int (sv_limit v), lp_offset = extract_int (sv_offset v),
           lp_has_cte = has_cte\<rparr>))"

section \<open>The plans that the parser builds are well formed\<close>

text \<open>
  Distinct aliases that agree with their references, a base alias among them, and joins
  between aliases of the plan only.
\<close>

definition plan_wf :: "logical_plan \<Rightarrow> bool" where
  "plan_wf lp = (dict_ok (lp_tables lp)
     \<and> (\<forall>(a, t) \<in> set (lp_tables lp). tr_alias t = a)
     \<and> dict_has (lp_tables lp) (lp_from_alias lp)
     \<and> (\<forall>j \<in> set (lp_joins lp). dict_has (lp_tables lp) (jr_left_alias j)
          \<and> dict_has (lp_tables lp) (jr_right_alias j)))"

definition tables_of :: "virtual_dataset \<Rightarrow> (string, table_ref) dict \<Rightarrow> bool" where
  "tables_of d tables = (dict_ok tables \<and> (\<forall>(a, t) \<in> set tables.
     tr_alias t = a \<and> (\<exists>b \<in> snd ` set (vd_tables d). t = table_ref_of a b)))"

lemma in_dict_set: "(k, v) \<in> set (dict_set d a b) \<Longrightarrow> (k, v) = (a, b) \<or> (k, v) \<in> set d"
  by (induction d) (auto simp: dict_set_def split: if_splits)

lemma tables_of_set:
  assumes "tables_of d tables" "b \<in> snd ` set (vd_tables d)"
  shows "tables_of d (dict_set tables a (table_ref_of a b))"
  using assms unfolding tables_of_def
  by (auto dest!: in_dict_set simp: table_ref_of_def)

lemma virtual_tables_from:
  "(k, b) \<in> set (foldl (\<lambda>m (k, b). dict_set m (py_lower k) b) acc ts)
   \<Longrightarrow> b \<in> snd ` set ts \<or> (k, b) \<in> set acc"
proof (induction ts arbitrary: acc)
  case (Cons p ts)
  obtain x y where p: "p = (x, y)" by (cases p)
  show ?case
    using Cons.IH [of "dict_set acc (py_lower x) y"] Cons.prems
    by (auto simp: p dest!: in_dict_set)
qed simp

lemma virtual_tables_values:
  "dict_get (virtual_tables d) k = Some b \<Longrightarrow> b \<in> snd ` set (vd_tables d)"
  using virtual_tables_from [of k b "[]" "vd_tables d"]
  by (auto simp: virtual_tables_def dest!: dict_get_in)

lemma table_candidates_sub: "set (table_candidates d t) \<subseteq> snd ` set (vd_tables d)"
  unfolding table_candidates_def by auto

lemma dict_get_values: "dict_get d k = Some b \<Longrightarrow> b \<in> snd ` set d"
  by (force dest: dict_get_in)

lemma resolve_table_binding:
  assumes "resolve_table d t = Inr (a, b)"
  shows "a = te_alias_or_name t \<and> b \<in> snd ` set (vd_tables d)"
  using assms table_candidates_sub [of d t] unfolding resolve_table_def
  by (auto split: if_splits option.splits list.splits
      dest: virtual_tables_values dict_get_values)

lemma resolve_physical_tables_of:
  "\<lbrakk>resolve_physical_tables d ctes ts acc = Inr out; tables_of d acc\<rbrakk> \<Longrightarrow> tables_of d out"
proof (induction ts arbitrary: acc)
  case (Cons t ts)
  show ?case
  proof (cases "is_cte_name ctes t")
    case False
    with Cons.prems obtain a b where r: "resolve_table d t = Inr (a, b)"
      by (auto simp: bindR_eq_Inr)
    have b: "b \<in> snd ` set (vd_tables d)"
      using resolve_table_binding [OF r] ..
    show ?thesis
      using Cons.prems False r Cons.IH tables_of_set [OF Cons.prems(2) b]
      by (auto simp: Let_def split: option.splits if_splits)
  qed (use Cons in simp)
qed simp

definition joins_within :: "(string, table_ref) dict \<Rightarrow> join_ref list \<Rightarrow> bool" where
  "joins_within tables js = (\<forall>j \<in> set js.
     dict_has tables (jr_left_alias j) \<and> dict_has tables (jr_right_alias j))"

lemma joins_within_set: "joins_within tables js \<Longrightarrow> joins_within (dict_set tables a t) js"
  by (auto simp: joins_within_def dict_has_iff)

lemma resolve_joins_of:
  "\<lbrakk>resolve_joins d base js (tables, joins) = Inr (tables', joins'); tables_of d tables;
    joins_within tables joins; dict_has tables base\<rbrakk>
   \<Longrightarrow> tables_of d tables' \<and> joins_within tables' joins' \<and> dict_has tables' base"
proof (induction js arbitrary: tables joins)
  case (Cons j js)
  obtain a b where r: "resolve_table d (jx_table j) = Inr (a, b)"
    using Cons.prems(1) by (auto simp: bindR_eq_Inr)
  have b: "b \<in> snd ` set (vd_tables d)"
    using resolve_table_binding [OF r] ..
  let ?T = "dict_set tables a (table_ref_of a b)"
  let ?left = "if joins = [] then base else jr_right_alias (last joins)"
  have left: "dict_has ?T ?left"
    using Cons.prems(3,4) by (auto simp: joins_within_def dict_has_iff)
  have within: "joins_within ?T (joins @ [\<lparr>jr_left_alias = ?left, jr_right_alias = a,
      jr_join_type = join_kind j,
      jr_on_sql = (case jx_on j of None \<Rightarrow> ''1=1'' | Some s \<Rightarrow> s)\<rparr>])"
    using left joins_within_set [OF Cons.prems(3), of a "table_ref_of a b"]
    by (auto simp: joins_within_def dict_has_iff)
  show ?case
    using Cons.IH [OF _ tables_of_set [OF Cons.prems(2) b] within] Cons.prems(1,4) r
    by (auto simp: dict_has_iff)
qed simp

lemma tables_of_Nil: "tables_of d []"
  by (simp add: tables_of_def)

lemma from_select_cases:
  assumes "logical_plan_from_select qt sql d v = Inr lp"
  obtains (cte) ctes al t rest where
      "resolve_physical_tables d ctes (sv_all_tables v) [] = Inr (lp_tables lp)"
      "lp_tables lp = (al, t) # rest" "lp_from_alias lp = al" "lp_joins lp = []"
      "lp_has_cte lp"
    | (plain) t b where
      "sv_from v = Some t" "resolve_table d t = Inr (lp_from_alias lp, b)"
      "resolve_joins d (lp_from_alias lp) (sv_joins v)
         (dict_set [] (lp_from_alias lp) (table_ref_of (lp_from_alias lp) b), [])
       = Inr (lp_tables lp, lp_joins lp)"
      "\<not> lp_has_cte lp"
proof (cases "extract_cte_names v = []")
  case True
  then show thesis
    using assms unfolding logical_plan_from_select_def
    by (auto simp: bindR_eq_Inr split: option.splits prod.splits intro!: plain)
next
  case False
  then obtain tables where t: "resolve_physical_tables d (extract_cte_names v) (sv_all_tables v) [] = Inr tables"
    using assms unfolding logical_plan_from_select_def by (auto simp: bindR_eq_Inr)
  show thesis
  proof (cases tables)
    case Nil
    with assms False t show thesis by (simp add: logical_plan_from_select_def)
  next
    case (Cons p rest)
    obtain al tr where p: "p = (al, tr)" by (cases p)
    show thesis
      by (rule cte [of "extract_cte_names v" al tr rest])
        (use assms False t Cons p in \<open>auto simp: logical_plan_from_select_def\<close>)
  qed
qed

lemma from_select_tables:
  assumes "logical_plan_from_select qt sql d v = Inr lp"
  shows "tables_of d (lp_tables lp) \<and> joins_within (lp_tables lp) (lp_joins lp)
    \<and> dict_has (lp_tables lp) (lp_from_alias lp)"
  using assms
proof (cases rule: from_select_cases)
  case (cte ctes al t rest)
  then show ?thesis
    using resolve_physical_tables_of [OF cte(1) tables_of_Nil]
    by (auto simp: joins_within_def dict_has_def)
next
  case (plain t b)
  have b: "b \<in> snd ` set (vd_tables d)"
    using resolve_table_binding [OF plain(2)] ..
  show ?thesis
    by (rule resolve_joins_of [OF plain(3) tables_of_set [OF tables_of_Nil b]])
      (auto simp: joins_within_def dict_has_iff)
qed

text \<open>C12: a query the planner accepts becomes a well-formed logical plan: the aliases are
  distinct and equal those of their references, the base alias is one of them, every join
  is between aliases of the plan, and every reference is built from a binding of the
  dataset.\<close>

theorem parsed_plan_well_formed:
  assumes "logical_plan_from_select qt sql d v = Inr lp"
  shows "plan_wf lp \<and> lp_tables lp \<noteq> []
    \<and> list_all (\<lambda>(a, t). \<exists>b \<in> snd ` set (vd_tables d). t = table_ref_of a b) (lp_tables lp)"
  using from_select_tables [OF assms]
  by (auto simp: plan_wf_def tables_of_def joins_within_def dict_has_def list_all_iff)

text \<open>\<open>SELECT ... FROM orders AS o JOIN customers AS c ON ... WHERE ... LIMIT 10\<close>\<close>

definition ex_select :: select_view where
  "ex_select = \<lparr>sv_cte_entries = [], sv_all_tables = [ex_table_expr ''orders'' ''o'', ex_table_expr ''customers'' ''c''],
     sv_from = Some (ex_table_expr ''orders'' ''o''),
     sv_joins = [\<lparr>jx_table = ex_table_expr ''customers'' ''c'', jx_kind = Some ''INNER'',
       jx_on = Some ''o.customer_id = c.id''\<rparr>],
     sv_where = Some ''o.total > 5'', sv_having = None, sv_group = [], sv_order = [],
     sv_limit = Int_Clause 10, sv_offset = No_Clause\<rparr>"

definition ex_virtual :: virtual_dataset where
  "ex_virtual = \<lparr>vd_id = ''d'', vd_workspace_id = ''ws'',
     vd_tables = map (\<lambda>k. (k, \<lparr>tb_table_key = k, tb_source_id = ''src_'' @ k, tb_connector_id = None,
       tb_schema_name = None, tb_table = k, tb_catalog = None, tb_stats = None, tb_metadata = [],
       tb_descriptor = None\<rparr>)) [''orders'', ''customers''],
     vd_stats_overrides = []\<rparr>"

theorem parsed_plan_well_formed_witness:
  "\<exists>lp. logical_plan_from_select QT_SQL ''SELECT'' ex_virtual ex_select = Inr lp
     \<and> plan_wf lp \<and> length (lp_tables lp) = 2"
proof -
  have c: "case logical_plan_from_select QT_SQL ''SELECT'' ex_virtual ex_select of
      Inl e \<Rightarrow> False | Inr lp \<Rightarrow> length (lp_tables lp) = 2"
    by code_simp
  then obtain lp where lp: "logical_plan_from_select QT_SQL ''SELECT'' ex_virtual ex_select = Inr lp"
      "length (lp_tables lp) = 2"
    by (auto split: sum.splits)
  from parsed_plan_well_formed [OF lp(1)] lp show ?thesis by blast
qed

end
