(* ===== verification/Optimizer.thy ===== *)
theory Optimizer
  imports Sql_Parser
begin

text \<open>
  The optimizer (\<open>federation/planner/optimizer.py\<close>) and the predicate helpers of
  \<open>federation/planner/parser.py\<close> that it calls. Expressions are values of the SQL library's
  tree type \<open>'x\<close>. The iteration order of the Python set of remaining aliases is an
  argument \<open>rank\<close>: the set is listed by increasing rank, whatever the rank is.
\<close>

section \<open>Required columns and conjuncts\<close>

definition add_to_set :: "'a \<Rightarrow> 'a list \<Rightarrow> 'a list" where
  "add_to_set x xs = (if x \<in> set xs then xs else xs @ [x])"

lemma set_add_to_set [simp]: "set (add_to_set x xs) = insert x (set xs)"
  by (auto simp: add_to_set_def)

fun require_columns ::
  "string list \<Rightarrow> column list \<Rightarrow> (string, string list) dict \<times> bool \<Rightarrow> (string, string list) dict \<times> bool" where
  "require_columns aliases [] acc = acc"
| "require_columns aliases (c # cs) (required, has_unqualified) =
     (if co_name c = [] then require_columns aliases cs (required, has_unqualified)
      else if co_table c \<noteq> [] \<and> co_table c \<in> set aliases
        then require_columns aliases cs
          (dict_set required (co_table c)
             (add_to_set (co_name c) (case dict_get required (co_table c) of None \<Rightarrow> [] | Some xs \<Rightarrow> xs)),
           has_unqualified)
      else if co_table c \<noteq> [] then require_columns aliases cs (required, has_unqualified)
      else require_columns aliases cs (required, True))"

definition extract_required_columns ::
  "'x sql_ops \<Rightarrow> 'x \<Rightarrow> string list \<Rightarrow> (string, string list) dict \<times> bool" where
  "extract_required_columns so e aliases =
     require_columns aliases (so_columns so e)
       (map (\<lambda>a. (a, if so_has_star so e then [''*''] else [])) aliases, False)"

fun split_conjunctive_predicates :: "'x pred \<Rightarrow> 'x list" where
  "split_conjunctive_predicates (P_And l r) =
     split_conjunctive_predicates l @ split_conjunctive_predicates r"
| "split_conjunctive_predicates (P_Atom a) = [a]"

definition predicate_aliases :: "'x sql_ops \<Rightarrow> 'x \<Rightarrow> string list \<Rightarrow> string list" where
  "predicate_aliases so p aliases =
     remdups (filter (\<lambda>t. t \<in> set aliases) (map co_table (so_columns so p)))"

text \<open>A predicate is pushed to an alias when it refers to that alias and no other.\<close>

definition predicate_map :: "'x sql_ops \<Rightarrow> 'x list \<Rightarrow> string list \<Rightarrow> string \<Rightarrow> 'x list" where
  "predicate_map so ps aliases a = filter (\<lambda>p. predicate_aliases so p aliases = [a]) ps"

section \<open>Metadata of a binding\<close>

definition meta_of_opt :: "string option \<Rightarrow> meta_value" where
  "meta_of_opt v = (case v of None \<Rightarrow> M_null | Some s \<Rightarrow> M_str s)"

definition meta_get :: "table_binding \<Rightarrow> string \<Rightarrow> meta_value \<Rightarrow> meta_value" where
  "meta_get b k dflt = (case dict_get (tb_metadata b) k of None \<Rightarrow> dflt | Some v \<Rightarrow> v)"

text \<open>\<open>bool(v)\<close> and \<open>str(v)\<close>\<close>

definition meta_truthy :: "meta_value \<Rightarrow> bool" where
  "meta_truthy v = (case v of M_str s \<Rightarrow> s \<noteq> [] | M_bool b \<Rightarrow> b | M_null \<Rightarrow> False)"

definition meta_text :: "meta_value \<Rightarrow> string" where
  "meta_text v = (case v of M_str s \<Rightarrow> s | M_bool b \<Rightarrow> (if b then ''True'' else ''False'') | M_null \<Rightarrow> ''None'')"

definition physical_catalog :: "table_binding \<Rightarrow> meta_value" where
  "physical_catalog b = meta_get b ''physical_catalog'' (meta_of_opt (tb_catalog b))"

definition physical_schema :: "table_binding \<Rightarrow> meta_value" where
  "physical_schema b = meta_get b ''physical_schema'' (meta_of_opt (tb_schema_name b))"

definition physical_table :: "table_binding \<Rightarrow> meta_value" where
  "physical_table b = meta_get b ''physical_table'' (M_str (tb_table b))"

definition differs_from :: "meta_value \<Rightarrow> string option \<Rightarrow> bool" where
  "differs_from v w = (v \<noteq> M_null \<and> v \<noteq> meta_of_opt w)"

definition requires_scan_level_rewrite :: "table_binding \<Rightarrow> bool" where
  "requires_scan_level_rewrite b =
     (meta_truthy (meta_get b ''physical_sql'' M_null)
      \<or> meta_truthy (meta_get b ''skip_catalog_in_pushdown'' M_null)
      \<or> differs_from (meta_get b ''physical_catalog'' M_null) (tb_catalog b)
      \<or> differs_from (meta_get b ''physical_schema'' M_null) (tb_schema_name b)
      \<or> differs_from (meta_get b ''physical_table'' M_null) (Some (tb_table b)))"

text \<open>\<open>{str(v).strip().lower() for v in vs if str(v).strip()}\<close>\<close>

definition name_set :: "meta_value list \<Rightarrow> string list" where
  "name_set vs = map (\<lambda>v. py_lower (py_strip (meta_text v))) (filter (\<lambda>v. py_strip (meta_text v) \<noteq> []) vs)"

definition requires_logical_name_rewrite :: "table_binding \<Rightarrow> bool" where
  "requires_logical_name_rewrite b =
     (let logical = name_set [M_str (tb_table_key b), meta_get b ''dataset_alias'' M_null];
          physical = name_set [M_str (tb_table b), meta_get b ''physical_table'' M_null]
      in if logical = [] \<or> physical = [] then False else \<not> set logical \<subseteq> set physical)"

section \<open>Scans\<close>

definition normalize_dialect :: "string option \<Rightarrow> string" where
  "normalize_dialect v =
     (let n = py_lower (py_strip (case v of None \<Rightarrow> [] | Some s \<Rightarrow> s))
      in if n = [] then ''tsql'' else n)"

definition simple_predicate_nodes :: "string list" where
  "simple_predicate_nodes =
     [''Column'', ''Identifier'', ''Literal'', ''Null'', ''Boolean'', ''Paren'', ''EQ'', ''NEQ'',
      ''GT'', ''GTE'', ''LT'', ''LTE'', ''Is'', ''Not'', ''In'', ''Neg'', ''Or'']"

definition can_push_filter :: "'x sql_ops \<Rightarrow> 'x \<Rightarrow> string \<Rightarrow> string \<Rightarrow> bool" where
  "can_push_filter so p input_dialect target_dialect =
     (normalize_dialect (Some target_dialect) = normalize_dialect (Some input_dialect)
      \<or> list_all (\<lambda>k. k \<in> set simple_predicate_nodes) (so_kinds so p))"

definition rebind_filter_column :: "string \<Rightarrow> table_binding \<Rightarrow> column \<Rightarrow> column" where
  "rebind_filter_column a b c =
     (let valid_tables = map (\<lambda>v. py_lower (py_strip (meta_text v)))
            [M_str a, M_str (tb_table_key b), M_str (tb_table b), physical_table b];
          valid_schemas = name_set [meta_of_opt (tb_schema_name b), physical_schema b];
          valid_catalogs = name_set [meta_of_opt (tb_catalog b), physical_catalog b];
          t = py_lower (py_strip (co_table c)); s = py_lower (py_strip (co_db c));
          cat = py_lower (py_strip (co_catalog c));
          should_rebind = (t \<noteq> [] \<and> t \<in> set valid_tables
            \<and> \<not> (s \<noteq> [] \<and> valid_schemas \<noteq> [] \<and> s \<notin> set valid_schemas)
            \<and> \<not> (cat \<noteq> [] \<and> valid_catalogs \<noteq> [] \<and> cat \<notin> set valid_catalogs))
      in (if should_rebind then c\<lparr>co_table := a\<rparr> else c)\<lparr>co_db := [], co_catalog := []\<rparr>)"

definition rewrite_filter_for_scan :: "'x sql_ops \<Rightarrow> 'x \<Rightarrow> string \<Rightarrow> table_binding \<Rightarrow> 'x" where
  "rewrite_filter_for_scan so e a b = so_rewrite_columns so (rebind_filter_column a b) e"

definition opt_or_none :: "meta_value \<Rightarrow> string option" where
  "opt_or_none v = (case v of M_str s \<Rightarrow> if s = [] then None else Some s | _ \<Rightarrow> None)"

definition starred :: "string list \<Rightarrow> bool" where
  "starred cols = (cols = [] \<or> ''*'' \<in> set cols)"

definition build_scan_sql ::
  "'x sql_ops \<Rightarrow> string \<Rightarrow> table_binding \<Rightarrow> string list \<Rightarrow> 'x list \<Rightarrow> int option \<Rightarrow> string
   \<Rightarrow> (sql_error, string) result" where
  "build_scan_sql so a b cols filters limit dialect =
     (let fs = map (\<lambda>e. rewrite_filter_for_scan so e a b) filters;
          psql = (case meta_get b ''physical_sql'' M_null of M_str s \<Rightarrow> s | _ \<Rightarrow> [])
      in if py_strip psql \<noteq> [] then
           (let text = py_rstrip_char (CHR '';'') (py_strip psql);
                al = so_ident so dialect a;
                clause = (if starred cols then ''*''
                  else py_join '', '' (map (\<lambda>c. al @ ''.'' @ so_ident so dialect c) cols));
                q0 = ''SELECT '' @ clause @ '' FROM ('' @ text @ '') AS '' @ al;
                q = (if fs = [] then q0
                  else q0 @ '' WHERE '' @ py_join '' AND '' (map (so_sql so dialect) fs))
            in (case limit of None \<Rightarrow> Inr q
                | Some n \<Rightarrow> bindR (enforce_preview_limit so q n dialect) (\<lambda>(q', _). Inr q')))
         else
           (let cat = (if meta_truthy (meta_get b ''skip_catalog_in_pushdown'' M_null)
                       then M_null else physical_catalog b)
            in Inr (so_select so dialect (if starred cols then None else Some cols)
                 (meta_text (physical_table b), opt_or_none (physical_schema b), opt_or_none cat)
                 a fs limit)))"

text \<open>\<open>estimate_bytes\<close> (\<open>federation/connectors/sql.py\<close>)\<close>

definition estimate_bytes :: "rat option \<Rightarrow> rat \<Rightarrow> rat option" where
  "estimate_bytes rows bpr =
     (case rows of None \<Rightarrow> None | Some r \<Rightarrow> if r < 0 then None else Some (of_int \<lceil>r * bpr\<rceil>))"

section \<open>Join order and join strategies\<close>

definition default_rows :: rat where
  "default_rows = 1000000"

definition alias_rows_of ::
  "logical_plan \<Rightarrow> (string, table_statistics) dict \<Rightarrow> (string, rat) dict" where
  "alias_rows_of lp stats =
     map (\<lambda>(a, t). (a, case dict_get stats (tr_table_key t) of
         Some st \<Rightarrow> (case ts_row_count_estimate st of Some r \<Rightarrow> r | None \<Rightarrow> default_rows)
       | None \<Rightarrow> default_rows)) (lp_tables lp)"

definition rows_for :: "(string, rat) dict \<Rightarrow> string \<Rightarrow> rat" where
  "rows_for rows a = (case dict_get rows a of None \<Rightarrow> default_rows | Some r \<Rightarrow> r)"

definition join_candidate :: "join_ref \<Rightarrow> string list \<Rightarrow> string list \<Rightarrow> string option" where
  "join_candidate j ordered remaining =
     (if jr_left_alias j \<in> set ordered \<and> jr_right_alias j \<in> set remaining then Some (jr_right_alias j)
      else if jr_right_alias j \<in> set ordered \<and> jr_left_alias j \<in> set remaining
        then Some (jr_left_alias j)
      else None)"

fun best_candidate ::
  "(string, rat) dict \<Rightarrow> string list \<Rightarrow> string list \<Rightarrow> join_ref list \<Rightarrow> string option \<Rightarrow> string option" where
  "best_candidate rows ordered remaining [] best = best"
| "best_candidate rows ordered remaining (j # js) best =
     best_candidate rows ordered remaining js
       (case join_candidate j ordered remaining of
          None \<Rightarrow> best
        | Some c \<Rightarrow> (case best of
            None \<Rightarrow> Some c
          | Some b \<Rightarrow> if rows_for rows c < rows_for rows b then Some c else best))"

text \<open>\<open>min(xs, key=f)\<close>: the first of the least elements; \<open>xs\<close> is not empty.\<close>

definition min_by :: "('a \<Rightarrow> 'b :: linorder) \<Rightarrow> 'a list \<Rightarrow> 'a" where
  "min_by f xs = foldl (\<lambda>b y. if f y < f b then y else b) (hd xs) (tl xs)"

definition next_alias ::
  "(string list \<Rightarrow> string \<Rightarrow> nat) \<Rightarrow> (string, rat) dict \<Rightarrow> join_ref list
   \<Rightarrow> string list \<Rightarrow> string list \<Rightarrow> string" where
  "next_alias rank rows joins ordered remaining =
     (case best_candidate rows ordered remaining joins None of
        Some c \<Rightarrow> c
      | None \<Rightarrow> min_by (rows_for rows) (sort_key (rank remaining) remaining))"

lemma join_candidate_remaining: "join_candidate j ordered remaining = Some c \<Longrightarrow> c \<in> set remaining"
  by (auto simp: join_candidate_def split: if_splits)

lemma best_candidate_remaining:
  "\<lbrakk>best_candidate rows ordered remaining js best = Some c; \<forall>b. best = Some b \<longrightarrow> b \<in> set remaining\<rbrakk>
   \<Longrightarrow> c \<in> set remaining"
proof (induction js arbitrary: best)
  case (Cons j js)
  show ?case
    by (rule Cons.IH [OF Cons.prems(1) [unfolded best_candidate.simps]])
      (use Cons.prems(2) in \<open>auto split: option.splits if_splits dest: join_candidate_remaining\<close>)
qed simp

lemma foldl_pick_in: "foldl (\<lambda>b y. if f y < f b then y else b) x xs \<in> insert x (set xs)"
  by (induction xs arbitrary: x) auto

lemma min_by_in: "xs \<noteq> [] \<Longrightarrow> min_by f xs \<in> set xs"
  using foldl_pick_in [of f "hd xs" "tl xs"] by (cases xs) (auto simp: min_by_def)

lemma next_alias_remaining:
  "remaining \<noteq> [] \<Longrightarrow> next_alias rank rows joins ordered remaining \<in> set remaining"
  using min_by_in [of "sort_key (rank remaining) remaining" "rows_for rows"]
  by (auto simp: next_alias_def dest: best_candidate_remaining split: option.splits)
    (metis set_empty set_sort)

function order_rest ::
  "(string list \<Rightarrow> string \<Rightarrow> nat) \<Rightarrow> (string, rat) dict \<Rightarrow> join_ref list
   \<Rightarrow> string list \<Rightarrow> string list \<Rightarrow> string list" where
  "order_rest rank rows joins ordered remaining =
     (if remaining = [] then ordered
      else let n = next_alias rank rows joins ordered remaining
        in order_rest rank rows joins (ordered @ [n]) (filter (\<lambda>a. a \<noteq> n) remaining))"
  by pat_completeness auto
termination
  by (relation "measure (\<lambda>(rank, rows, joins, ordered, remaining). length remaining)")
    (auto intro!: length_filter_less next_alias_remaining)

declare order_rest.simps [simp del]

definition choose_join_order ::
  "(string list \<Rightarrow> string \<Rightarrow> nat) \<Rightarrow> logical_plan \<Rightarrow> (string, table_statistics) dict \<Rightarrow> string list" where
  "choose_join_order rank lp stats =
     (let rows = alias_rows_of lp stats
      in case sort_key snd rows of
           [] \<Rightarrow> []
         | (a, _) # _ \<Rightarrow> order_rest rank rows (lp_joins lp) [a]
             (filter (\<lambda>b. b \<noteq> a) (dict_keys (lp_tables lp))))"

datatype opt_error = Key_Missing string | Where_Not_Parsed | Scan_Failed sql_error

definition table_bytes ::
  "logical_plan \<Rightarrow> (string, table_statistics) dict \<Rightarrow> string \<Rightarrow> (opt_error, rat) result" where
  "table_bytes lp stats a =
     (case dict_get (lp_tables lp) a of
        None \<Rightarrow> Inl (Key_Missing a)
      | Some t \<Rightarrow>
          (let st = (case dict_get stats (tr_table_key t) of None \<Rightarrow> default_statistics | Some x \<Rightarrow> x)
           in Inr ((case ts_row_count_estimate st of None \<Rightarrow> default_rows | Some r \<Rightarrow> r)
                   * ts_bytes_per_row st)))"

fun choose_strategies ::
  "logical_plan \<Rightarrow> (string, table_statistics) dict \<Rightarrow> int \<Rightarrow> join_ref list
   \<Rightarrow> (string, join_strategy) dict \<Rightarrow> (opt_error, (string, join_strategy) dict) result" where
  "choose_strategies lp stats threshold [] acc = Inr acc"
| "choose_strategies lp stats threshold (j # js) acc =
     bindR (table_bytes lp stats (jr_left_alias j)) (\<lambda>l.
     bindR (table_bytes lp stats (jr_right_alias j)) (\<lambda>r.
       choose_strategies lp stats threshold js
         (dict_set acc (jr_left_alias j @ ''->'' @ jr_right_alias j)
           (if min l r \<le> of_int threshold then BROADCAST else PARTITIONED_HASH))))"

definition choose_join_strategies ::
  "logical_plan \<Rightarrow> (string, table_statistics) dict \<Rightarrow> int
   \<Rightarrow> (opt_error, (string, join_strategy) dict) result" where
  "choose_join_strategies lp stats threshold = choose_strategies lp stats threshold (lp_joins lp) []"

section \<open>Optimizing a plan\<close>

record optimized_plan =
  op_logical_plan :: logical_plan
  op_source_subplans :: "source_subplan list"
  op_local_stage_sql :: string
  op_local_stage_dialect :: string
  op_join_order :: "string list"
  op_join_strategies :: "(string, join_strategy) dict"
  op_pushdown_full_query :: bool

text \<open>The arguments of one call of \<open>optimize\<close> and the parameters it relies on.\<close>

record 'x opt_env =
  oe_ops :: "'x sql_ops"
  oe_normalize :: "'x \<Rightarrow> 'x"
  oe_rank :: "string list \<Rightarrow> string \<Rightarrow> nat"
  oe_threshold :: int
  oe_dataset :: virtual_dataset
  oe_stats :: "(string, table_statistics) dict"
  oe_source_dialects :: "(string, string) dict"
  oe_input_dialect :: string
  oe_local_dialect :: string

text \<open>\<open>any(...)\<close> over a generator whose elements may raise.\<close>

fun anyR :: "('a \<Rightarrow> ('e, bool) result) \<Rightarrow> 'a list \<Rightarrow> ('e, bool) result" where
  "anyR f [] = Inr False"
| "anyR f (x # xs) = bindR (f x) (\<lambda>b. if b then Inr True else anyR f xs)"

definition binding_of :: "'x opt_env \<Rightarrow> table_ref \<Rightarrow> (opt_error, table_binding) result" where
  "binding_of env t = (case dict_get (vd_tables (oe_dataset env)) (tr_table_key t) of
     None \<Rightarrow> Inl (Key_Missing (tr_table_key t)) | Some b \<Rightarrow> Inr b)"

definition where_predicates :: "'x opt_env \<Rightarrow> logical_plan \<Rightarrow> (opt_error, 'x list) result" where
  "where_predicates env lp =
     (case lp_where_sql lp of
        None \<Rightarrow> Inr []
      | Some w \<Rightarrow> if w = [] then Inr []
          else (case so_parse_where (oe_ops env) (oe_input_dialect env) w of
                  None \<Rightarrow> Inl Where_Not_Parsed
                | Some p \<Rightarrow> Inr (split_conjunctive_predicates p)))"

definition target_dialect :: "'x opt_env \<Rightarrow> string \<Rightarrow> string" where
  "target_dialect env source =
     (case dict_get (oe_source_dialects env) source of None \<Rightarrow> oe_input_dialect env | Some d \<Rightarrow> d)"

definition pushes_full_query :: "'x opt_env \<Rightarrow> logical_plan \<Rightarrow> (opt_error, bool) result" where
  "pushes_full_query env lp =
     (let refs = dict_values (lp_tables lp)
      in bindR (anyR (\<lambda>t. bindR (binding_of env t) (\<lambda>b. Inr (requires_scan_level_rewrite b))) refs)
         (\<lambda>physical.
         bindR (anyR (\<lambda>t. bindR (binding_of env t) (\<lambda>b. Inr (requires_logical_name_rewrite b))) refs)
         (\<lambda>logical.
           let cross = list_ex (\<lambda>t. normalize_dialect (dict_get (oe_source_dialects env) (tr_source_id t))
                  \<noteq> normalize_dialect (Some (oe_input_dialect env))) refs
           in Inr (length (remdups (map tr_source_id refs)) = 1 \<and> \<not> lp_has_cte lp
                   \<and> \<not> physical \<and> \<not> logical \<and> \<not> cross))))"

definition pushable_filters :: "'x opt_env \<Rightarrow> 'x list \<Rightarrow> string list \<Rightarrow> string \<Rightarrow> string \<Rightarrow> 'x list" where
  "pushable_filters env ps aliases a source =
     filter (\<lambda>p. can_push_filter (oe_ops env) p (oe_input_dialect env) (target_dialect env source))
       (predicate_map (oe_ops env) ps aliases a)"

definition projection :: "(string, string list) dict \<Rightarrow> bool \<Rightarrow> string \<Rightarrow> string list" where
  "projection required has_unqualified a =
     (let cols = py_sorted_set (case dict_get required a of None \<Rightarrow> [] | Some xs \<Rightarrow> xs)
      in if has_unqualified \<and> ''*'' \<notin> set cols then [''*''] else cols)"

definition scan_subplan ::
  "'x opt_env \<Rightarrow> (string, string list) dict \<Rightarrow> bool \<Rightarrow> 'x list \<Rightarrow> string list
   \<Rightarrow> string \<times> table_ref \<Rightarrow> (opt_error, source_subplan) result" where
  "scan_subplan env required has_unqualified ps aliases item =
     (case item of (a, t) \<Rightarrow>
       bindR (binding_of env t) (\<lambda>b.
         let cols = projection required has_unqualified a;
             target = target_dialect env (tr_source_id t);
             filters = pushable_filters env ps aliases a (tr_source_id t)
         in (case build_scan_sql (oe_ops env) a b cols filters None target of
               Inl e \<Rightarrow> Inl (Scan_Failed e)
             | Inr sql \<Rightarrow>
                (let stats = (case dict_get (oe_stats env) (tr_table_key t) of
                       Some st \<Rightarrow> st
                     | None \<Rightarrow> (case tb_stats b of Some st \<Rightarrow> st | None \<Rightarrow> default_statistics))
                 in Inr \<lparr>sp_stage_id = ''scan_'' @ a, sp_source_id = tr_source_id t, sp_alias = a,
                      sp_table_key = tr_table_key t, sp_sql = Some sql, sp_resource = None,
                      sp_projected_columns = cols,
                      sp_pushed_filters = map (so_sql (oe_ops env) target) filters,
                      sp_pushed_limit = None,
                      sp_estimated_rows = ts_row_count_estimate stats,
                      sp_estimated_bytes =
                        estimate_bytes (ts_row_count_estimate stats) (ts_bytes_per_row stats)\<rparr>))))"

definition full_query_subplan :: "'x opt_env \<Rightarrow> logical_plan \<Rightarrow> (opt_error, source_subplan) result" where
  "full_query_subplan env lp =
     (let source = hd (map tr_source_id (dict_values (lp_tables lp)));
          target = target_dialect env source
      in case dict_get (lp_tables lp) (lp_from_alias lp) of
           None \<Rightarrow> Inl (Key_Missing (lp_from_alias lp))
         | Some t \<Rightarrow> Inr
             \<lparr>sp_stage_id = ''scan_full_query'', sp_source_id = source, sp_alias = lp_from_alias lp,
              sp_table_key = tr_table_key t,
              sp_sql = Some (case so_transpile (oe_ops env) (lp_sql lp) (oe_input_dialect env) target of
                 None \<Rightarrow> lp_sql lp | Some q \<Rightarrow> q),
              sp_resource = None, sp_projected_columns = [], sp_pushed_filters = [],
              sp_pushed_limit = None, sp_estimated_rows = None, sp_estimated_bytes = None\<rparr>)"

definition optimize :: "'x opt_env \<Rightarrow> logical_plan \<Rightarrow> 'x \<Rightarrow> (opt_error, optimized_plan) result" where
  "optimize env lp e =
     (let aliases = dict_keys (lp_tables lp)
      in case extract_required_columns (oe_ops env) e aliases of (required, has_unqualified) \<Rightarrow>
         bindR (where_predicates env lp) (\<lambda>ps.
         bindR (pushes_full_query env lp) (\<lambda>full.
           if full then
             bindR (full_query_subplan env lp) (\<lambda>sp. Inr
               \<lparr>op_logical_plan = lp, op_source_subplans = [sp],
                op_local_stage_sql = ''SELECT * FROM scan_full_query'',
                op_local_stage_dialect = oe_local_dialect env, op_join_order = [lp_from_alias lp],
                op_join_strategies = [], op_pushdown_full_query = True\<rparr>)
           else
             bindR (mapR (scan_subplan env required has_unqualified ps aliases) (lp_tables lp)) (\<lambda>sps.
             bindR (choose_join_strategies lp (oe_stats env) (oe_threshold env)) (\<lambda>strategies. Inr
               \<lparr>op_logical_plan = lp, op_source_subplans = sps,
                op_local_stage_sql = render_local_stage_sql (oe_ops env) (oe_normalize env) e
                  (map (\<lambda>a. (a, ''scan_'' @ a)) aliases) (oe_input_dialect env) (oe_local_dialect env),
                op_local_stage_dialect = oe_local_dialect env,
                op_join_order = choose_join_order (oe_rank env) lp (oe_stats env),
                op_join_strategies = strategies, op_pushdown_full_query = False\<rparr>)))))"

section \<open>The join order\<close>

definition linked :: "join_ref list \<Rightarrow> string set \<Rightarrow> string \<Rightarrow> bool" where
  "linked joins A b = (\<exists>j \<in> set joins. jr_left_alias j \<in> A \<and> jr_right_alias j = b
     \<or> jr_right_alias j \<in> A \<and> jr_left_alias j = b)"

lemma join_candidate_linked:
  "join_candidate j ordered remaining = Some c \<Longrightarrow> j \<in> set joins \<Longrightarrow> linked joins (set ordered) c"
  by (auto simp: join_candidate_def linked_def split: if_splits)

lemma best_candidate_linked:
  "\<lbrakk>best_candidate rows ordered remaining js best = Some c; set js \<subseteq> set joins;
    \<forall>b. best = Some b \<longrightarrow> linked joins (set ordered) b\<rbrakk>
   \<Longrightarrow> linked joins (set ordered) c"
proof (induction js arbitrary: best)
  case (Cons j js)
  show ?case
    by (rule Cons.IH [OF Cons.prems(1) [unfolded best_candidate.simps]])
      (use Cons.prems(2,3) in \<open>auto split: option.splits if_splits dest: join_candidate_linked\<close>)
qed simp

lemma best_candidate_None:
  "best_candidate rows ordered remaining js best = None
   \<longleftrightarrow> best = None \<and> (\<forall>j \<in> set js. join_candidate j ordered remaining = None)"
  by (induction js arbitrary: best) (auto split: option.splits)

lemma next_alias_linked:
  assumes "b \<in> set remaining" "linked joins (set ordered) b"
  shows "linked joins (set ordered) (next_alias rank rows joins ordered remaining)"
proof (cases "best_candidate rows ordered remaining joins None")
  case None
  then show ?thesis
    using assms by (auto simp: best_candidate_None linked_def join_candidate_def split: if_splits)
next
  case (Some c)
  then show ?thesis
    using best_candidate_linked [OF Some] by (simp add: next_alias_def)
qed

text \<open>Each alias of the order is joined to an earlier one, if any of the aliases still to come is.\<close>

definition connected_first :: "join_ref list \<Rightarrow> nat \<Rightarrow> string list \<Rightarrow> bool" where
  "connected_first joins n order = (\<forall>k. n \<le> k \<and> k < length order \<longrightarrow>
     (\<exists>b \<in> set (drop k order). linked joins (set (take k order)) b)
       \<longrightarrow> linked joins (set (take k order)) (order ! k))"

lemma order_rest_props:
  assumes "distinct (ordered @ remaining)"
  shows "distinct (order_rest rank rows joins ordered remaining)
    \<and> set (order_rest rank rows joins ordered remaining) = set ordered \<union> set remaining
    \<and> take (length ordered) (order_rest rank rows joins ordered remaining) = ordered
    \<and> connected_first joins (length ordered) (order_rest rank rows joins ordered remaining)"
  using assms
proof (induction "length remaining" arbitrary: ordered remaining rule: less_induct)
  case less
  show ?case
  proof (cases "remaining = []")
    case True
    then show ?thesis
      using less.prems by (simp add: order_rest.simps connected_first_def)
  next
    case False
    let ?n = "next_alias rank rows joins ordered remaining"
    let ?r = "filter (\<lambda>a. a \<noteq> ?n) remaining"
    let ?out = "order_rest rank rows joins (ordered @ [?n]) ?r"
    have n: "?n \<in> set remaining" using False by (rule next_alias_remaining)
    have step: "order_rest rank rows joins ordered remaining = ?out"
      using False by (simp add: order_rest.simps [of rank rows joins ordered remaining] Let_def)
    have IH: "distinct ?out \<and> set ?out = set (ordered @ [?n]) \<union> set ?r
        \<and> take (length (ordered @ [?n])) ?out = ordered @ [?n]
        \<and> connected_first joins (length (ordered @ [?n])) ?out"
      by (rule less.hyps) (use n less.prems in \<open>auto intro: length_filter_less\<close>)
    obtain rest where out: "?out = ordered @ ?n # rest"
      using IH by (metis append.assoc append_Cons append_Nil append_take_drop_id)
    have rest: "set rest \<subseteq> set remaining"
    proof
      fix x assume x: "x \<in> set rest"
      have "x \<in> set ?out" using x by (simp add: out)
      moreover have "set ?out = set (ordered @ [?n]) \<union> set ?r" using IH by blast
      ultimately have "x \<in> set ordered \<union> {?n} \<union> set remaining" by auto
      moreover have "x \<notin> set ordered" using IH x by (auto simp: out)
      ultimately show "x \<in> set remaining" using n by blast
    qed
    have here: "linked joins (set ordered) ?n" if "\<exists>b \<in> set (?n # rest). linked joins (set ordered) b"
      using that n rest next_alias_linked by (metis in_mono set_ConsD)
    have "connected_first joins (length ordered) ?out"
      unfolding connected_first_def
    proof (intro allI impI)
      fix k
      assume k: "length ordered \<le> k \<and> k < length ?out"
        and b: "\<exists>b \<in> set (drop k ?out). linked joins (set (take k ?out)) b"
      show "linked joins (set (take k ?out)) (?out ! k)"
      proof (cases "k = length ordered")
        case True
        then show ?thesis using here b by (simp add: out)
      next
        case False
        then show ?thesis using IH k b by (simp add: connected_first_def)
      qed
    qed
    then show ?thesis
      using IH n unfolding step by (auto simp: out)
  qed
qed

lemma alias_rows_keys: "map fst (alias_rows_of lp stats) = dict_keys (lp_tables lp)"
  by (auto simp: alias_rows_of_def dict_keys_def)

lemma sort_key_hd_least:
  "sort_key f xs = x # ys \<Longrightarrow> x \<in> set xs \<and> (\<forall>y \<in> set xs. f x \<le> f y)"
  by (metis list.set_intros(1) set_ConsD set_sort sorted_sort_key list.simps(9) sorted_simps(2)
      image_eqI order_refl set_map)

text \<open>C9: the join order lists every alias of the plan once, starts with a table of least
  estimated cardinality, and takes an unconnected table only when no join links the tables
  already taken to one of those left, whatever the iteration order of the set of aliases.\<close>

theorem join_order_permutes_and_follows_joins:
  fixes lp :: logical_plan and rank :: "string list \<Rightarrow> string \<Rightarrow> nat"
    and stats :: "(string, table_statistics) dict"
  assumes "dict_ok (lp_tables lp)" "lp_tables lp \<noteq> []"
  defines "order \<equiv> choose_join_order rank lp stats"
    and "rows \<equiv> rows_for (alias_rows_of lp stats)"
  shows "distinct order \<and> set order = set (dict_keys (lp_tables lp))
    \<and> list_all (\<lambda>a. rows (hd order) \<le> rows a) order
    \<and> connected_first (lp_joins lp) 1 order"
proof -
  let ?rows = "alias_rows_of lp stats"
  have ok: "dict_ok ?rows"
    using assms(1) alias_rows_keys [of lp stats] by (simp add: dict_ok_def dict_keys_def)
  have keys: "fst ` set ?rows = set (dict_keys (lp_tables lp))"
    using alias_rows_keys [of lp stats] by (metis list.set_map)
  have ne: "?rows \<noteq> []" using assms(2) by (simp add: alias_rows_of_def)
  obtain p rest where s: "sort_key snd ?rows = p # rest"
    using ne by (metis list.exhaust set_empty set_sort)
  obtain a r where p: "p = (a, r)" by (cases p)
  have least: "(a, r) \<in> set ?rows" "\<forall>y \<in> set ?rows. r \<le> snd y"
    using sort_key_hd_least [OF s] by (auto simp: p)
  have row: "rows b = q" if "(b, q) \<in> set ?rows" for b q
    using that ok by (simp add: rows_def rows_for_def dict_ok_in)
  let ?rem = "filter (\<lambda>b. b \<noteq> a) (dict_keys (lp_tables lp))"
  have order: "order = order_rest rank ?rows (lp_joins lp) [a] ?rem"
    by (simp add: order_def choose_join_order_def s p)
  have d: "distinct ([a] @ ?rem)"
    using assms(1) by (simp add: dict_ok_def dict_keys_def)
  note o = order_rest_props [OF d, of rank ?rows "lp_joins lp", folded order]
  have all: "set order = set (dict_keys (lp_tables lp))"
    using o keys least(1) by force
  have "hd order = a"
    using o by (cases order) auto
  moreover have "r \<le> rows b" if "b \<in> set order" for b
    using that least(2) row all keys by force
  ultimately have "list_all (\<lambda>b. rows (hd order) \<le> rows b) order"
    using row [OF least(1)] by (simp add: list_all_iff)
  then show ?thesis using o all by simp
qed

definition ex_joined_plan :: logical_plan where
  "ex_joined_plan = \<lparr>lp_query_type = QT_SQL, lp_sql = ''SELECT'', lp_from_alias = ''o'',
     lp_tables = map (\<lambda>(a, k). (a, \<lparr>tr_alias = a, tr_table_key = k, tr_source_id = ''db'',
       tr_connector_id = None, tr_schema = None, tr_table = k, tr_catalog = None\<rparr>))
       [(''o'', ''orders''), (''c'', ''customers''), (''r'', ''regions'')],
     lp_joins = map (\<lambda>(l, r). \<lparr>jr_left_alias = l, jr_right_alias = r, jr_join_type = ''inner'', jr_on_sql = ''1=1''\<rparr>)
       [(''o'', ''c''), (''c'', ''r'')],
     lp_where_sql = None, lp_having_sql = None, lp_group_by_sql = [], lp_order_by_sql = [],
     lp_limit = None, lp_offset = None, lp_has_cte = False\<rparr>"

theorem join_order_permutes_and_follows_joins_witness:
  "distinct (choose_join_order (\<lambda>_ _. 0) ex_joined_plan
     [(''regions'', \<lparr>ts_row_count_estimate = Some 9, ts_bytes_per_row = 64\<rparr>)])
   \<and> set (choose_join_order (\<lambda>_ _. 0) ex_joined_plan
     [(''regions'', \<lparr>ts_row_count_estimate = Some 9, ts_bytes_per_row = 64\<rparr>)]) = {''o'', ''c'', ''r''}"
proof -
  have "dict_ok (lp_tables ex_joined_plan)" "lp_tables ex_joined_plan \<noteq> []"
    by (simp_all add: dict_ok_def ex_joined_plan_def)
  from join_order_permutes_and_follows_joins [OF this, of "\<lambda>_ _. 0"
      "[(''regions'', \<lparr>ts_row_count_estimate = Some 9, ts_bytes_per_row = 64\<rparr>)]"]
  show ?thesis by (auto simp: dict_keys_def ex_joined_plan_def)
qed

section \<open>The columns that a scan fetches\<close>

definition known_columns :: "(string, string list) dict \<Rightarrow> string \<Rightarrow> string set" where
  "known_columns r a = (case dict_get r a of None \<Rightarrow> {} | Some xs \<Rightarrow> set xs)"

definition named_columns :: "column list \<Rightarrow> string \<Rightarrow> string set" where
  "named_columns cs a = {co_name c | c. c \<in> set cs \<and> co_name c \<noteq> [] \<and> co_table c = a}"

lemma named_columns_Cons:
  "named_columns (c # cs) a =
     (if co_name c \<noteq> [] \<and> co_table c = a then insert (co_name c) (named_columns cs a)
      else named_columns cs a)"
  by (auto simp: named_columns_def)

lemma require_columns_known:
  assumes "a \<in> set aliases" "a \<noteq> []"
  shows "known_columns (fst (require_columns aliases cs acc)) a
      = known_columns (fst acc) a \<union> named_columns cs a
    \<and> snd (require_columns aliases cs acc) = (snd acc \<or> named_columns cs [] \<noteq> {})"
proof (induction cs arbitrary: acc)
  case (Cons c cs)
  obtain r u where acc: "acc = (r, u)" by (cases acc)
  have set_known: "known_columns (dict_set r (co_table c)
       (add_to_set (co_name c) (case dict_get r (co_table c) of None \<Rightarrow> [] | Some xs \<Rightarrow> xs))) a
     = known_columns r a \<union> (if co_table c = a then {co_name c} else {})"
    by (auto simp: known_columns_def split: option.splits)
  show ?case
    using Cons.IH set_known assms by (simp add: acc named_columns_Cons)
qed (simp add: named_columns_def)

text \<open>the scan of an alias fetches exactly the columns that the query qualifies with it, and
  the star if the query has a star or any unqualified column, which may belong to any
  table.\<close>

theorem scans_project_required_columns:
  assumes "a \<in> set aliases" "a \<noteq> []" "extract_required_columns so e aliases = (required, unq)"
  shows "set (projection required unq a) =
    (let named = named_columns (so_columns so e) a \<union> (if so_has_star so e then {''*''} else {})
     in if named_columns (so_columns so e) [] \<noteq> {} \<and> ''*'' \<notin> named then {''*''} else named)"
proof -
  have init: "known_columns (map (\<lambda>a. (a, if so_has_star so e then [''*''] else [])) aliases) a
      = (if so_has_star so e then {''*''} else {})"
    using assms(1) by (induction aliases) (auto simp: known_columns_def dict_get_Cons)
  let ?init = "map (\<lambda>a. (a, if so_has_star so e then [''*''] else [])) aliases"
  have out: "require_columns aliases (so_columns so e) (?init, False) = (required, unq)"
    using assms(3) by (simp add: extract_required_columns_def)
  have r: "known_columns required a = (if so_has_star so e then {''*''} else {})
        \<union> named_columns (so_columns so e) a"
    and u: "unq = (named_columns (so_columns so e) [] \<noteq> {})"
    using require_columns_known [OF assms(1,2), of "so_columns so e" "(?init, False)"] init
    by (simp_all only: out fst_conv snd_conv simp_thms)
  have "set (case dict_get required a of None \<Rightarrow> [] | Some xs \<Rightarrow> xs) = known_columns required a"
    by (simp add: known_columns_def split: option.splits)
  then show ?thesis
    unfolding projection_def Let_def using r u by auto
qed

end
