(* ===== verification/Pushdown.thy ===== *)
theory Pushdown
  imports Optimizer
begin

text \<open>
  What pushing filters into scans means for the rows of a query. A row of a table gives the
  value of each column; a joined row is a list with one row per alias. \<open>holds p env\<close> says
  that a condition is true (not false, not unknown) when columns have the values of \<open>env\<close>;
  what the code relies on of SQL is that this depends on the columns of \<open>p\<close> only.
\<close>

section \<open>Conditions and rows\<close>


fun passes :: "('x \<Rightarrow> (column \<Rightarrow> 'v) \<Rightarrow> bool) \<Rightarrow> 'x pred \<Rightarrow> (column \<Rightarrow> 'v) \<Rightarrow> bool" where
  "passes holds (P_And l r) env = (passes holds l env \<and> passes holds r env)"
| "passes holds (P_Atom p) env = holds p env"


type_synonym 'v row = "string \<Rightarrow> 'v"

definition joined_env :: "'v \<Rightarrow> string list \<Rightarrow> 'v row list \<Rightarrow> column \<Rightarrow> 'v" where
  "joined_env null aliases rows c =
     (case map_of (zip aliases rows) (co_table c) of None \<Rightarrow> null | Some r \<Rightarrow> r (co_name c))"

definition scan_env :: "'v \<Rightarrow> string \<Rightarrow> 'v row \<Rightarrow> column \<Rightarrow> 'v" where
  "scan_env null a r c = (if co_table c = a then r (co_name c) else null)"

definition scan_keeps ::
  "'v \<Rightarrow> 'x opt_env \<Rightarrow> ('x \<Rightarrow> (column \<Rightarrow> 'v) \<Rightarrow> bool) \<Rightarrow> 'x pred \<Rightarrow> string list \<Rightarrow> (string \<Rightarrow> string)
   \<Rightarrow> string \<Rightarrow> 'v row \<Rightarrow> bool" where
  "scan_keeps null env holds w aliases source a r =
     list_all (\<lambda>p. holds p (scan_env null a r))
       (pushable_filters env (split_conjunctive_predicates w) aliases a (source a))"





section \<open>Outer joins\<close>

text \<open>The joined rows of a LEFT JOIN of two tables.\<close>

definition left_join :: "'v \<Rightarrow> ('v row \<Rightarrow> 'v row \<Rightarrow> bool) \<Rightarrow> 'v row list \<Rightarrow> 'v row list \<Rightarrow> 'v row list list" where
  "left_join null cond R S =
     concat (map (\<lambda>r. case filter (cond r) S of [] \<Rightarrow> [[r, \<lambda>_. null]] | m \<Rightarrow> map (\<lambda>s. [r, s]) m) R)"

text \<open>A library whose conditions are \<open>column IS NULL\<close> (an empty constant) and
  \<open>column = constant\<close>.\<close>

type_synonym ex_cond = "column \<times> string option"

definition ex_sql_ops :: "ex_cond sql_ops" where
  "ex_sql_ops = \<lparr>so_parse = (\<lambda>d s. None), so_parse_where = (\<lambda>d s. None), so_sql = (\<lambda>d e. ''('' @ co_name (fst e) @ '')''),
     so_transpile = (\<lambda>s r w. None), so_columns = (\<lambda>e. [fst e]), so_tables = (\<lambda>e. []),
     so_kinds = (\<lambda>e. case snd e of None \<Rightarrow> [''Is'', ''Column'', ''Null''] | Some _ \<Rightarrow> [''EQ'', ''Column'', ''Literal'']),
     so_has_star = (\<lambda>e. False), so_rewrite_columns = (\<lambda>f e. (f (fst e), snd e)),
     so_rewrite_tables = (\<lambda>f e. e), so_limit_text = (\<lambda>e. None), so_set_limit = (\<lambda>n e. e),
     so_select = (\<lambda>d cols (t, db, cat) a fs n. ''SELECT FROM '' @ t), so_ident = (\<lambda>d s. s)\<rparr>"

definition ex_holds :: "ex_cond \<Rightarrow> (column \<Rightarrow> string option) \<Rightarrow> bool" where
  "ex_holds p env = (env (fst p) = snd p)"

definition ex_opt_env :: "ex_cond opt_env" where
  "ex_opt_env = \<lparr>oe_ops = ex_sql_ops, oe_normalize = (\<lambda>e. e), oe_rank = (\<lambda>_ _. 0), oe_threshold = 67108864,
     oe_dataset = ex_virtual, oe_stats = [], oe_source_dialects = [], oe_input_dialect = ''tsql'',
     oe_local_dialect = ''duckdb''\<rparr>"


definition ex_row :: "string \<Rightarrow> string option row" where
  "ex_row v = (\<lambda>c. Some v)"

definition ex_where :: "string option \<Rightarrow> ex_cond pred" where
  "ex_where v = P_Atom (ex_column ''c'' ''id'', v)"


text \<open>the same filters are pushed whatever the join types are, and below a LEFT JOIN this
  changes the answer: with one order and its customer, the condition that the customer id is null selects no row,
  but once the customer has been filtered out of its scan the order comes back, padded with
  nulls.\<close>

theorem left_join_pushdown_invents_rows:
  "pushable_filters ex_opt_env (split_conjunctive_predicates (ex_where None)) [''o'', ''c''] ''c'' ''db''
     = [(ex_column ''c'' ''id'', None)]
   \<and> (let wh = (\<lambda>row. passes ex_holds (ex_where None) (joined_env None [''o'', ''c''] row));
          cond = (\<lambda>r s. r ''customer_id'' = s ''id'');
          customers = filter (scan_keeps None ex_opt_env ex_holds (ex_where None) [''o'', ''c''] (\<lambda>_. ''db'') ''c'')
            [ex_row ''1'']
      in filter wh (left_join None cond [ex_row ''1''] [ex_row ''1'']) = []
         \<and> length (filter wh (left_join None cond [ex_row ''1''] customers)) = 1)"
proof -
  have p: "pushable_filters ex_opt_env (split_conjunctive_predicates (ex_where None)) [''o'', ''c''] ''c'' ''db''
      = [(ex_column ''c'' ''id'', None)]"
    by (simp add: ex_where_def pushable_filters_def predicate_map_def predicate_aliases_def
        can_push_filter_def target_dialect_def ex_opt_env_def ex_sql_ops_def ex_column_def)
  show ?thesis
    by (simp add: p Let_def left_join_def scan_keeps_def scan_env_def joined_env_def ex_holds_def ex_row_def
        ex_where_def ex_column_def)
      (simp add: p [unfolded ex_where_def ex_column_def] ex_column_def pushable_filters_def predicate_map_def
        predicate_aliases_def can_push_filter_def target_dialect_def ex_opt_env_def ex_sql_ops_def scan_env_def)
qed

theorem scans_project_required_columns_witness:
  "set (projection [(''o'', [''id'']), (''c'', [])] False ''o'') = {''id''}"
proof -
  have x: "extract_required_columns ex_sql_ops (ex_column ''o'' ''id'', None) [''o'', ''c'']
      = ([(''o'', [''id'']), (''c'', [])], False)"
    by code_simp
  from scans_project_required_columns [OF _ _ x, of "''o''"] show ?thesis
    by (auto simp: ex_sql_ops_def ex_column_def named_columns_def)
qed

end
