(* ===== verification/Stage_Scheduler.thy ===== *)
theory Stage_Scheduler
  imports Plan_Models
begin

text \<open>
  The stage scheduler (\<open>federation/executor/scheduler.py\<close>). A dispatcher runs one stage
  once: it maps a store to the store after the attempt and the outcome of the attempt. The
  tasks of a batch run concurrently on the event loop; \<open>choices\<close> lists the task that the
  loop resumes at each step, one resume is one attempt of that task, and a theorem that
  holds for every list of choices holds for every interleaving of the attempts.
  \<open>gather\<close> raises the first failure at once and leaves the other tasks of the batch
  running, so a failed run also reports which stages were still pending. Sleeping between
  attempts and the measured run time are not modelled.
\<close>

type_synonym ('st, 'e) dispatcher =
  "'st \<Rightarrow> stage_definition \<Rightarrow> 'st \<times> ('e, stage_artifact \<times> stage_metrics) result"

datatype 'e sched_error =
    Unresolved_Dependencies "string list"
  | Stage_Failed string 'e "string list"

section \<open>One task: a stage with its attempts\<close>

definition max_attempts :: "stage_definition \<Rightarrow> nat" where
  "max_attempts s = nat (max 1 (sd_retry_limit s + 1))"

record task =
  tk_stage :: stage_definition
  tk_attempt :: nat
  tk_result :: "(stage_artifact \<times> stage_metrics) option"

definition new_task :: "stage_definition \<Rightarrow> task" where
  "new_task s = \<lparr>tk_stage = s, tk_attempt = 1, tk_result = None\<rparr>"

definition task_left :: "task \<Rightarrow> nat" where
  "task_left t = (case tk_result t of Some _ \<Rightarrow> 0
     | None \<Rightarrow> Suc (max_attempts (tk_stage t) - tk_attempt t))"

text \<open>
  One attempt of \<open>_execute_with_retry\<close>: success records the attempt number in the
  metrics; a failure is retried while attempts are left, and the last one is raised.
\<close>

definition attempt_task ::
  "('st, 'e) dispatcher \<Rightarrow> 'st \<Rightarrow> task \<Rightarrow> 'st \<times> ('e, task) result" where
  "attempt_task disp st t =
     (case disp st (tk_stage t) of
        (st', Inr (art, met)) \<Rightarrow>
          (st', Inr (t\<lparr>tk_result := Some (art, met\<lparr>sm_attempts := int (tk_attempt t)\<rparr>)\<rparr>))
      | (st', Inl e) \<Rightarrow>
          (if tk_attempt t \<ge> max_attempts (tk_stage t) then (st', Inl e)
           else (st', Inr (t\<lparr>tk_attempt := Suc (tk_attempt t)\<rparr>))))"

section \<open>One batch: concurrent tasks under \<open>asyncio.gather\<close>\<close>

definition unfinished :: "task list \<Rightarrow> nat list" where
  "unfinished ts = filter (\<lambda>i. tk_result (ts ! i) = None) [0..<length ts]"

text \<open>The loop resumes the chosen task if it is pending, the first pending one otherwise.\<close>

definition pick :: "nat list \<Rightarrow> task list \<Rightarrow> nat" where
  "pick choices ts =
     (case choices of
        c # _ \<Rightarrow> if c \<in> set (unfinished ts) then c else hd (unfinished ts)
      | [] \<Rightarrow> hd (unfinished ts))"

lemma unfinished_iff: "i \<in> set (unfinished ts) \<longleftrightarrow> i < length ts \<and> tk_result (ts ! i) = None"
  by (auto simp: unfinished_def)

lemma pick_unfinished: "unfinished ts \<noteq> [] \<Longrightarrow> pick choices ts \<in> set (unfinished ts)"
  by (auto simp: pick_def split: list.splits)

lemma attempt_task_left:
  assumes "attempt_task disp st t = (st', Inr t')" "tk_result t = None"
  shows "task_left t' < task_left t"
  using assms
  by (auto simp: attempt_task_def task_left_def split: prod.splits sum.splits if_splits)

lemma sum_list_update_less:
  "\<lbrakk>i < length xs; f y < f (xs ! i)\<rbrakk>
   \<Longrightarrow> sum_list (map f (xs[i := y])) < sum_list (map f xs :: nat list)"
  by (induction xs arbitrary: i) (auto simp: nth_Cons split: nat.splits)

lemma batch_step_less:
  assumes "unfinished ts \<noteq> []" "attempt_task disp st (ts ! pick ch ts) = (st', Inr t')"
  shows "sum_list (map task_left (ts[pick ch ts := t'])) < sum_list (map task_left ts)"
proof -
  have "pick ch ts < length ts" "tk_result (ts ! pick ch ts) = None"
    using pick_unfinished [OF assms(1)] by (simp_all add: unfinished_iff)
  then show ?thesis
    using attempt_task_left [OF assms(2)] by (intro sum_list_update_less)
qed

function run_batch ::
  "('st, 'e) dispatcher \<Rightarrow> nat list \<Rightarrow> 'st \<Rightarrow> task list
   \<Rightarrow> nat list \<times> 'st \<times> ('e sched_error, task list) result" where
  "run_batch disp choices st ts =
     (if unfinished ts = [] then (choices, st, Inr ts)
      else let i = pick choices ts in
        (case attempt_task disp st (ts ! i) of
           (st', Inr t') \<Rightarrow> run_batch disp (tl choices) st' (ts[i := t'])
         | (st', Inl e) \<Rightarrow>
             (tl choices, st',
              Inl (Stage_Failed (sd_stage_id (tk_stage (ts ! i))) e
                (map (\<lambda>j. sd_stage_id (tk_stage (ts ! j)))
                  (filter (\<lambda>j. j \<noteq> i) (unfinished ts)))))))"
  by pat_completeness auto
termination
  by (relation "measure (\<lambda>(disp, choices, st, ts). sum_list (map task_left ts))")
    (auto intro!: batch_step_less dest!: sym [of "(_, _)"])

declare run_batch.simps [simp del]

lemma run_batch_induct [case_names batch]:
  assumes "\<And>ch st ts. (\<And>st1 t1. \<lbrakk>unfinished ts \<noteq> [];
      attempt_task disp st (ts ! pick ch ts) = (st1, Inr t1)\<rbrakk>
      \<Longrightarrow> P (tl ch) st1 (ts[pick ch ts := t1])) \<Longrightarrow> P ch st ts"
  shows "P ch st ts"
proof (induction "sum_list (map task_left ts)" arbitrary: ch st ts rule: less_induct)
  case less
  show ?case
    by (rule assms) (auto intro: less.hyps batch_step_less)
qed

text \<open>How a batch goes on: it is over, an attempt fails for good, or it goes on.\<close>

lemma run_batch_cases [consumes 1, case_names over failed more]:
  assumes "run_batch disp ch st ts = (ch', st', r)"
  obtains "unfinished ts = []" "ch' = ch" "st' = st" "r = Inr ts"
  | e where "unfinished ts \<noteq> []" "attempt_task disp st (ts ! pick ch ts) = (st', Inl e)"
      "r = Inl (Stage_Failed (sd_stage_id (tk_stage (ts ! pick ch ts))) e
         (map (\<lambda>j. sd_stage_id (tk_stage (ts ! j)))
           (filter (\<lambda>j. j \<noteq> pick ch ts) (unfinished ts))))"
  | st1 t1 where "unfinished ts \<noteq> []" "attempt_task disp st (ts ! pick ch ts) = (st1, Inr t1)"
      "run_batch disp (tl ch) st1 (ts[pick ch ts := t1]) = (ch', st', r)"
  using assms
  by (auto simp: run_batch.simps [of disp ch st ts] Let_def split: if_splits prod.splits sum.splits)

lemma pick_pending:
  assumes "unfinished ts \<noteq> []"
  shows "pick ch ts < length ts" "tk_result (ts ! pick ch ts) = None"
  using pick_unfinished [OF assms] by (simp_all add: unfinished_iff)

section \<open>The scheduling loop\<close>

text \<open>
  \<open>remaining\<close> is the values of the dictionary of that name, whose key for a stage is its
  id; popping a key drops the stages of that id.
\<close>

record 'st sched =
  sc_choices :: "nat list"
  sc_store :: 'st
  sc_remaining :: "stage_definition list"
  sc_completed :: "string list"
  sc_artifacts :: "(string, stage_artifact) dict"
  sc_metrics :: "(string, stage_metrics) dict"

function chunk :: "'a list \<Rightarrow> nat \<Rightarrow> 'a list list" where
  "chunk items n =
     (if items = [] \<or> n = 0 then [] else take n items # chunk (drop n items) n)"
  by pat_completeness auto
termination by (relation "measure (\<lambda>(items, n). length items)") auto

declare chunk.simps [simp del]

definition record_task :: "'st sched \<Rightarrow> task \<Rightarrow> 'st sched" where
  "record_task s t =
     (case tk_result t of None \<Rightarrow> s
      | Some (art, met) \<Rightarrow>
          s\<lparr>sc_artifacts := dict_set (sc_artifacts s) (sd_stage_id (tk_stage t)) art,
            sc_metrics := dict_set (sc_metrics s) (sd_stage_id (tk_stage t)) met,
            sc_completed := sd_stage_id (tk_stage t) # sc_completed s,
            sc_remaining := filter (\<lambda>r. sd_stage_id r \<noteq> sd_stage_id (tk_stage t)) (sc_remaining s)\<rparr>)"

fun run_batches ::
  "('st, 'e) dispatcher \<Rightarrow> 'st sched \<Rightarrow> stage_definition list list
   \<Rightarrow> 'st sched \<times> ('e sched_error, unit) result" where
  "run_batches disp s [] = (s, Inr ())"
| "run_batches disp s (b # bs) =
     (case run_batch disp (sc_choices s) (sc_store s) (map new_task b) of
        (ch, st, Inl e) \<Rightarrow> (s\<lparr>sc_choices := ch, sc_store := st\<rparr>, Inl e)
      | (ch, st, Inr ts) \<Rightarrow>
          run_batches disp (foldl record_task (s\<lparr>sc_choices := ch, sc_store := st\<rparr>) ts) bs)"

definition ready :: "'st sched \<Rightarrow> stage_definition list" where
  "ready s = filter (\<lambda>d. \<forall>x \<in> set (sd_dependencies d). x \<in> set (sc_completed s)) (sc_remaining s)"

subsection \<open>Facts about batches\<close>

lemma attempt_task_frame:
  "attempt_task disp st t = (st', Inr t') \<Longrightarrow> tk_stage t' = tk_stage t"
  by (auto simp: attempt_task_def split: prod.splits sum.splits if_splits)

lemma map_update_same: "f y = f (xs ! i) \<Longrightarrow> map f (xs[i := y]) = map f xs"
  by (metis list_update_id map_update)

lemma run_batch_stages:
  "run_batch disp ch st ts = (ch', st', Inr ts') \<Longrightarrow>
     map tk_stage ts' = map tk_stage ts \<and> (\<forall>t \<in> set ts'. tk_result t \<noteq> None)"
proof (induction ch st ts rule: run_batch_induct [where disp = disp])
  case (batch ch st ts)
  from batch.prems show ?case
  proof (cases rule: run_batch_cases)
    case over
    then have "\<forall>i < length ts. tk_result (ts ! i) \<noteq> None"
      by (metis emptyE empty_set unfinished_iff)
    with over show ?thesis by (auto simp: in_set_conv_nth)
  next
    case (more st1 t1)
    then show ?thesis
      using batch.IH [OF more(1,2)] by (simp add: map_update_same attempt_task_frame)
  qed simp
qed

lemma chunk_Nil [simp]: "chunk [] n = []"
  by (simp add: chunk.simps)

lemma concat_chunk [simp]: "0 < n \<Longrightarrow> concat (chunk xs n) = xs"
proof (induction xs n rule: chunk.induct)
  case (1 xs n)
  then show ?case by (cases "xs = []") (simp_all add: chunk.simps [of xs n])
qed

lemma in_chunk:
  assumes "b \<in> set (chunk xs (nat (max 1 par)))" "d \<in> set b"
  shows "d \<in> set xs"
proof -
  have "concat (chunk xs (nat (max 1 par))) = xs" by simp
  then have "set xs = (\<Union>b \<in> set (chunk xs (nat (max 1 par))). set b)"
    using set_concat [of "chunk xs (nat (max 1 par))"] by simp
  with assms show ?thesis by blast
qed

lemma chunk_bound: "b \<in> set (chunk xs n) \<Longrightarrow> length b \<le> n \<and> b \<noteq> []"
proof (induction xs n rule: chunk.induct)
  case (1 xs n)
  then show ?case by (auto simp: chunk.simps [of xs n] split: if_splits)
qed

lemma record_task_Some:
  assumes "tk_result t \<noteq> None"
  shows "sc_remaining (record_task s t)
           = filter (\<lambda>r. sd_stage_id r \<noteq> sd_stage_id (tk_stage t)) (sc_remaining s)"
    and "sc_completed (record_task s t) = sd_stage_id (tk_stage t) # sc_completed s"
    and "sc_store (record_task s t) = sc_store s"
    and "sc_choices (record_task s t) = sc_choices s"
  using assms by (auto simp: record_task_def)

lemma record_tasks:
  assumes "\<forall>t \<in> set ts. tk_result t \<noteq> None"
  shows "sc_remaining (foldl record_task s ts)
           = filter (\<lambda>r. sd_stage_id r \<notin> sd_stage_id ` tk_stage ` set ts) (sc_remaining s)"
    and "set (sc_completed (foldl record_task s ts))
           = sd_stage_id ` tk_stage ` set ts \<union> set (sc_completed s)"
    and "sc_store (foldl record_task s ts) = sc_store s"
    and "sc_choices (foldl record_task s ts) = sc_choices s"
  using assms by (induction ts arbitrary: s) (simp_all add: record_task_Some)

lemma run_batch_set_stages:
  assumes "run_batch disp ch st (map new_task b) = (ch', st', Inr ts)"
  shows "tk_stage ` set ts = set b" "\<forall>t \<in> set ts. tk_result t \<noteq> None"
proof -
  have "map tk_stage ts = b" and "\<forall>t \<in> set ts. tk_result t \<noteq> None"
    using run_batch_stages [OF assms] by (simp_all add: o_def new_task_def)
  then show "tk_stage ` set ts = set b" "\<forall>t \<in> set ts. tk_result t \<noteq> None"
    by (metis set_map)+
qed

lemma run_batches_remaining:
  "run_batches disp s bs = (s', Inr ()) \<Longrightarrow>
     sc_remaining s' = filter (\<lambda>r. sd_stage_id r \<notin> sd_stage_id ` set (concat bs)) (sc_remaining s)
     \<and> set (sc_completed s') = sd_stage_id ` set (concat bs) \<union> set (sc_completed s)"
proof (induction disp s bs rule: run_batches.induct)
  case (2 disp s b bs)
  obtain ch st r where rb: "run_batch disp (sc_choices s) (sc_store s) (map new_task b) = (ch, st, r)"
    by (cases "run_batch disp (sc_choices s) (sc_store s) (map new_task b)") auto
  show ?case
  proof (cases r)
    case (Inl e)
    with 2 rb show ?thesis by simp
  next
    case (Inr ts)
    note st = run_batch_set_stages [OF rb [unfolded Inr]]
    show ?thesis
      using "2.IH" [OF rb [symmetric] refl Inr] "2.prems" rb Inr
      by (auto simp: record_tasks [OF st(2)] st(1) intro!: filter_cong)
  qed
qed simp

lemma round_completes:
  assumes "run_batches disp s (chunk (ready s) (nat (max 1 par))) = (s', Inr ())"
  shows "sc_remaining s' = filter (\<lambda>r. sd_stage_id r \<notin> sd_stage_id ` set (ready s)) (sc_remaining s)"
    and "set (sc_completed s') = sd_stage_id ` set (ready s) \<union> set (sc_completed s)"
  using run_batches_remaining [OF assms] by simp_all

lemma round_less:
  assumes "run_batches disp s (chunk (ready s) (nat (max 1 par))) = (s', Inr u)" "ready s \<noteq> []"
  shows "length (sc_remaining s') < length (sc_remaining s)"
proof -
  obtain d where "d \<in> set (ready s)"
    using assms(2) by (meson list.set_sel(1))
  then have "d \<in> set (sc_remaining s)" "sd_stage_id d \<in> sd_stage_id ` set (ready s)"
    by (auto simp: ready_def)
  moreover have "sc_remaining s'
      = filter (\<lambda>r. sd_stage_id r \<notin> sd_stage_id ` set (ready s)) (sc_remaining s)"
    using round_completes(1) assms(1) by (metis unit.exhaust)
  ultimately show ?thesis by (auto intro!: length_filter_less)
qed

section \<open>The loop and the run\<close>

function sched_loop ::
  "('st, 'e) dispatcher \<Rightarrow> int \<Rightarrow> 'st sched \<Rightarrow> 'st sched \<times> ('e sched_error, unit) result" where
  "sched_loop disp par s =
     (if sc_remaining s = [] then (s, Inr ())
      else if ready s = [] then
        (s, Inl (Unresolved_Dependencies (sort (stage_ids (sc_remaining s)))))
      else case run_batches disp s (chunk (ready s) (nat (max 1 par))) of
             (s', Inl e) \<Rightarrow> (s', Inl e)
           | (s', Inr u) \<Rightarrow> sched_loop disp par s')"
  by pat_completeness auto
termination
  by (relation "measure (\<lambda>(disp, par, s). length (sc_remaining s))")
    (auto intro: round_less dest!: sym [of "(_, _)"])

declare sched_loop.simps [simp del]

definition stages_by_id :: "stage_definition list \<Rightarrow> stage_definition list" where
  "stages_by_id ss = dict_values (foldl (\<lambda>d s. dict_set d (sd_stage_id s) s) [] ss)"

definition init_sched :: "nat list \<Rightarrow> 'st \<Rightarrow> physical_plan \<Rightarrow> 'st sched" where
  "init_sched choices st plan =
     \<lparr>sc_choices = choices, sc_store = st, sc_remaining = stages_by_id (pp_stages plan),
      sc_completed = [], sc_artifacts = [], sc_metrics = []\<rparr>"

definition summary_of :: "physical_plan \<Rightarrow> nat \<Rightarrow> (string, stage_metrics) dict \<Rightarrow> execution_summary" where
  "summary_of plan elapsed metrics =
     \<lparr>es_plan_id = pp_plan_id plan, es_total_runtime_ms = elapsed,
      es_stage_metrics = map (\<lambda>s. the (dict_get metrics (sd_stage_id s)))
        (filter (\<lambda>s. dict_has metrics (sd_stage_id s)) (pp_stages plan))\<rparr>"

text \<open>\<open>StageScheduler.run\<close>; \<open>elapsed\<close> is the measured run time in milliseconds.\<close>

definition sched_run ::
  "('st, 'e) dispatcher \<Rightarrow> int \<Rightarrow> nat list \<Rightarrow> nat \<Rightarrow> 'st \<Rightarrow> physical_plan
   \<Rightarrow> 'st \<times> ('e sched_error, execution_summary \<times> (string, stage_artifact) dict) result" where
  "sched_run disp par choices elapsed st plan =
     (case sched_loop disp par (init_sched choices st plan) of
        (s, Inl e) \<Rightarrow> (sc_store s, Inl e)
      | (s, Inr u) \<Rightarrow>
          (sc_store s, Inr (summary_of plan elapsed (sc_metrics s), sc_artifacts s)))"

section \<open>What the loop does for any dispatcher\<close>

lemma sched_loop_cases [consumes 1, case_names finished stuck failed round]:
  assumes "sched_loop disp par s = (s', r)"
  obtains "sc_remaining s = []" "s' = s" "r = Inr ()"
  | "sc_remaining s \<noteq> []" "ready s = []" "s' = s"
      "r = Inl (Unresolved_Dependencies (sort (stage_ids (sc_remaining s))))"
  | e where "ready s \<noteq> []" "r = Inl e"
      "run_batches disp s (chunk (ready s) (nat (max 1 par))) = (s', Inl e)"
  | s1 where "ready s \<noteq> []" "sched_loop disp par s1 = (s', r)"
      "run_batches disp s (chunk (ready s) (nat (max 1 par))) = (s1, Inr ())"
  using assms
  by (auto simp: sched_loop.simps [of disp par s] split: if_splits prod.splits sum.splits)

lemma sched_loop_induct [case_names loop]:
  assumes "\<And>s. (\<And>s1. \<lbrakk>ready s \<noteq> [];
      run_batches disp s (chunk (ready s) (nat (max 1 par))) = (s1, Inr ())\<rbrakk> \<Longrightarrow> P s1) \<Longrightarrow> P s"
  shows "P s"
proof (induction "length (sc_remaining s)" arbitrary: s rule: less_induct)
  case less
  show ?case by (rule assms) (auto intro: less.hyps round_less)
qed

definition orderable :: "string set \<Rightarrow> stage_definition list \<Rightarrow> bool" where
  "orderable done ss = (\<exists>ts. set ts = set ss \<and> topo_from done ts)"

lemma orderable_ready:
  assumes "orderable (set (sc_completed s)) (sc_remaining s)" "sc_remaining s \<noteq> []"
  shows "ready s \<noteq> []"
proof -
  obtain ts where ts: "set ts = set (sc_remaining s)" "topo_from (set (sc_completed s)) ts"
    using assms(1) by (auto simp: orderable_def)
  with assms(2) obtain t us where "ts = t # us" by (cases ts) auto
  with ts have "t \<in> set (ready s)" by (auto simp: ready_def)
  then show ?thesis by auto
qed

lemma orderable_round:
  assumes "run_batches disp s (chunk (ready s) (nat (max 1 par))) = (s1, Inr ())"
    and "orderable (set (sc_completed s)) (sc_remaining s)"
  shows "orderable (set (sc_completed s1)) (sc_remaining s1)"
proof -
  obtain ts where ts: "set ts = set (sc_remaining s)" "topo_from (set (sc_completed s)) ts"
    using assms(2) by (auto simp: orderable_def)
  let ?P = "\<lambda>r. sd_stage_id r \<notin> sd_stage_id ` set (ready s)"
  have "topo_from (set (sc_completed s1)) (filter ?P ts)"
    using topo_from_filter [OF ts(2), of ?P] round_completes(2) [OF assms(1)]
    by (auto intro: topo_from_mono)
  moreover have "set (filter ?P ts) = set (sc_remaining s1)"
    using ts(1) round_completes(1) [OF assms(1)] by auto
  ultimately show ?thesis unfolding orderable_def by blast
qed

lemma topo_from_ready: "topo_from (set (sc_completed s)) (ready s)"
proof -
  have "\<forall>d \<in> set ds. set (sd_dependencies d) \<subseteq> A \<Longrightarrow> topo_from A ds" for A ds
  proof (induction ds arbitrary: A)
    case (Cons d ds)
    from Cons.IH [of A] Cons.prems have "topo_from A ds" by simp
    with Cons.prems show ?case by (auto elim: topo_from_mono)
  qed simp
  then show ?thesis by (simp add: ready_def subset_iff)
qed

lemma same_stage:
  "\<lbrakk>distinct (stage_ids ss); a \<in> set ss; b \<in> set ss; sd_stage_id a = sd_stage_id b\<rbrakk> \<Longrightarrow> a = b"
  by (auto simp: stage_ids_def distinct_map dest: inj_onD)

lemma round_distinct:
  assumes "run_batches disp s (chunk (ready s) (nat (max 1 par))) = (s1, Inr ())"
    and "distinct (stage_ids (sc_remaining s))"
  shows "distinct (stage_ids (sc_remaining s1))"
    and "set (sc_remaining s) = set (ready s) \<union> set (sc_remaining s1)"
proof -
  show "distinct (stage_ids (sc_remaining s1))"
    using assms(2) unfolding round_completes(1) [OF assms(1)] stage_ids_def
    by (rule distinct_map_filter)
  have sub: "set (ready s) \<subseteq> set (sc_remaining s)" by (auto simp: ready_def)
  then have "d \<in> set (ready s)"
    if "d \<in> set (sc_remaining s)" "sd_stage_id d \<in> sd_stage_id ` set (ready s)" for d
    using that same_stage [OF assms(2) that(1)] by blast
  then show "set (sc_remaining s) = set (ready s) \<union> set (sc_remaining s1)"
    unfolding round_completes(1) [OF assms(1)] using sub by auto
qed

lemma finished_orderable:
  "\<lbrakk>sched_loop disp par s = (s', Inr ()); distinct (stage_ids (sc_remaining s))\<rbrakk>
   \<Longrightarrow> orderable (set (sc_completed s)) (sc_remaining s)"
proof (induction s rule: sched_loop_induct [where disp = disp and par = par])
  case (loop s)
  from loop.prems(1) show ?case
  proof (cases rule: sched_loop_cases)
    case finished
    then show ?thesis by (auto simp: orderable_def intro!: exI [of _ "[]"])
  next
    case (round s1)
    note rd = round_distinct [OF round(3) loop.prems(2)]
    obtain ts where ts: "set ts = set (sc_remaining s1)" "topo_from (set (sc_completed s1)) ts"
      using loop.IH [OF round(1,3,2) rd(1)] by (auto simp: orderable_def)
    have "topo_from (set (sc_completed s)) (ready s @ ts)"
      using topo_from_ready ts(2) round_completes(2) [OF round(3)] by (simp add: topo_from_append)
    moreover have "set (ready s @ ts) = set (sc_remaining s)"
      using ts(1) rd(2) by simp
    ultimately show ?thesis unfolding orderable_def by blast
  qed auto
qed

lemma finished_completes:
  "sched_loop disp par s = (s', Inr ()) \<Longrightarrow>
     set (sc_completed s') = set (sc_completed s) \<union> sd_stage_id ` set (sc_remaining s)"
proof (induction s rule: sched_loop_induct [where disp = disp and par = par])
  case (loop s)
  from loop.prems show ?case
  proof (cases rule: sched_loop_cases)
    case (round s1)
    with loop.IH [OF round(1,3,2)] round_completes [OF round(3)] show ?thesis
      by (auto simp: ready_def)
  qed auto
qed

lemma run_batch_error:
  "run_batch disp ch st ts = (ch', st', Inl e) \<Longrightarrow> \<exists>i x ids. e = Stage_Failed i x ids"
proof (induction ch st ts rule: run_batch_induct [where disp = disp])
  case (batch ch st ts)
  from batch.prems show ?case
    by (cases rule: run_batch_cases) (auto dest: batch.IH)
qed

lemma run_batches_error:
  "run_batches disp s bs = (s', Inl e) \<Longrightarrow> \<exists>i x ids. e = Stage_Failed i x ids"
  by (induction disp s bs rule: run_batches.induct)
    (auto split: prod.splits sum.splits dest: run_batch_error)

lemma stuck_explained:
  "\<lbrakk>sched_loop disp par s = (s', Inl (Unresolved_Dependencies ids));
     distinct (stage_ids (sc_remaining s))\<rbrakk>
   \<Longrightarrow> sc_remaining s' \<noteq> [] \<and> ready s' = [] \<and> ids = sort (stage_ids (sc_remaining s'))
     \<and> set (sc_remaining s') \<subseteq> set (sc_remaining s)
     \<and> set (sc_completed s')
         = set (sc_completed s) \<union> sd_stage_id ` (set (sc_remaining s) - set (sc_remaining s'))"
proof (induction s rule: sched_loop_induct [where disp = disp and par = par])
  case (loop s)
  from loop.prems(1) show ?case
  proof (cases rule: sched_loop_cases)
    case (failed e)
    then show ?thesis using run_batches_error by fastforce
  next
    case (round s1)
    note rd = round_distinct [OF round(3) loop.prems(2)]
    have IH: "set (sc_remaining s') \<subseteq> set (sc_remaining s1)"
      "set (sc_completed s')
         = set (sc_completed s1) \<union> sd_stage_id ` (set (sc_remaining s1) - set (sc_remaining s'))"
      "sc_remaining s' \<noteq> [] \<and> ready s' = [] \<and> ids = sort (stage_ids (sc_remaining s'))"
      using loop.IH [OF round(1,3,2) rd(1)] by simp_all
    have "set (ready s) \<inter> set (sc_remaining s1) = {}"
      unfolding round_completes(1) [OF round(3)] by auto
    then have "set (sc_remaining s) - set (sc_remaining s')
        = set (ready s) \<union> (set (sc_remaining s1) - set (sc_remaining s'))"
      using rd(2) IH(1) by blast
    then show ?thesis
      using IH rd(2) round_completes(2) [OF round(3)] by auto
  qed auto
qed

lemma stages_by_id_keys:
  "dict_keys (foldl (\<lambda>d s. dict_set d (sd_stage_id s) s) [] ss)
     = stage_ids (stages_by_id ss)"
proof -
  let ?d = "\<lambda>ss. foldl (\<lambda>d s. dict_set d (sd_stage_id s) s) ([] :: (string, stage_definition) dict) ss"
  have "\<forall>(k, v) \<in> set (?d ss). k = sd_stage_id v"
  proof (induction ss rule: rev_induct)
    case (snoc s ss)
    have "(k, v) \<in> set (AList.update a b d) \<Longrightarrow> (k, v) = (a, b) \<or> (k, v) \<in> set d"
      for k v a b and d :: "(string, stage_definition) dict"
      by (induction d) (auto split: if_splits)
    with snoc show ?case by (fastforce simp: dict_set_def)
  qed simp
  then show ?thesis
    by (auto simp: stages_by_id_def dict_keys_def dict_values_def stage_ids_def)
qed

lemma distinct_stages_by_id [simp]: "distinct (stage_ids (stages_by_id ss))"
proof -
  have "dict_ok (foldl (\<lambda>d s. dict_set d (sd_stage_id s) s) [] ss)"
    by (induction ss rule: rev_induct) auto
  then show ?thesis
    using stages_by_id_keys [of ss] by (simp add: dict_ok_def dict_keys_def)
qed

lemma dict_set_fresh: "\<not> dict_has d k \<Longrightarrow> dict_set d k v = d @ [(k, v)]"
  by (induction d) (auto simp: dict_set_def dict_has_def)

lemma stages_by_id_distinct:
  assumes "distinct (stage_ids ss)"
  shows "stages_by_id ss = ss"
proof -
  have "foldl (\<lambda>d s. dict_set d (sd_stage_id s) s) [] ss = map (\<lambda>s. (sd_stage_id s, s)) ss"
    using assms
  proof (induction ss rule: rev_induct)
    case (snoc s ss)
    then have "\<not> dict_has (map (\<lambda>s. (sd_stage_id s, s)) ss) (sd_stage_id s)"
      by (auto simp: dict_has_def stage_ids_def)
    with snoc show ?case by (simp add: dict_set_fresh stage_ids_def)
  qed simp
  then show ?thesis by (simp add: stages_by_id_def dict_values_def o_def)
qed

section \<open>Attempts and metrics\<close>

definition attempts_within :: "stage_definition \<Rightarrow> stage_metrics \<Rightarrow> bool" where
  "attempts_within d m = (1 \<le> sm_attempts m \<and> sm_attempts m \<le> max 1 (sd_retry_limit d + 1))"

definition metered :: "task \<Rightarrow> bool" where
  "metered t = (1 \<le> tk_attempt t \<and> tk_attempt t \<le> max_attempts (tk_stage t)
     \<and> (case tk_result t of None \<Rightarrow> True | Some (a, m) \<Rightarrow> attempts_within (tk_stage t) m))"

lemma metered_new [simp]: "metered (new_task d)"
  by (simp add: metered_def new_task_def max_attempts_def)

lemma metered_attempt: "\<lbrakk>attempt_task disp st t = (st', Inr t'); metered t\<rbrakk> \<Longrightarrow> metered t'"
  by (auto simp: attempt_task_def metered_def attempts_within_def max_attempts_def
      split: prod.splits sum.splits if_splits option.splits)

lemma metered_batch:
  "\<lbrakk>run_batch disp ch st ts = (ch', st', Inr ts'); \<forall>t \<in> set ts. metered t\<rbrakk>
   \<Longrightarrow> \<forall>t \<in> set ts'. metered t"
proof (induction ch st ts rule: run_batch_induct [where disp = disp])
  case (batch ch st ts)
  from batch.prems(1) show ?case
  proof (cases rule: run_batch_cases)
    case (more st1 t1)
    have "metered t1"
      using metered_attempt [OF more(2)] batch.prems(2) pick_pending(1) [OF more(1)] by simp
    then have "\<forall>t \<in> set (ts[pick ch ts := t1]). metered t"
      using batch.prems(2) set_update_subset_insert [of ts "pick ch ts" t1] by auto
    then show ?thesis by (rule batch.IH [OF more(1,2,3)])
  qed (use batch.prems in auto)
qed

text \<open>Completed stages are stages of \<open>S\<close>, with an artifact and metrics within bounds.\<close>

definition accounted :: "stage_definition set \<Rightarrow> 'st sched \<Rightarrow> bool" where
  "accounted S s = (set (sc_remaining s) \<subseteq> S \<and>
     (\<forall>i \<in> set (sc_completed s). \<exists>d m a. d \<in> S \<and> sd_stage_id d = i
        \<and> dict_get (sc_metrics s) i = Some m \<and> dict_get (sc_artifacts s) i = Some a
        \<and> attempts_within d m))"

lemma accounted_record:
  "\<lbrakk>accounted S s; metered t; tk_result t \<noteq> None; tk_stage t \<in> S\<rbrakk> \<Longrightarrow> accounted S (record_task s t)"
  by (auto simp: accounted_def record_task_def metered_def)

lemma accounted_records:
  "\<lbrakk>accounted S s; \<forall>t \<in> set ts. metered t \<and> tk_result t \<noteq> None \<and> tk_stage t \<in> S\<rbrakk>
   \<Longrightarrow> accounted S (foldl record_task s ts)"
  by (induction ts arbitrary: s) (auto intro: accounted_record)

lemma accounted_batches:
  "\<lbrakk>run_batches disp s bs = (s', Inr ()); accounted S s; \<forall>b \<in> set bs. set b \<subseteq> S\<rbrakk> \<Longrightarrow> accounted S s'"
proof (induction bs arbitrary: s)
  case (Cons b bs)
  obtain ch st q where rb: "run_batch disp (sc_choices s) (sc_store s) (map new_task b) = (ch, st, q)"
    by (cases "run_batch disp (sc_choices s) (sc_store s) (map new_task b)") auto
  with Cons.prems(1) obtain ts where Inr: "q = Inr ts" by (cases q) auto
  note st = run_batch_set_stages [OF rb [unfolded Inr]]
  have "\<forall>t \<in> set ts. metered t"
    using metered_batch [OF rb [unfolded Inr]] by auto
  then have "accounted S (foldl record_task (s\<lparr>sc_choices := ch, sc_store := st\<rparr>) ts)"
    using Cons.prems(2,3) st by (intro accounted_records) (auto simp: accounted_def)
  then show ?case
    using Cons.prems(1,3) rb Inr by (intro Cons.IH) auto
qed simp

lemma accounted_loop:
  "\<lbrakk>sched_loop disp par s = (s', Inr ()); accounted S s\<rbrakk> \<Longrightarrow> accounted S s'"
proof (induction s rule: sched_loop_induct [where disp = disp and par = par])
  case (loop s)
  from loop.prems(1) show ?case
  proof (cases rule: sched_loop_cases)
    case (round s1)
    have "set (ready s) \<subseteq> S"
      using loop.prems(2) by (auto simp: ready_def accounted_def)
    then have "\<forall>b \<in> set (chunk (ready s) (nat (max 1 par))). set b \<subseteq> S"
      by (blast intro: in_chunk)
    then show ?thesis
      using loop.IH [OF round(1,3,2)] accounted_batches [OF round(3) loop.prems(2)] by blast
  qed (use loop.prems in auto)
qed

lemma run_Inr:
  assumes "sched_run disp par ch el st plan = (st', Inr (summ, arts))"
  obtains s' where "sched_loop disp par (init_sched ch st plan) = (s', Inr ())"
    "summ = summary_of plan el (sc_metrics s')" "arts = sc_artifacts s'" "st' = sc_store s'"
  using assms by (auto simp: sched_run_def split: prod.splits sum.splits)

lemma run_accounts:
  assumes "sched_run disp par ch el st plan = (st', Inr (summ, arts))"
    and "distinct (stage_ids (pp_stages plan))"
  shows "\<exists>ms. summ = summary_of plan el ms \<and> (\<forall>d \<in> set (pp_stages plan). \<exists>m a.
      dict_get ms (sd_stage_id d) = Some m \<and> dict_get arts (sd_stage_id d) = Some a
      \<and> attempts_within d m)"
proof -
  obtain s' where s': "sched_loop disp par (init_sched ch st plan) = (s', Inr ())"
    "summ = summary_of plan el (sc_metrics s')" "arts = sc_artifacts s'"
    using run_Inr [OF assms(1)] by metis
  have rem: "sc_remaining (init_sched ch st plan) = pp_stages plan"
    by (simp add: init_sched_def stages_by_id_distinct assms(2))
  have "accounted (set (pp_stages plan)) s'"
    using rem by (intro accounted_loop [OF s'(1)]) (simp add: accounted_def, simp add: init_sched_def)
  moreover have "set (sc_completed s') = sd_stage_id ` set (pp_stages plan)"
    using finished_completes [OF s'(1)] rem by (simp add: init_sched_def)
  ultimately have "\<forall>d \<in> set (pp_stages plan). \<exists>d' m a. d' \<in> set (pp_stages plan)
      \<and> sd_stage_id d' = sd_stage_id d \<and> dict_get (sc_metrics s') (sd_stage_id d) = Some m
      \<and> dict_get arts (sd_stage_id d) = Some a \<and> attempts_within d' m"
    using s'(3) by (simp add: accounted_def)
  then show ?thesis
    using s'(2) same_stage [OF assms(2)] by (intro exI [of _ "sc_metrics s'"]) metis
qed

text \<open>C8: A successful run over stages with distinct ids returns an artifact for every stage
  and one metrics entry per stage, in plan order, whose attempt count is at least 1 and at
  most the stage's retry limit plus one (never below one attempt).\<close>

theorem run_accounts_for_every_stage:
  assumes "sched_run disp par ch el st plan = (st', Inr (summ, arts))"
    and "distinct (stage_ids (pp_stages plan))"
  shows "list_all2 attempts_within (pp_stages plan) (es_stage_metrics summ)
    \<and> (\<forall>d \<in> set (pp_stages plan). dict_has arts (sd_stage_id d))"
proof -
  obtain ms where ms: "summ = summary_of plan el ms" "\<forall>d \<in> set (pp_stages plan). \<exists>m a.
      dict_get ms (sd_stage_id d) = Some m \<and> dict_get arts (sd_stage_id d) = Some a
      \<and> attempts_within d m"
    using run_accounts [OF assms] by blast
  then have "filter (\<lambda>s. dict_has ms (sd_stage_id s)) (pp_stages plan) = pp_stages plan"
    by (auto simp: dict_has_iff intro!: filter_True)
  with ms have "es_stage_metrics summ = map (\<lambda>s. the (dict_get ms (sd_stage_id s))) (pp_stages plan)"
    by (simp add: summary_of_def)
  then show ?thesis
    unfolding list_all2_map2 using ms(2)
    by (auto simp: dict_has_iff list_all2_map2 intro!: list.rel_refl_strong)
qed

text \<open>When no remaining stage is ready, the run fails with the sorted ids of the blocked
  stages, of which there is at least one, and each of them has a dependency that is itself
  blocked or is no stage of the plan.\<close>

theorem unresolved_stages_are_blocked:
  assumes "sched_run disp par ch el st plan = (st', Inl (Unresolved_Dependencies ids))"
    and "distinct (stage_ids (pp_stages plan))"
  shows "ids \<noteq> [] \<and> sorted ids \<and> (\<forall>i \<in> set ids. \<exists>s \<in> set (pp_stages plan). sd_stage_id s = i
    \<and> (\<exists>d \<in> set (sd_dependencies s). d \<in> set ids \<or> d \<notin> set (stage_ids (pp_stages plan))))"
proof -
  let ?s = "init_sched ch st plan"
  obtain s' where loop: "sched_loop disp par ?s = (s', Inl (Unresolved_Dependencies ids))"
    using assms(1) by (auto simp: sched_run_def split: prod.splits sum.splits)
  have rem: "sc_remaining ?s = pp_stages plan" "sc_completed ?s = []"
    by (simp_all add: init_sched_def stages_by_id_distinct assms(2))
  have ex: "sc_remaining s' \<noteq> []" "ready s' = []" "ids = sort (stage_ids (sc_remaining s'))"
    "set (sc_remaining s') \<subseteq> set (pp_stages plan)"
    "set (sc_completed s') = sd_stage_id ` (set (pp_stages plan) - set (sc_remaining s'))"
    using stuck_explained [OF loop] rem assms(2) by simp_all
  have "\<exists>d \<in> set (sd_dependencies s). d \<in> set ids \<or> d \<notin> set (stage_ids (pp_stages plan))"
    if s: "s \<in> set (sc_remaining s')" for s
  proof -
    obtain d where "d \<in> set (sd_dependencies s)" "d \<notin> set (sc_completed s')"
      using ex(2) s by (auto simp: ready_def filter_empty_conv)
    then show ?thesis using ex(3,5) by (auto simp: stage_ids_def)
  qed
  moreover have "ids \<noteq> []"
    using ex(1,3) by (metis length_0_conv length_map length_sort stage_ids_def)
  ultimately show ?thesis
    using ex(3,4) by (auto simp: stage_ids_def)
qed

section \<open>Concrete runs\<close>

definition ex_stage :: "string \<Rightarrow> string list \<Rightarrow> stage_definition" where
  "ex_stage i ds = \<lparr>sd_stage_id = i, sd_stage_type = LOCAL_COMPUTE, sd_dependencies = ds,
     sd_source_id = None, sd_sql = None, sd_sql_dialect = None, sd_subplan = None,
     sd_retry_limit = 2, sd_metadata = empty_metadata\<rparr>"

definition ex_logical :: logical_plan where
  "ex_logical = \<lparr>lp_query_type = QT_SQL, lp_sql = [], lp_from_alias = [], lp_tables = [],
     lp_joins = [], lp_where_sql = None, lp_having_sql = None, lp_group_by_sql = [],
     lp_order_by_sql = [], lp_limit = None, lp_offset = None, lp_has_cte = False\<rparr>"

definition ex_plan :: "stage_definition list \<Rightarrow> physical_plan" where
  "ex_plan ss = \<lparr>pp_plan_id = ''p'', pp_logical_plan = ex_logical, pp_stages = ss,
     pp_result_stage_id = [], pp_join_order = [], pp_join_strategies = []\<rparr>"

text \<open>A dispatcher that counts its attempts and fails every stage on the first of them.\<close>

definition ex_disp :: "(nat, string) dispatcher" where
  "ex_disp n s =
     (if n = 0 then (1, Inl ''flaky'')
      else (Suc n, Inr (\<lparr>sa_stage_id = sd_stage_id s, sa_artifact_key = ''k'', sa_rows = 1,
              sa_bytes_written = 1, sa_content_hash = ''h''\<rparr>,
            \<lparr>sm_stage_id = sd_stage_id s, sm_attempts = 1, sm_runtime_ms = 0, sm_rows = 1,
              sm_bytes_written = 1, sm_source_elapsed_ms = None, sm_cached = False\<rparr>)))"

lemmas ex_run_defs = sched_run_def init_sched_def ex_plan_def

lemma ok_run_split: "is_ok (snd p) \<Longrightarrow> \<exists>st' summ arts. p = (st', Inr (summ, arts))"
  by (cases p) (auto simp: is_ok_iff)

theorem run_accounts_for_every_stage_witness:
  "\<exists>st' summ arts. sched_run ex_disp 2 [1] 5 0 (ex_plan [ex_stage ''a'' [], ex_stage ''b'' []])
     = (st', Inr (summ, arts))
   \<and> list_all2 attempts_within [ex_stage ''a'' [], ex_stage ''b'' []] (es_stage_metrics summ)"
proof -
  have "is_ok (snd (sched_run ex_disp 2 [1] 5 0 (ex_plan [ex_stage ''a'' [], ex_stage ''b'' []])))"
    by code_simp
  from ok_run_split [OF this] obtain st' summ arts where r: "sched_run ex_disp 2 [1] 5 0
      (ex_plan [ex_stage ''a'' [], ex_stage ''b'' []]) = (st', Inr (summ, arts))" by blast
  have "distinct (stage_ids (pp_stages (ex_plan [ex_stage ''a'' [], ex_stage ''b'' []])))"
    by (simp add: ex_plan_def stage_ids_def ex_stage_def)
  from run_accounts_for_every_stage [OF r this] r show ?thesis
    by (auto simp: ex_plan_def)
qed

theorem unresolved_stages_are_blocked_witness:
  "\<exists>st'. sched_run ex_disp 2 [] 5 1 (ex_plan [ex_stage ''b'' [''a''], ex_stage ''a'' [''b'']])
      = (st', Inl (Unresolved_Dependencies [''a'', ''b'']))
   \<and> sorted [''a'', ''b'']"
proof -
  let ?p = "ex_plan [ex_stage ''b'' [''a''], ex_stage ''a'' [''b'']]"
  have "snd (sched_run ex_disp 2 [] 5 1 ?p) = Inl (Unresolved_Dependencies [''a'', ''b''])"
    by code_simp
  then obtain st' where r: "sched_run ex_disp 2 [] 5 1 ?p
      = (st', Inl (Unresolved_Dependencies [''a'', ''b'']))"
    by (metis prod.collapse)
  have "distinct (stage_ids (pp_stages ?p))"
    by (simp add: ex_plan_def stage_ids_def ex_stage_def)
  from unresolved_stages_are_blocked [OF r this] r show ?thesis by blast
qed

end
