(* ===== verification/Federated_Planner.thy ===== *)
theory Federated_Planner
  imports Pushdown Stage_Scheduler
begin

text \<open>
  From SQL to a physical plan: the statistics registry (\<open>federation/planner/stats.py\<close>), the
  physical planner (\<open>federation/planner/physical_planner.py\<close>) and the planner that composes
  parser, optimizer and physical planner (\<open>federation/planner/planner.py\<close>). The plan hash,
  sixteen hexadecimal digits of the SHA-256 of the serialised logical plan and local SQL, is
  a parameter. The compiler from semantic queries to SQL belongs to the semantic layer and
  is a parameter here.
\<close>

section \<open>Statistics by workspace and table\<close>

type_synonym stats_store = "(string, (string, table_statistics) dict) dict"

definition workspace_stats :: "stats_store \<Rightarrow> string \<Rightarrow> (string, table_statistics) dict" where
  "workspace_stats ss w = (case dict_get ss w of None \<Rightarrow> [] | Some d \<Rightarrow> d)"

definition stats_get :: "stats_store \<Rightarrow> string \<Rightarrow> string \<Rightarrow> table_statistics option" where
  "stats_get ss w k = dict_get (workspace_stats ss w) k"

definition stats_upsert :: "stats_store \<Rightarrow> string \<Rightarrow> string \<Rightarrow> table_statistics \<Rightarrow> stats_store" where
  "stats_upsert ss w k st = dict_set ss w (dict_set (workspace_stats ss w) k st)"

definition apply_overrides ::
  "stats_store \<Rightarrow> string \<Rightarrow> (string, table_statistics) dict \<Rightarrow> stats_store" where
  "apply_overrides ss w overrides =
     (if overrides = [] then ss
      else dict_set ss w (foldl (\<lambda>d (k, st). dict_set d k st) (workspace_stats ss w) overrides))"

lemma stats_get_upsert [simp]:
  "stats_get (stats_upsert ss w k st) w' k' = (if w' = w \<and> k' = k then Some st else stats_get ss w' k')"
  by (simp add: stats_get_def stats_upsert_def workspace_stats_def)

lemma stats_get_overrides:
  "dict_ok ov \<Longrightarrow> stats_get (apply_overrides ss w ov) w' k =
     (if w' = w then (case dict_get ov k of Some st \<Rightarrow> Some st | None \<Rightarrow> stats_get ss w k)
      else stats_get ss w' k)"
  using dict_get_update [of ov "workspace_stats ss w" k]
  by (auto simp: apply_overrides_def stats_get_def dict_update_def workspace_stats_def split: option.splits)

definition planner_default_statistics :: table_statistics where
  "planner_default_statistics = \<lparr>ts_row_count_estimate = Some 1000000, ts_bytes_per_row = 128\<rparr>"

text \<open>\<open>FederatedPlanner._resolve_stats\<close>: also stores the workflow's overrides.\<close>

definition resolve_stats ::
  "stats_store \<Rightarrow> federation_workflow \<Rightarrow> stats_store \<times> (string, table_statistics) dict" where
  "resolve_stats ss flow =
     (let ss' = apply_overrides ss (fw_workspace_id flow) (vd_stats_overrides (fw_dataset flow))
      in (ss', foldl (\<lambda>d (k, b). dict_set d k
            (case stats_get ss' (fw_workspace_id flow) k of
               Some st \<Rightarrow> st
             | None \<Rightarrow> (case tb_stats b of Some st \<Rightarrow> st | None \<Rightarrow> planner_default_statistics)))
          [] (vd_tables (fw_dataset flow))))"

section \<open>Physical plans\<close>

datatype plan_error =
    Sql_Rejected
  | Sql_Not_Resolved parse_error
  | Not_Optimized opt_error
  | No_Subplan

definition scan_stage :: "stage_type \<Rightarrow> source_subplan \<Rightarrow> stage_definition" where
  "scan_stage ty sp =
     \<lparr>sd_stage_id = sp_stage_id sp, sd_stage_type = ty, sd_dependencies = [],
      sd_source_id = Some (sp_source_id sp), sd_sql = None, sd_sql_dialect = None,
      sd_subplan = Some sp, sd_retry_limit = 2,
      sd_metadata = empty_metadata\<lparr>md_alias := Some (sp_alias sp)\<rparr>\<rparr>"

definition final_stage :: "optimized_plan \<Rightarrow> stage_definition" where
  "final_stage op =
     \<lparr>sd_stage_id = ''local_compute_final'', sd_stage_type = LOCAL_COMPUTE,
      sd_dependencies = map sp_stage_id (op_source_subplans op), sd_source_id = None,
      sd_sql = Some (op_local_stage_sql op), sd_sql_dialect = Some (op_local_stage_dialect op),
      sd_subplan = None, sd_retry_limit = 2,
      sd_metadata = empty_metadata
        \<lparr>md_table_inputs := Some (foldl (\<lambda>d sp. dict_set d (''scan_'' @ sp_alias sp) (sp_stage_id sp)) []
            (op_source_subplans op)),
         md_join_order := Some (op_join_order op),
         md_join_strategies := Some (op_join_strategies op)\<rparr>\<rparr>"

type_synonym plan_hash = "logical_plan \<Rightarrow> string option \<Rightarrow> string"

definition build_physical_plan ::
  "plan_hash \<Rightarrow> optimized_plan \<Rightarrow> (plan_error, physical_plan) result" where
  "build_physical_plan hash op =
     (if op_pushdown_full_query op then
        (case op_source_subplans op of
           [] \<Rightarrow> Inl No_Subplan
         | sp # _ \<Rightarrow> Inr
             \<lparr>pp_plan_id = hash (op_logical_plan op) None, pp_logical_plan = op_logical_plan op,
              pp_stages = [scan_stage REMOTE_FULL_QUERY sp], pp_result_stage_id = sp_stage_id sp,
              pp_join_order = op_join_order op, pp_join_strategies = op_join_strategies op\<rparr>)
      else Inr
        \<lparr>pp_plan_id = hash (op_logical_plan op) (Some (op_local_stage_sql op)),
         pp_logical_plan = op_logical_plan op,
         pp_stages = map (scan_stage REMOTE_SCAN) (op_source_subplans op) @ [final_stage op],
         pp_result_stage_id = ''local_compute_final'',
         pp_join_order = op_join_order op, pp_join_strategies = op_join_strategies op\<rparr>)"

section \<open>Planning a query\<close>

text \<open>
  The parameters of planning: the library, the parser's view of a statement (\<open>None\<close> for
  text that does not parse or is no SELECT), the dialect normaliser, the hash and the rank.
\<close>

record 'x plan_env =
  pe_ops :: "'x sql_ops"
  pe_view :: "string \<Rightarrow> string \<Rightarrow> (string \<times> select_view \<times> 'x) option"
  pe_normalize :: "'x \<Rightarrow> 'x"
  pe_hash :: plan_hash
  pe_rank :: "string list \<Rightarrow> string \<Rightarrow> nat"

definition logical_plan_from_sql ::
  "'x plan_env \<Rightarrow> query_type \<Rightarrow> string \<Rightarrow> string \<Rightarrow> virtual_dataset
   \<Rightarrow> (plan_error, logical_plan \<times> 'x) result" where
  "logical_plan_from_sql pe qt sql dialect d =
     (case pe_view pe dialect sql of
        None \<Rightarrow> Inl Sql_Rejected
      | Some (normalized, v, e) \<Rightarrow>
          (case logical_plan_from_select qt normalized d v of
             Inl err \<Rightarrow> Inl (Sql_Not_Resolved err)
           | Inr lp \<Rightarrow> Inr (lp, e)))"

definition opt_env_of ::
  "'x plan_env \<Rightarrow> federation_workflow \<Rightarrow> (string, table_statistics) dict \<Rightarrow> (string, string) dict
   \<Rightarrow> string \<Rightarrow> string \<Rightarrow> 'x opt_env" where
  "opt_env_of pe flow stats dialects input local =
     \<lparr>oe_ops = pe_ops pe, oe_normalize = pe_normalize pe, oe_rank = pe_rank pe,
      oe_threshold = fw_broadcast_threshold_bytes flow, oe_dataset = fw_dataset flow, oe_stats = stats,
      oe_source_dialects = dialects, oe_input_dialect = input, oe_local_dialect = local\<rparr>"

definition plan_query ::
  "'x plan_env \<Rightarrow> query_type \<Rightarrow> stats_store \<Rightarrow> string \<Rightarrow> string \<Rightarrow> federation_workflow
   \<Rightarrow> (string, string) dict \<Rightarrow> string \<Rightarrow> stats_store \<times> (plan_error, physical_plan) result" where
  "plan_query pe qt ss sql dialect flow dialects local =
     (case logical_plan_from_sql pe qt sql dialect (fw_dataset flow) of
        Inl err \<Rightarrow> (ss, Inl err)
      | Inr (lp, e) \<Rightarrow>
          (case resolve_stats ss flow of (ss', stats) \<Rightarrow>
             (ss', case optimize (opt_env_of pe flow stats dialects dialect local) lp e of
                     Inl err \<Rightarrow> Inl (Not_Optimized err)
                   | Inr op \<Rightarrow> build_physical_plan (pe_hash pe) op)))"

definition plan_sql where
  "plan_sql pe = plan_query pe QT_SQL"

text \<open>\<open>plan_smq\<close>: the compiled SQL is planned in the same way; \<open>compile\<close> may raise.\<close>

definition plan_smq ::
  "('m \<Rightarrow> 'q \<Rightarrow> string \<Rightarrow> ('e, string) result) \<Rightarrow> 'x plan_env \<Rightarrow> stats_store \<Rightarrow> 'm \<Rightarrow> 'q \<Rightarrow> string
   \<Rightarrow> federation_workflow \<Rightarrow> (string, string) dict \<Rightarrow> string
   \<Rightarrow> stats_store \<times> ('e + plan_error, physical_plan) result" where
  "plan_smq compile pe ss model q dialect flow dialects local =
     (case compile model q dialect of
        Inl e \<Rightarrow> (ss, Inl (Inl e))
      | Inr sql \<Rightarrow>
          (case plan_query pe QT_SMQ ss sql dialect flow dialects local of
             (ss', Inl e) \<Rightarrow> (ss', Inl (Inr e))
           | (ss', Inr p) \<Rightarrow> (ss', Inr p)))"

section \<open>The statistics that planning uses\<close>

lemma foldl_dict_set_get:
  "dict_ok kvs \<Longrightarrow> dict_get (foldl (\<lambda>d (k, b). dict_set d k (f k b)) acc kvs) k =
     (case dict_get kvs k of None \<Rightarrow> dict_get acc k | Some b \<Rightarrow> Some (f k b))"
proof (induction kvs arbitrary: acc)
  case (Cons p kvs)
  obtain a b where p: "p = (a, b)" by (cases p)
  have "dict_ok kvs" "dict_get kvs a = None"
    using Cons.prems p by (auto simp: dict_ok_def dict_get_def map_of_eq_None_iff)
  then show ?case
    using Cons.IH [of "dict_set acc a (f a b)"] p by (auto simp: dict_get_Cons split: option.splits)
qed simp

text \<open>The statistics of a table are the workflow's override, else what the registry holds for
  the workspace, else the binding's own, else a default of a million rows; the overrides
  stay in the registry, and other workspaces keep their statistics.\<close>

theorem stats_resolution_order:
  assumes "dict_ok (vd_stats_overrides (fw_dataset flow))" "dict_ok (vd_tables (fw_dataset flow))"
    and "resolve_stats ss flow = (ss', stats)"
  shows "dict_get stats k = map_option (\<lambda>b.
       case dict_get (vd_stats_overrides (fw_dataset flow)) k of Some st \<Rightarrow> st
       | None \<Rightarrow> (case stats_get ss (fw_workspace_id flow) k of Some st \<Rightarrow> st
         | None \<Rightarrow> (case tb_stats b of Some st \<Rightarrow> st | None \<Rightarrow> planner_default_statistics)))
     (dict_get (vd_tables (fw_dataset flow)) k)
   \<and> stats_get ss' w k =
     (case dict_get (vd_stats_overrides (fw_dataset flow)) k of
        Some st \<Rightarrow> if w = fw_workspace_id flow then Some st else stats_get ss w k
      | None \<Rightarrow> stats_get ss w k)"
  using assms(3) unfolding resolve_stats_def Let_def
  by (auto simp: foldl_dict_set_get [OF assms(2)] stats_get_overrides [OF assms(1)] split: option.splits)

section \<open>The stage graph of a plan\<close>

lemma scan_subplan_Inr:
  assumes "scan_subplan env req unq ps als (a, t) = Inr sp"
  shows "sp_stage_id sp = ''scan_'' @ a \<and> sp_alias sp = a \<and> sp_table_key sp = tr_table_key t
    \<and> sp_source_id sp = tr_source_id t"
proof -
  obtain b where b: "binding_of env t = Inr b"
    using assms by (auto simp: scan_subplan_def bindR_eq_Inr)
  obtain sql where "build_scan_sql (oe_ops env) a b (projection req unq a)
      (pushable_filters env ps als a (tr_source_id t)) None (target_dialect env (tr_source_id t)) = Inr sql"
    using assms b by (auto simp: scan_subplan_def Let_def split: sum.splits)
  then show ?thesis using assms b by (auto simp: scan_subplan_def Let_def)
qed

lemma scans_in_order:
  assumes "mapR (scan_subplan env req unq ps als) kvs = Inr sps"
  shows "map sp_alias sps = map fst kvs \<and> map sp_stage_id sps = map (\<lambda>p. ''scan_'' @ fst p) kvs
    \<and> map sp_source_id sps = map (\<lambda>p. tr_source_id (snd p)) kvs"
  using assms unfolding mapR_Inr_iff
  by (induction rule: list_all2_induct) (auto dest!: scan_subplan_Inr)

lemma optimize_cases:
  assumes "optimize env lp e = Inr op"
  obtains (full) sp where "op_pushdown_full_query op" "op_source_subplans op = [sp]"
      "full_query_subplan env lp = Inr sp" "op_logical_plan op = lp" "pushes_full_query env lp = Inr True"
    | (split) req unq ps where "\<not> op_pushdown_full_query op" "op_logical_plan op = lp"
      "mapR (scan_subplan env req unq ps (dict_keys (lp_tables lp))) (lp_tables lp)
       = Inr (op_source_subplans op)"
      "op_local_stage_dialect op = oe_local_dialect env"
      "op_local_stage_sql op = render_local_stage_sql (oe_ops env) (oe_normalize env) e
         (map (\<lambda>a. (a, ''scan_'' @ a)) (dict_keys (lp_tables lp))) (oe_input_dialect env) (oe_local_dialect env)"
proof -
  obtain req unq where x: "extract_required_columns (oe_ops env) e (dict_keys (lp_tables lp)) = (req, unq)"
    by (cases "extract_required_columns (oe_ops env) e (dict_keys (lp_tables lp))")
  obtain ps where ps: "where_predicates env lp = Inr ps"
    using assms by (auto simp: optimize_def Let_def x bindR_eq_Inr)
  obtain f where f: "pushes_full_query env lp = Inr f"
    using assms by (auto simp: optimize_def Let_def x ps bindR_eq_Inr)
  show thesis
  proof (cases f)
    case True
    then obtain sp where "full_query_subplan env lp = Inr sp"
      using assms by (auto simp: optimize_def Let_def x ps f bindR_eq_Inr)
    then show thesis
      using assms f True by (intro full [of sp]) (auto simp: optimize_def Let_def x ps)
  next
    case False
    then obtain sps strategies where
        "mapR (scan_subplan env req unq ps (dict_keys (lp_tables lp))) (lp_tables lp) = Inr sps"
        "choose_join_strategies lp (oe_stats env) (oe_threshold env) = Inr strategies"
      using assms by (auto simp: optimize_def Let_def x ps f bindR_eq_Inr)
    then show thesis
      using assms False by (intro split [of req unq ps]) (auto simp: optimize_def Let_def x ps f)
  qed
qed

lemma topo_scans: "topo_from A (map (scan_stage ty) sps)"
  by (induction sps arbitrary: A) (auto simp: scan_stage_def)

lemma scan_stage_id [simp]: "sd_stage_id (scan_stage ty sp) = sp_stage_id sp"
  by (simp add: scan_stage_def)

lemma plan_query_cases:
  assumes "plan_query pe qt ss sql dialect flow dialects local = (ss', Inr pp)"
  obtains v e lp norm stats op where
    "pe_view pe dialect sql = Some (norm, v, e)"
    "logical_plan_from_select qt norm (fw_dataset flow) v = Inr lp"
    "resolve_stats ss flow = (ss', stats)"
    "optimize (opt_env_of pe flow stats dialects dialect local) lp e = Inr op"
    "build_physical_plan (pe_hash pe) op = Inr pp"
  using assms
  by (auto simp: plan_query_def logical_plan_from_sql_def split: option.splits sum.splits prod.splits)

lemma plan_query_graph:
  assumes "plan_query pe qt ss sql dialect flow dialects local = (ss', Inr pp)"
  shows "distinct (stage_ids (pp_stages pp)) \<and> topo_from {} (pp_stages pp)
    \<and> pp_result_stage_id pp \<in> set (stage_ids (pp_stages pp))
    \<and> (stage_ids (pp_stages pp) = [''scan_full_query'']
       \<or> stage_ids (pp_stages pp)
          = map (\<lambda>a. ''scan_'' @ a) (dict_keys (lp_tables (pp_logical_plan pp))) @ [''local_compute_final''])"
  using assms
proof (cases rule: plan_query_cases)
  case (1 v e lp norm stats op)
  note wf = from_select_tables [OF 1(2)]
  from 1(4) show ?thesis
  proof (cases rule: optimize_cases)
    case (full sp)
    have "sp_stage_id sp = ''scan_full_query''"
      using full(3) by (auto simp: full_query_subplan_def Let_def split: option.splits)
    then show ?thesis
      using 1(5) full by (auto simp: build_physical_plan_def stage_ids_def scan_stage_def)
  next
    case (split req unq ps)
    let ?keys = "dict_keys (lp_tables lp)"
    have pp: "pp_stages pp = map (scan_stage REMOTE_SCAN) (op_source_subplans op) @ [final_stage op]"
        "pp_result_stage_id pp = ''local_compute_final''" "pp_logical_plan pp = lp"
      using 1(5) split by (auto simp: build_physical_plan_def)
    have ids: "map sp_stage_id (op_source_subplans op) = map (\<lambda>a. ''scan_'' @ a) ?keys"
      using scans_in_order [OF split(3)] by (simp add: dict_keys_def o_def)
    have all: "stage_ids (pp_stages pp) = map (\<lambda>a. ''scan_'' @ a) ?keys @ [''local_compute_final'']"
      using ids by (simp add: pp(1) stage_ids_def final_stage_def o_def)
    have "distinct ?keys"
      using wf by (simp add: tables_of_def dict_ok_def dict_keys_def)
    then have "distinct (stage_ids (pp_stages pp))"
      by (auto simp: all distinct_map inj_on_def)
    moreover have "topo_from {} (pp_stages pp)"
      unfolding pp(1) topo_from_append using topo_scans by (simp add: final_stage_def image_image)
    ultimately show ?thesis using all pp by simp
  qed
qed

text \<open>C4: every plan is a runnable stage graph: the stage ids are distinct, each stage depends only
  on stages before it, the result stage is one of them, and the plan has one remote scan per
  alias of the query (or one full query) and otherwise just the final local stage.\<close>

theorem planned_stages_form_a_dag:
  assumes "plan_query pe qt ss sql dialect flow dialects local = (ss', Inr pp)"
  shows "distinct (stage_ids (pp_stages pp)) \<and> topo_from {} (pp_stages pp)
    \<and> pp_result_stage_id pp \<in> set (stage_ids (pp_stages pp))
    \<and> (stage_ids (pp_stages pp) = [''scan_full_query'']
       \<or> stage_ids (pp_stages pp)
          = map (\<lambda>a. ''scan_'' @ a) (dict_keys (lp_tables (pp_logical_plan pp))) @ [''local_compute_final''])"
  using assms by (rule plan_query_graph)

section \<open>A concrete planner\<close>

definition ex_plan_env :: "ex_cond plan_env" where
  "ex_plan_env = \<lparr>pe_ops = ex_sql_ops
       \<lparr>so_parse_where := (\<lambda>d s. Some (P_Atom (ex_column ''o'' ''total'', Some ''5'')))\<rparr>,
     pe_view = (\<lambda>d s. Some (s, ex_select, (ex_column ''o'' ''total'', None))),
     pe_normalize = (\<lambda>e. e), pe_hash = (\<lambda>lp sql. lp_sql lp), pe_rank = (\<lambda>_ _. 0)\<rparr>"

definition ex_flow :: federation_workflow where
  "ex_flow = \<lparr>fw_id = ''f'', fw_workspace_id = ''ws'',
     fw_dataset = ex_virtual\<lparr>vd_stats_overrides :=
       [(''orders'', \<lparr>ts_row_count_estimate = Some 10, ts_bytes_per_row = 64\<rparr>)]\<rparr>,
     fw_broadcast_threshold_bytes = 67108864, fw_partition_count = 8, fw_max_stage_retries = 2,
     fw_stage_parallelism = 4\<rparr>"

lemma ex_planned:
  obtains ss pp where "plan_query ex_plan_env QT_SQL [] ''SELECT'' ''tsql'' ex_flow [] ''duckdb'' = (ss, Inr pp)"
    "length (pp_stages pp) = 3"
proof -
  have "case snd (plan_query ex_plan_env QT_SQL [] ''SELECT'' ''tsql'' ex_flow [] ''duckdb'') of
      Inl e \<Rightarrow> False | Inr pp \<Rightarrow> length (pp_stages pp) = 3"
    by code_simp
  then show thesis
    by (cases "plan_query ex_plan_env QT_SQL [] ''SELECT'' ''tsql'' ex_flow [] ''duckdb''")
      (auto split: sum.splits intro: that)
qed

theorem planned_stages_form_a_dag_witness:
  "\<exists>ss pp. plan_query ex_plan_env QT_SQL [] ''SELECT'' ''tsql'' ex_flow [] ''duckdb'' = (ss, Inr pp)
     \<and> distinct (stage_ids (pp_stages pp)) \<and> topo_from {} (pp_stages pp) \<and> length (pp_stages pp) = 3"
proof -
  obtain ss pp where p: "plan_query ex_plan_env QT_SQL [] ''SELECT'' ''tsql'' ex_flow [] ''duckdb'' = (ss, Inr pp)"
      "length (pp_stages pp) = 3"
    using ex_planned .
  from planned_stages_form_a_dag [OF p(1)] p show ?thesis by blast
qed

theorem stats_resolution_order_witness:
  "dict_get (snd (resolve_stats [] ex_flow)) ''orders''
     = Some \<lparr>ts_row_count_estimate = Some 10, ts_bytes_per_row = 64\<rparr>
   \<and> dict_get (snd (resolve_stats [] ex_flow)) ''customers'' = Some planner_default_statistics"
proof -
  have ok: "dict_ok (vd_stats_overrides (fw_dataset ex_flow))" "dict_ok (vd_tables (fw_dataset ex_flow))"
    by (simp_all add: dict_ok_def ex_flow_def ex_virtual_def)
  note o = stats_resolution_order [OF ok, of "[]" "fst (resolve_stats [] ex_flow)" "snd (resolve_stats [] ex_flow)"]
  show ?thesis
    using o [of "''orders''"] o [of "''customers''"]
    by (simp add: ex_flow_def ex_virtual_def dict_get_def stats_get_def workspace_stats_def)
qed

end
