(* ===== verification/Encodings.thy ===== *)
theory Encodings
  imports Prelude
begin

text \<open>
  Self-delimiting encodings into strings: concrete functions without collisions, which
  show that the properties that assume a collision-free digest can be applied.
\<close>

definition prefix_code :: "('a \<Rightarrow> string) \<Rightarrow> bool" where
  "prefix_code e = (\<forall>a b r q. e a @ r = e b @ q \<longrightarrow> a = b \<and> r = q)"

lemma prefix_codeD: "\<lbrakk>prefix_code e; e a @ r = e b @ q\<rbrakk> \<Longrightarrow> a = b \<and> r = q"
  by (auto simp: prefix_code_def)

lemma prefix_codeI: "(\<And>a b r q. e a @ r = e b @ q \<Longrightarrow> a = b \<and> r = q) \<Longrightarrow> prefix_code e"
  by (auto simp: prefix_code_def)

lemma prefix_code_inj: "prefix_code e \<Longrightarrow> inj e"
  by (auto simp: inj_def dest: prefix_codeD [where r = "[]" and q = "[]"])

fun enc_list :: "('a \<Rightarrow> string) \<Rightarrow> 'a list \<Rightarrow> string" where
  "enc_list e [] = ''0''"
| "enc_list e (x # xs) = CHR ''1'' # e x @ enc_list e xs"

lemma prefix_code_list [intro]:
  assumes "prefix_code e"
  shows "prefix_code (enc_list e)"
proof -
  have "enc_list e xs @ r = enc_list e ys @ q \<Longrightarrow> xs = ys \<and> r = q" for xs ys r q
  proof (induction xs arbitrary: ys)
    case Nil
    then show ?case by (cases ys) auto
  next
    case (Cons x xs)
    from Cons.prems obtain y zs where ys: "ys = y # zs" by (cases ys) auto
    with Cons.prems have "e x @ enc_list e xs @ r = e y @ enc_list e zs @ q" by simp
    then have "x = y" "enc_list e xs @ r = enc_list e zs @ q"
      using prefix_codeD [OF assms] by blast+
    with Cons.IH ys show ?case by simp
  qed
  then show ?thesis by (auto simp: prefix_code_def)
qed

definition enc_string :: "string \<Rightarrow> string" where
  "enc_string = enc_list (\<lambda>c. [c])"

lemma prefix_code_string [intro]: "prefix_code enc_string"
  unfolding enc_string_def by (rule prefix_code_list) (simp add: prefix_code_def)

definition enc_option :: "('a \<Rightarrow> string) \<Rightarrow> 'a option \<Rightarrow> string" where
  "enc_option e x = (case x of None \<Rightarrow> ''n'' | Some y \<Rightarrow> CHR ''s'' # e y)"

lemma prefix_code_option [intro]:
  assumes "prefix_code e"
  shows "prefix_code (enc_option e)"
proof (rule prefix_codeI)
  fix a b r q
  assume eq: "enc_option e a @ r = enc_option e b @ q"
  show "a = b \<and> r = q"
  proof (cases "\<exists>y z. a = Some y \<and> b = Some z")
    case True
    then obtain y z where "a = Some y" "b = Some z" "e y @ r = e z @ q"
      using eq by (auto simp: enc_option_def)
    with prefix_codeD [OF assms this(3)] show ?thesis by simp
  next
    case False
    with eq show ?thesis by (auto simp: enc_option_def split: option.splits)
  qed
qed

definition enc_pair :: "('a \<Rightarrow> string) \<Rightarrow> ('b \<Rightarrow> string) \<Rightarrow> 'a \<times> 'b \<Rightarrow> string" where
  "enc_pair e f p = e (fst p) @ f (snd p)"

lemma prefix_code_pair [intro]:
  assumes "prefix_code e" "prefix_code f"
  shows "prefix_code (enc_pair e f)"
proof (rule prefix_codeI)
  fix a b r q
  assume "enc_pair e f a @ r = enc_pair e f b @ q"
  then have "e (fst a) @ f (snd a) @ r = e (fst b) @ f (snd b) @ q"
    by (simp add: enc_pair_def)
  then have "fst a = fst b" "f (snd a) @ r = f (snd b) @ q"
    using prefix_codeD [OF assms(1)] by blast+
  then show "a = b \<and> r = q"
    using prefix_codeD [OF assms(2)] by (simp add: prod_eq_iff)
qed

lemma prefix_code_comp:
  assumes "prefix_code e" "inj f"
  shows "prefix_code (\<lambda>x. e (f x))"
proof (rule prefix_codeI)
  fix a b r q
  assume "e (f a) @ r = e (f b) @ q"
  from prefix_codeD [OF assms(1) this] show "a = b \<and> r = q"
    using assms(2) by (simp add: inj_eq)
qed

end
