(* ===== verification/Cache_Context.thy ===== *)
theory Cache_Context
  imports Plan_Models Encodings
begin

text \<open>
  Stage cache descriptors (\<open>federation/executor/cache_context.py\<close>). A stage's output may
  be reused when all its inputs have a freshness key; the key of the stage is a digest of
  its inputs. The digest (SHA-256 of the canonical JSON of the inputs) and \<open>uuid.UUID\<close>
  are parameters; what is used of the digest is that it is never blank and, where a
  property says so, that it has no collisions.
\<close>

named_theorems cache_defs \<open>definitions of the cache resolver\<close>

datatype input_kind = CK_DATASET | CK_DEPENDENCY

datatype input_policy = CP_REVISION | CP_DEPENDENCY | CP_VOLATILE | CP_UNKNOWN

record cache_input =
  ci_kind :: input_kind
  ci_policy :: input_policy
  ci_source_id :: "string option"
  ci_table_key :: "string option"
  ci_dataset_id :: "uuid option"
  ci_dataset_name :: "string option"
  ci_canonical_reference :: "string option"
  ci_materialization_mode :: "string option"
  ci_freshness_key :: "string option"
  ci_revision_id :: "uuid option"
  ci_dependency_stage_id :: "string option"
  ci_reason :: "string option"

definition supports_cache :: "cache_input \<Rightarrow> bool" where
  "supports_cache i =
     (ci_policy i \<in> {CP_REVISION, CP_DEPENDENCY} \<and> \<not> blank (ci_freshness_key i))"

record cache_descriptor =
  cd_cacheable :: bool
  cd_cache_key :: "string option"
  cd_inputs :: "cache_input list"
  cd_reason :: "string option"

definition descriptor_valid :: "cache_descriptor \<Rightarrow> bool" where
  "descriptor_valid d = (\<not> (cd_cacheable d \<and> blank (cd_cache_key d)))"

text \<open>\<open>a or b\<close> for optional strings: the first that is neither \<open>None\<close> nor empty.\<close>

definition or_str :: "string option \<Rightarrow> string option \<Rightarrow> string option" where
  "or_str a b = (case a of Some (c # cs) \<Rightarrow> a | _ \<Rightarrow> b)"

definition truthy :: "string option \<Rightarrow> bool" where
  "truthy a = (case a of Some (c # cs) \<Rightarrow> True | _ \<Rightarrow> False)"

definition uncacheable :: "cache_input list \<Rightarrow> string option \<Rightarrow> cache_descriptor" where
  "uncacheable ins r = \<lparr>cd_cacheable = False, cd_cache_key = None, cd_inputs = ins, cd_reason = r\<rparr>"

definition from_inputs ::
  "(cache_input list \<Rightarrow> string) \<Rightarrow> cache_input list \<Rightarrow> string option \<Rightarrow> cache_descriptor" where
  "from_inputs digest ins reason =
     (if ins = [] then
        uncacheable [] (or_str reason (Some ''Stage has no cacheable freshness inputs.''))
      else case find (\<lambda>i. \<not> supports_cache i) ins of
        Some i \<Rightarrow> uncacheable ins (or_str (or_str reason (ci_reason i))
          (Some ''Stage cache is bypassed for this input state.''))
      | None \<Rightarrow> \<lparr>cd_cacheable = True, cd_cache_key = Some (digest ins), cd_inputs = ins,
          cd_reason = reason\<rparr>)"

section \<open>Values of binding metadata\<close>

text \<open>\<open>str(value or "").strip() or None\<close> on a metadata value that may be missing.\<close>

definition meta_str :: "meta_value option \<Rightarrow> string" where
  "meta_str v = (case v of Some (M_str s) \<Rightarrow> s | Some (M_bool True) \<Rightarrow> ''True'' | _ \<Rightarrow> [])"

definition non_empty :: "string \<Rightarrow> string option" where
  "non_empty s = (if s = [] then None else Some s)"

definition string_or_none :: "meta_value option \<Rightarrow> string option" where
  "string_or_none v = non_empty (py_strip (meta_str v))"

definition opt_string_or_none :: "string option \<Rightarrow> string option" where
  "opt_string_or_none v = non_empty (py_strip (case v of None \<Rightarrow> [] | Some s \<Rightarrow> s))"

text \<open>\<open>str(value)\<close> of a metadata value, given to \<open>uuid.UUID\<close>, which may refuse it.\<close>

definition coerce_uuid :: "(string \<Rightarrow> uuid option) \<Rightarrow> meta_value option \<Rightarrow> uuid option" where
  "coerce_uuid to_uuid v =
     (case v of None \<Rightarrow> None | Some M_null \<Rightarrow> None
      | Some (M_str s) \<Rightarrow> if s = [] then None else to_uuid s
      | Some (M_bool b) \<Rightarrow> to_uuid (if b then ''True'' else ''False''))"

definition descriptor_policy :: "freshness_policy \<Rightarrow> input_policy" where
  "descriptor_policy p =
     (case p of FP_REVISION \<Rightarrow> CP_REVISION | FP_VOLATILE \<Rightarrow> CP_VOLATILE | FP_UNKNOWN \<Rightarrow> CP_UNKNOWN)"

section \<open>The resolver\<close>

record cache_env =
  ce_digest :: "cache_input list \<Rightarrow> string"
  ce_to_uuid :: "string \<Rightarrow> uuid option"
  ce_workflow :: federation_workflow
  ce_plan :: physical_plan

definition describe_binding :: "(string \<Rightarrow> uuid option) \<Rightarrow> table_binding \<Rightarrow> cache_input" where
  "describe_binding to_uuid b =
     (let md = dict_get (tb_metadata b);
          identity = (case tb_descriptor b of None \<Rightarrow> [] | Some d \<Rightarrow> dd_relation_identity d);
          freshness = Option.bind (tb_descriptor b) dd_freshness
      in case (tb_descriptor b, freshness) of
        (Some d, Some f) \<Rightarrow>
          \<lparr>ci_kind = CK_DATASET, ci_policy = descriptor_policy (fd_policy f),
           ci_source_id = Some (tb_source_id b), ci_table_key = Some (tb_table_key b),
           ci_dataset_id = dd_dataset_id d, ci_dataset_name = dd_name d,
           ci_canonical_reference = opt_string_or_none (dict_get identity ''canonical_reference''),
           ci_materialization_mode = opt_string_or_none (dd_materialization_mode d),
           ci_freshness_key = opt_string_or_none (fd_freshness_key f),
           ci_revision_id = fd_revision_id f, ci_dependency_stage_id = None,
           ci_reason = opt_string_or_none (fd_reason f)\<rparr>
      | _ \<Rightarrow>
        (case string_or_none (md ''cache_freshness_key'') of
           Some key \<Rightarrow>
             \<lparr>ci_kind = CK_DATASET, ci_policy = CP_REVISION,
              ci_source_id = Some (tb_source_id b), ci_table_key = Some (tb_table_key b),
              ci_dataset_id = coerce_uuid to_uuid (md ''dataset_id''),
              ci_dataset_name = string_or_none (md ''dataset_name''),
              ci_canonical_reference = string_or_none (md ''canonical_reference''),
              ci_materialization_mode = string_or_none (md ''materialization_mode''),
              ci_freshness_key = Some key,
              ci_revision_id = coerce_uuid to_uuid (md ''dataset_revision_id''),
              ci_dependency_stage_id = None,
              ci_reason = Some ''Binding provided explicit cache_freshness_key metadata.''\<rparr>
         | None \<Rightarrow>
             \<lparr>ci_kind = CK_DATASET, ci_policy = CP_UNKNOWN,
              ci_source_id = Some (tb_source_id b), ci_table_key = Some (tb_table_key b),
              ci_dataset_id = coerce_uuid to_uuid (md ''dataset_id''),
              ci_dataset_name = string_or_none (md ''dataset_name''),
              ci_canonical_reference = opt_string_or_none (dict_get identity ''canonical_reference''),
              ci_materialization_mode = string_or_none (md ''materialization_mode''),
              ci_freshness_key = None, ci_revision_id = None, ci_dependency_stage_id = None,
              ci_reason = Some ''Dataset freshness metadata is missing, so federation stage cache is bypassed.''\<rparr>))"

definition stage_table_keys :: "physical_plan \<Rightarrow> stage_definition \<Rightarrow> string list" where
  "stage_table_keys plan s =
     (case (sd_stage_type s, sd_subplan s) of
        (REMOTE_SCAN, Some sp) \<Rightarrow> [sp_table_key sp]
      | _ \<Rightarrow>
        (let source_id = py_strip
               (case or_str (sd_source_id s) (map_option sp_source_id (sd_subplan s)) of
                  None \<Rightarrow> [] | Some i \<Rightarrow> i)
         in if source_id = [] then []
            else py_sorted_set (map tr_table_key (filter (\<lambda>t. tr_source_id t = source_id)
                   (dict_values (lp_tables (pp_logical_plan plan)))))))"

definition describe_remote_stage :: "cache_env \<Rightarrow> stage_definition \<Rightarrow> cache_descriptor" where
  "describe_remote_stage env s =
     (let bindings = vd_tables (fw_dataset (ce_workflow env));
          ins = map (describe_binding (ce_to_uuid env))
            (List.map_filter (dict_get bindings) (stage_table_keys (ce_plan env) s))
      in if ins = [] then
           uncacheable [] (Some (''Stage '' @ [CHR 39] @ sd_stage_id s @ [CHR 39]
             @ '' has no dataset freshness bindings.''))
         else from_inputs (ce_digest env) ins None)"

definition dependency_input :: "string \<Rightarrow> cache_descriptor option \<Rightarrow> cache_input" where
  "dependency_input i c =
     (let base = \<lparr>ci_kind = CK_DEPENDENCY, ci_policy = CP_UNKNOWN, ci_source_id = None,
            ci_table_key = None, ci_dataset_id = None, ci_dataset_name = None,
            ci_canonical_reference = None, ci_materialization_mode = None,
            ci_freshness_key = None, ci_revision_id = None, ci_dependency_stage_id = Some i,
            ci_reason = None\<rparr>
      in case c of
        None \<Rightarrow> base\<lparr>ci_reason := Some ''Dependency cache metadata is unavailable.''\<rparr>
      | Some d \<Rightarrow>
          base\<lparr>ci_policy := (if cd_cacheable d \<and> truthy (cd_cache_key d)
                 then CP_DEPENDENCY else CP_UNKNOWN),
               ci_freshness_key := cd_cache_key d,
               ci_reason := (if \<not> cd_cacheable d then cd_reason d else None)\<rparr>)"

definition describe_local_stage ::
  "cache_env \<Rightarrow> stage_definition \<Rightarrow> (string, cache_descriptor option) dict \<Rightarrow> cache_descriptor" where
  "describe_local_stage env s deps =
     from_inputs (ce_digest env)
       (map (\<lambda>i. dependency_input i (case dict_get deps i of None \<Rightarrow> None | Some c \<Rightarrow> c))
         (sort (sd_dependencies s))) None"

definition describe_stage ::
  "cache_env \<Rightarrow> stage_definition \<Rightarrow> (string, cache_descriptor option) dict \<Rightarrow> cache_descriptor" where
  "describe_stage env s deps =
     (case sd_stage_type s of
        LOCAL_COMPUTE \<Rightarrow> describe_local_stage env s deps
      | _ \<Rightarrow> describe_remote_stage env s)"

section \<open>When a stage may be served from the cache\<close>

lemma from_inputs_cacheable [simp]:
  "cd_cacheable (from_inputs digest ins r) \<longleftrightarrow> ins \<noteq> [] \<and> (\<forall>i \<in> set ins. supports_cache i)"
proof (cases "find (\<lambda>i. \<not> supports_cache i) ins")
  case (Some i)
  then have "\<exists>x \<in> set ins. \<not> supports_cache x"
    by (metis find_None_iff option.distinct(1))
  with Some show ?thesis by (auto simp: from_inputs_def uncacheable_def)
next
  case None
  then have "\<forall>i \<in> set ins. supports_cache i" by (simp add: find_None_iff)
  with None show ?thesis by (simp add: from_inputs_def uncacheable_def)
qed

lemma from_inputs_key:
  "cd_cacheable (from_inputs digest ins r) \<Longrightarrow>
     cd_cache_key (from_inputs digest ins r) = Some (digest ins)"
  by (auto simp: from_inputs_def uncacheable_def split: if_splits option.splits)

lemma from_inputs_uncacheable_key:
  "\<not> cd_cacheable (from_inputs digest ins r) \<Longrightarrow> cd_cache_key (from_inputs digest ins r) = None"
  by (auto simp: from_inputs_def uncacheable_def split: if_splits option.splits)

lemma from_inputs_inj:
  assumes "inj digest" "cd_cacheable (from_inputs digest xs r)"
    and "cd_cache_key (from_inputs digest xs r) = cd_cache_key (from_inputs digest ys q)"
  shows "xs = ys"
proof -
  have "cd_cache_key (from_inputs digest ys q) = Some (digest xs)"
    using assms(2,3) from_inputs_key by metis
  then have "cd_cache_key (from_inputs digest ys q) = Some (digest ys)"
    using from_inputs_key from_inputs_uncacheable_key by (metis option.distinct(1))
  with assms(1) \<open>_ = Some (digest xs)\<close> show ?thesis by (simp add: inj_eq)
qed

lemma supports_dependency:
  "supports_cache (dependency_input i c) \<longleftrightarrow>
     (\<exists>d. c = Some d \<and> cd_cacheable d \<and> \<not> blank (cd_cache_key d))"
  by (cases c) (auto simp: dependency_input_def supports_cache_def Let_def blank_def truthy_def
      py_strip_def split: option.splits list.splits)

lemma dependency_freshness [simp]:
  "ci_freshness_key (dependency_input i c) = Option.bind c cd_cache_key"
  "ci_dependency_stage_id (dependency_input i c) = Some i"
  by (cases c; simp add: dependency_input_def Let_def)+

definition cached_dep :: "(string, cache_descriptor option) dict \<Rightarrow> string \<Rightarrow> cache_descriptor option" where
  "cached_dep deps i = (case dict_get deps i of None \<Rightarrow> None | Some c \<Rightarrow> c)"

lemma describe_local_stage_inputs:
  "describe_local_stage env s deps =
     from_inputs (ce_digest env) (map (\<lambda>i. dependency_input i (cached_dep deps i))
       (sort (sd_dependencies s))) None"
  by (simp add: describe_local_stage_def cached_dep_def)

text \<open>A local compute stage is cacheable exactly when it has dependencies and each of them
  has a stored descriptor that is itself cacheable with a key that is not blank.\<close>

theorem local_stage_cacheable_iff:
  "cd_cacheable (describe_local_stage env s deps) \<longleftrightarrow>
     sd_dependencies s \<noteq> [] \<and> list_all (\<lambda>i. \<exists>d.
       dict_get deps i = Some (Some d) \<and> cd_cacheable d \<and> \<not> blank (cd_cache_key d)) (sd_dependencies s)"
proof -
  have "sort (sd_dependencies s) = [] \<longleftrightarrow> sd_dependencies s = []"
    by (metis length_0_conv length_sort)
  moreover have "cached_dep deps i = Some d \<longleftrightarrow> dict_get deps i = Some (Some d)" for i d
    by (auto simp: cached_dep_def split: option.splits)
  ultimately show ?thesis
    by (auto simp: describe_local_stage_inputs supports_dependency list_all_iff)
qed

text \<open>C7: The cache key of a stage separates input states. If the digest has no collisions and
  a cacheable local stage has the same key under two states of its dependencies' caches,
  then every dependency has the same cache key in both states, so a stored output is
  found again only when nothing it was computed from has changed.\<close>

theorem local_key_separates_dependency_states:
  assumes "inj (ce_digest env)" and "cd_cacheable (describe_local_stage env s deps)"
    and "cd_cache_key (describe_local_stage env s deps)
           = cd_cache_key (describe_local_stage env s deps')"
  shows "\<forall>i \<in> set (sd_dependencies s).
    Option.bind (cached_dep deps i) cd_cache_key = Option.bind (cached_dep deps' i) cd_cache_key"
proof -
  have "map (\<lambda>i. dependency_input i (cached_dep deps i)) (sort (sd_dependencies s))
      = map (\<lambda>i. dependency_input i (cached_dep deps' i)) (sort (sd_dependencies s))"
    using assms unfolding describe_local_stage_inputs by (rule from_inputs_inj)
  then have "map ci_freshness_key (map (\<lambda>i. dependency_input i (cached_dep deps i)) (sort (sd_dependencies s)))
      = map ci_freshness_key (map (\<lambda>i. dependency_input i (cached_dep deps' i)) (sort (sd_dependencies s)))"
    by (rule arg_cong)
  then show ?thesis by (simp add: o_def)
qed

subsection \<open>A digest without collisions\<close>

fun kind_code :: "input_kind \<Rightarrow> string" where
  "kind_code CK_DATASET = ''d''" | "kind_code CK_DEPENDENCY = ''p''"

fun policy_code :: "input_policy \<Rightarrow> string" where
  "policy_code CP_REVISION = ''r''" | "policy_code CP_DEPENDENCY = ''d''"
| "policy_code CP_VOLATILE = ''v''" | "policy_code CP_UNKNOWN = ''u''"

definition input_fields :: "cache_input \<Rightarrow> (input_kind \<times> input_policy) \<times> string option list" where
  "input_fields i = ((ci_kind i, ci_policy i),
     [ci_source_id i, ci_table_key i, ci_dataset_id i, ci_dataset_name i,
      ci_canonical_reference i, ci_materialization_mode i, ci_freshness_key i, ci_revision_id i,
      ci_dependency_stage_id i, ci_reason i])"

definition plain_digest :: "cache_input list \<Rightarrow> string" where
  "plain_digest = enc_list (\<lambda>i. enc_pair (enc_pair kind_code policy_code)
     (enc_list (enc_option enc_string)) (input_fields i))"

lemma inj_plain_digest [simp]: "inj plain_digest"
proof -
  have k: "prefix_code kind_code"
    unfolding prefix_code_def by (intro allI, case_tac a; case_tac b) auto
  have p: "prefix_code policy_code"
    unfolding prefix_code_def by (intro allI, case_tac a; case_tac b) auto
  have fields: "inj input_fields"
    by (rule injI) (rule cache_input.equality; simp add: input_fields_def)
  have "prefix_code (enc_pair (enc_pair kind_code policy_code)
      (enc_list (enc_option enc_string)))"
    using k p by (intro prefix_code_pair prefix_code_list prefix_code_option prefix_code_string)
  from prefix_code_list [OF prefix_code_comp [OF this fields]]
  have "prefix_code plain_digest" by (simp add: plain_digest_def)
  then show ?thesis by (rule prefix_code_inj)
qed

definition ex_local :: stage_definition where
  "ex_local = \<lparr>sd_stage_id = ''local'', sd_stage_type = LOCAL_COMPUTE, sd_dependencies = [''a''],
     sd_source_id = None, sd_sql = Some ''SELECT 1'', sd_sql_dialect = Some ''duckdb'',
     sd_subplan = None, sd_retry_limit = 2, sd_metadata = empty_metadata\<rparr>"

definition ex_keyed :: "string \<Rightarrow> cache_descriptor" where
  "ex_keyed k = \<lparr>cd_cacheable = True, cd_cache_key = Some k, cd_inputs = [], cd_reason = None\<rparr>"

definition ex_binding :: "string \<Rightarrow> string \<Rightarrow> table_binding" where
  "ex_binding k src = \<lparr>tb_table_key = k, tb_source_id = src, tb_connector_id = None,
     tb_schema_name = None, tb_table = k, tb_catalog = None, tb_stats = None, tb_metadata = [],
     tb_descriptor = None\<rparr>"

definition ex_workflow :: "table_binding list \<Rightarrow> federation_workflow" where
  "ex_workflow bs = \<lparr>fw_id = ''f'', fw_workspace_id = ''ws'',
     fw_dataset = \<lparr>vd_id = ''d'', vd_workspace_id = ''ws'',
       vd_tables = map (\<lambda>b. (tb_table_key b, b)) bs, vd_stats_overrides = []\<rparr>,
     fw_broadcast_threshold_bytes = 67108864, fw_partition_count = 8, fw_max_stage_retries = 2,
     fw_stage_parallelism = 4\<rparr>"

definition ex_logical_plan :: logical_plan where
  "ex_logical_plan = \<lparr>lp_query_type = QT_SQL, lp_sql = [], lp_from_alias = [], lp_tables = [],
     lp_joins = [], lp_where_sql = None, lp_having_sql = None, lp_group_by_sql = [],
     lp_order_by_sql = [], lp_limit = None, lp_offset = None, lp_has_cte = False\<rparr>"

definition ex_cache_env :: cache_env where
  "ex_cache_env = \<lparr>ce_digest = plain_digest, ce_to_uuid = (\<lambda>_. None),
     ce_workflow = ex_workflow [ex_binding ''orders'' ''db''],
     ce_plan = \<lparr>pp_plan_id = ''p'', pp_logical_plan = ex_logical_plan, pp_stages = [ex_local],
       pp_result_stage_id = ''local'', pp_join_order = [], pp_join_strategies = []\<rparr>\<rparr>"

theorem local_key_separates_dependency_states_witness:
  "list_all (\<lambda>i. Option.bind (cached_dep [(''a'', Some (ex_keyed ''k''))] i) cd_cache_key
       = Option.bind (cached_dep [(''b'', None), (''a'', Some (ex_keyed ''k''))] i) cd_cache_key)
     (sd_dependencies ex_local)"
  unfolding list_all_iff
proof (rule local_key_separates_dependency_states [of ex_cache_env])
  show "inj (ce_digest ex_cache_env)" by (simp add: ex_cache_env_def)
  show "cd_cacheable (describe_local_stage ex_cache_env ex_local [(''a'', Some (ex_keyed ''k''))])"
    by (simp add: describe_local_stage_inputs supports_dependency ex_local_def cached_dep_def
        dict_get_def ex_keyed_def blank_def py_strip_def py_isspace_def)
  show "cd_cache_key (describe_local_stage ex_cache_env ex_local [(''a'', Some (ex_keyed ''k''))])
      = cd_cache_key (describe_local_stage ex_cache_env ex_local
          [(''b'', None), (''a'', Some (ex_keyed ''k''))])"
    by (simp add: describe_local_stage_inputs ex_local_def cached_dep_def dict_get_def)
qed

end
