(* ===== verification/Artifact_Store.thy ===== *)
theory Artifact_Store
  imports Cache_Context
begin

text \<open>
  The content-addressed artifact store (\<open>federation/executor/artifact_store.py\<close>). The
  directory below \<open>base_dir\<close> is a map from paths, lists of non-empty segments, to files: a
  Parquet file with its table or a JSON manifest, new or legacy. Reading a file returns
  what was written (Parquet and JSON round trips are the libraries' contract). What the
  code computes from a table is a record of parameters: the SHA-256 of its Arrow stream in
  hexadecimal, its row count and the size of its Parquet file.
\<close>

named_theorems store_defs \<open>definitions of the artifact store\<close>

record 'tbl table_ops =
  to_content_hash :: "'tbl \<Rightarrow> string"
  to_num_rows :: "'tbl \<Rightarrow> nat"
  to_file_size :: "'tbl \<Rightarrow> nat"

record artifact_manifest =
  am_artifact :: stage_artifact
  am_cache :: "cache_descriptor option"

datatype 'tbl stored_file = Parquet 'tbl | Manifest_Json artifact_manifest | Legacy_Json stage_artifact

type_synonym path = "string list"
type_synonym 'tbl files = "path \<Rightarrow> 'tbl stored_file option"

datatype store_error = File_Not_Found string | Not_A_Manifest | Not_Parquet

section \<open>Paths\<close>

definition safe_segment :: "string \<Rightarrow> string" where
  "safe_segment v = py_replace [CHR 92] ''_'' (py_replace ''/'' ''_'' (py_replace ''..'' ''_'' v))"

text \<open>\<open>pathlib\<close> drops empty segments and single dots when it joins.\<close>

definition path_of :: "string list \<Rightarrow> path" where
  "path_of segs = filter (\<lambda>s. s \<noteq> [] \<and> s \<noteq> ''.'') segs"

definition manifest_path :: "string \<Rightarrow> string \<Rightarrow> string \<Rightarrow> path" where
  "manifest_path workspace plan stage =
     path_of [safe_segment workspace, ''plans'', safe_segment plan, safe_segment stage @ ''.json'']"

definition artifact_path :: "string \<Rightarrow> path" where
  "artifact_path key = path_of (map safe_segment (py_split (CHR ''/'') key))"

definition artifact_key_of :: "string \<Rightarrow> string \<Rightarrow> string" where
  "artifact_key_of workspace hash = workspace @ ''/artifacts/'' @ hash @ ''.parquet''"

section \<open>Operations\<close>

definition parse_manifest :: "'tbl stored_file \<Rightarrow> (store_error, artifact_manifest) result" where
  "parse_manifest f =
     (case f of Manifest_Json m \<Rightarrow> Inr m
      | Legacy_Json a \<Rightarrow> Inr \<lparr>am_artifact = a, am_cache = None\<rparr>
      | Parquet _ \<Rightarrow> Inl Not_A_Manifest)"

definition get_stage_output_manifest ::
  "'tbl files \<Rightarrow> string \<Rightarrow> string \<Rightarrow> string \<Rightarrow> (store_error, artifact_manifest option) result" where
  "get_stage_output_manifest fs workspace plan stage =
     (case fs (manifest_path workspace plan stage) of
        None \<Rightarrow> Inr None
      | Some f \<Rightarrow> bindR (parse_manifest f) (\<lambda>m.
          if fs (artifact_path (sa_artifact_key (am_artifact m))) = None then Inr None
          else Inr (Some m)))"

definition get_cached_stage_output ::
  "'tbl files \<Rightarrow> string \<Rightarrow> string \<Rightarrow> string \<Rightarrow> cache_descriptor option
   \<Rightarrow> (store_error, stage_artifact option) result" where
  "get_cached_stage_output fs workspace plan stage expected =
     bindR (get_stage_output_manifest fs workspace plan stage) (\<lambda>mo.
       case mo of None \<Rightarrow> Inr None
       | Some m \<Rightarrow>
         (case expected of None \<Rightarrow> Inr (Some (am_artifact m))
          | Some e \<Rightarrow>
            if \<not> cd_cacheable e \<or> blank (cd_cache_key e) then Inr None
            else case am_cache m of None \<Rightarrow> Inr None
              | Some p \<Rightarrow>
                if \<not> cd_cacheable p \<or> blank (cd_cache_key p) then Inr None
                else if cd_cache_key p \<noteq> cd_cache_key e then Inr None
                else Inr (Some (am_artifact m))))"

definition file_size :: "'tbl table_ops \<Rightarrow> 'tbl stored_file \<Rightarrow> nat" where
  "file_size ops f = (case f of Parquet t \<Rightarrow> to_file_size ops t | _ \<Rightarrow> 0)"

text \<open>The Parquet file is written only if no file of that content hash is there.\<close>

definition write_stage_output ::
  "'tbl table_ops \<Rightarrow> 'tbl files \<Rightarrow> string \<Rightarrow> string \<Rightarrow> string \<Rightarrow> 'tbl \<Rightarrow> cache_descriptor option
   \<Rightarrow> 'tbl files \<times> stage_artifact" where
  "write_stage_output ops fs workspace plan stage table cache =
     (let hash = to_content_hash ops table;
          key = artifact_key_of workspace hash;
          file = artifact_path key;
          fs1 = (if fs file = None then fs(file \<mapsto> Parquet table) else fs);
          art = \<lparr>sa_stage_id = stage, sa_artifact_key = key, sa_rows = to_num_rows ops table,
                 sa_bytes_written = (case fs1 file of None \<Rightarrow> 0 | Some f \<Rightarrow> file_size ops f),
                 sa_content_hash = hash\<rparr>
      in (fs1(manifest_path workspace plan stage \<mapsto> Manifest_Json \<lparr>am_artifact = art, am_cache = cache\<rparr>),
          art))"

definition read_artifact :: "'tbl files \<Rightarrow> string \<Rightarrow> (store_error, 'tbl) result" where
  "read_artifact fs key =
     (case fs (artifact_path key) of None \<Rightarrow> Inl (File_Not_Found key)
      | Some (Parquet t) \<Rightarrow> Inr t
      | Some _ \<Rightarrow> Inl Not_Parquet)"

definition read_stage_output ::
  "'tbl files \<Rightarrow> string \<Rightarrow> string \<Rightarrow> string \<Rightarrow> (store_error, 'tbl) result" where
  "read_stage_output fs workspace plan stage =
     bindR (get_stage_output_manifest fs workspace plan stage) (\<lambda>mo.
       case mo of None \<Rightarrow> Inl (File_Not_Found stage)
       | Some m \<Rightarrow> read_artifact fs (sa_artifact_key (am_artifact m)))"

section \<open>Paths stay below the base directory\<close>

text \<open>Facts about single-character and double-dot replacement.\<close>

lemma py_replace_Nil [simp]: "old \<noteq> [] \<Longrightarrow> py_replace old new [] = []"
  by (simp add: py_replace.simps)

lemma py_replace_char:
  "py_replace [c] [d] s = map (\<lambda>x. if x = c then d else x) s"
proof (induction s)
  case (Cons x s)
  have "prefix [c] (x # s) \<longleftrightarrow> x = c" by (auto simp: prefix_Cons)
  with Cons show ?case by (simp add: py_replace.simps [of "[c]" "[d]" "x # s"])
qed simp

lemma py_replace_dots_Cons:
  "py_replace ''..'' ''_'' (x # s) =
     (if prefix ''..'' (x # s) then CHR ''_'' # py_replace ''..'' ''_'' (tl s)
      else x # py_replace ''..'' ''_'' s)"
proof -
  have "drop (length ''..'') (x # s) = tl s" by (cases s) simp_all
  note step = this list.distinct if_True if_False append.simps list.sel list.simps(3)
  show ?thesis
  proof (cases "prefix ''..'' (x # s)")
    case True
    show ?thesis by (subst py_replace.simps) (simp only: True step simp_thms)
  next
    case False
    show ?thesis by (subst py_replace.simps) (simp only: False step simp_thms)
  qed
qed

lemma py_replace_dots_free: "\<not> sublist ''..'' (py_replace ''..'' ''_'' s)"
proof -
  let ?r = "py_replace ''..'' ''_''"
  have "\<not> sublist ''..'' (?r s) \<and> (hd (?r s) = CHR ''.'' \<longrightarrow> ?r s \<noteq> [] \<longrightarrow> hd s = CHR ''.'')"
  proof (induction s rule: length_induct)
    case (1 s)
    show ?case
    proof (cases s)
      case (Cons x t)
      show ?thesis
      proof (cases "prefix ''..'' s")
        case True
        then have "length (tl t) < length s" using Cons by simp
        with 1 have "\<not> sublist ''..'' (?r (tl t))" by blast
        with True Cons show ?thesis
          by (auto simp: py_replace_dots_Cons sublist_Cons_right)
      next
        case False
        have IH: "\<not> sublist ''..'' (?r t)" "hd (?r t) = CHR ''.'' \<longrightarrow> ?r t \<noteq> [] \<longrightarrow> hd t = CHR ''.''"
          using 1 Cons by auto
        have "\<not> prefix ''..'' (x # ?r t)"
        proof
          assume "prefix ''..'' (x # ?r t)"
          then have "x = CHR ''.''" "?r t \<noteq> []" "hd (?r t) = CHR ''.''"
            by (auto simp: prefix_Cons prefix_def)
          moreover from this IH(2) have "hd t = CHR ''.''" "t \<noteq> []" by auto
          ultimately show False using False Cons by (cases t) auto
        qed
        with IH False Cons show ?thesis
          by (auto simp: py_replace_dots_Cons sublist_Cons_right)
      qed
    qed simp
  qed
  then show ?thesis by simp
qed

lemma sublist_dots_iff: "sublist ''..'' s \<longleftrightarrow> (\<exists>i. Suc i < length s \<and> s ! i = CHR ''.'' \<and> s ! Suc i = CHR ''.'')"
proof
  assume "sublist ''..'' s"
  then obtain a b where "s = a @ ''..'' @ b" by (auto simp: sublist_def)
  then show "\<exists>i. Suc i < length s \<and> s ! i = CHR ''.'' \<and> s ! Suc i = CHR ''.''"
    by (intro exI [of _ "length a"]) (auto simp: nth_append)
next
  assume "\<exists>i. Suc i < length s \<and> s ! i = CHR ''.'' \<and> s ! Suc i = CHR ''.''"
  then obtain i where i: "Suc i < length s" "s ! i = CHR ''.''" "s ! Suc i = CHR ''.''" by blast
  then have "s = take i s @ ''..'' @ drop (Suc (Suc i)) s"
    by (metis Cons_nth_drop_Suc Suc_lessD append_Cons append_Nil append_take_drop_id)
  then show "sublist ''..'' s" unfolding sublist_def by blast
qed

lemma safe_segment_safe:
  "\<not> sublist ''..'' (safe_segment v) \<and> CHR ''/'' \<notin> set (safe_segment v) \<and> CHR 92 \<notin> set (safe_segment v)"
proof -
  let ?s = "py_replace ''..'' ''_'' v"
  let ?f = "\<lambda>x. if x = CHR 92 then CHR ''_'' else if x = CHR ''/'' then CHR ''_'' else x"
  have seg: "safe_segment v = map ?f ?s"
    by (simp add: safe_segment_def py_replace_char)
  have "\<not> sublist ''..'' (map ?f ?s)"
    using py_replace_dots_free [of v] unfolding sublist_dots_iff by (auto split: if_splits)
  then show ?thesis unfolding seg by auto
qed

text \<open>A segment that names neither the directory above nor crosses into another.\<close>

definition confined :: "path \<Rightarrow> bool" where
  "confined p = (\<forall>s \<in> set p. s \<noteq> [] \<and> s \<noteq> ''.'' \<and> s \<noteq> ''..'' \<and> CHR ''/'' \<notin> set s \<and> CHR 92 \<notin> set s)"

lemma confined_path_of:
  assumes "\<And>s. s \<in> set segs \<Longrightarrow> s \<noteq> ''..'' \<and> CHR ''/'' \<notin> set s \<and> CHR 92 \<notin> set s"
  shows "confined (path_of segs)"
  using assms by (auto simp: confined_def path_of_def)

lemma safe_segment_dots: "safe_segment v \<noteq> ''..''"
  using safe_segment_safe [of v] by (metis sublist_order.order_refl)

lemma safe_segment_seps [simp]:
  "CHR ''/'' \<notin> set (safe_segment v)" "CHR 92 \<notin> set (safe_segment v)"
  using safe_segment_safe [of v] by blast+

text \<open>C11: Whatever the workspace, plan, stage and artifact identifiers are, with slashes,
  backslashes and dot segments included, every manifest path and every artifact path
  stays below the store's base directory: no segment is empty, a single or double dot,
  or contains a separator.\<close>

theorem store_paths_confined:
  "confined (manifest_path workspace plan stage) \<and> confined (artifact_path key)"
proof
  have "length (safe_segment stage @ ''.json'') \<noteq> length ''..''" by simp
  then have "safe_segment stage @ ''.json'' \<noteq> ''..''" by (metis (no_types))
  then show "confined (manifest_path workspace plan stage)"
    unfolding manifest_path_def by (intro confined_path_of) (auto simp: safe_segment_dots)
  show "confined (artifact_path key)"
    unfolding artifact_path_def by (intro confined_path_of) (auto simp: safe_segment_dots)
qed

section \<open>What the store holds\<close>

lemma not_sublist_Cons: "\<not> sublist xs (y # ys) \<Longrightarrow> \<not> sublist xs ys"
  by (simp add: sublist_Cons_right)

lemma py_replace_dots_id: "\<not> sublist ''..'' s \<Longrightarrow> py_replace ''..'' ''_'' s = s"
proof (induction s)
  case (Cons x s)
  then have "\<not> prefix ''..'' (x # s)" by (meson prefix_imp_sublist)
  with Cons not_sublist_Cons [OF Cons.prems] show ?case
    by (simp only: py_replace_dots_Cons if_False simp_thms)
qed simp

lemma safe_segment_id:
  assumes "\<not> sublist ''..'' s" "CHR ''/'' \<notin> set s" "CHR 92 \<notin> set s"
  shows "safe_segment s = s"
  unfolding safe_segment_def py_replace_dots_id [OF assms(1)] py_replace_char
  using assms(2,3) by (auto intro!: map_idI)

definition hash_ok :: "'tbl table_ops \<Rightarrow> bool" where
  "hash_ok ops = (\<forall>t. set (to_content_hash ops t) \<inter> {CHR ''/'', CHR ''.'', CHR 92} = {})"

lemma no_dots: "CHR ''.'' \<notin> set s \<Longrightarrow> \<not> sublist ''..'' (s @ ''.parquet'')"
proof
  assume "CHR ''.'' \<notin> set s" "sublist ''..'' (s @ ''.parquet'')"
  then obtain i where i: "Suc i < length (s @ ''.parquet'')" "(s @ ''.parquet'') ! i = CHR ''.''"
      "(s @ ''.parquet'') ! Suc i = CHR ''.''"
    unfolding sublist_dots_iff by blast
  then have "\<not> i < length s"
    using \<open>CHR ''.'' \<notin> set s\<close> by (metis nth_append nth_mem)
  then obtain k where "i = length s + k" by (metis le_iff_add not_less)
  with i show False
    by (auto simp: nth_append nth_Cons split: nat.splits)
qed

lemma artifact_path_of:
  assumes "hash_ok ops"
  shows "artifact_path (artifact_key_of workspace (to_content_hash ops t))
    = path_of (map safe_segment (py_split (CHR ''/'') workspace))
      @ [''artifacts'', to_content_hash ops t @ ''.parquet'']"
proof -
  let ?h = "to_content_hash ops t @ ''.parquet''"
  have h: "CHR ''/'' \<notin> set ?h" "CHR 92 \<notin> set ?h" "\<not> sublist ''..'' ?h"
    using assms no_dots [of "to_content_hash ops t"] by (auto simp: hash_ok_def)
  have "py_split (CHR ''/'') (artifact_key_of workspace (to_content_hash ops t))
      = py_split (CHR ''/'') workspace @ py_split (CHR ''/'') (''artifacts'' @ CHR ''/'' # ?h)"
    using py_split_Cons_app [of "CHR ''/''" workspace "''artifacts'' @ CHR ''/'' # ?h"]
    by (simp add: artifact_key_of_def)
  also have "py_split (CHR ''/'') (''artifacts'' @ CHR ''/'' # ?h) = [''artifacts'', ?h]"
    using h(1) by (simp only: py_split_Cons_app py_split_plain [OF h(1)]) simp
  finally have split: "py_split (CHR ''/'') (artifact_key_of workspace (to_content_hash ops t))
      = py_split (CHR ''/'') workspace @ [''artifacts'', ?h]" .
  have "\<not> sublist ''..'' ''artifacts''"
    unfolding sublist_dots_iff by (auto simp: nth_Cons split: nat.splits)
  then have "safe_segment ''artifacts'' = ''artifacts''" by (intro safe_segment_id) auto
  moreover have "safe_segment ?h = ?h" using h by (intro safe_segment_id)
  ultimately show ?thesis
    unfolding artifact_path_def split by (auto simp: path_of_def)
qed

lemma last_manifest_path [simp]:
  "last (manifest_path workspace plan stage) = safe_segment stage @ ''.json''"
  by (auto simp: manifest_path_def path_of_def)

text \<open>Files under a Parquet name hold a table of that content hash, the others a manifest.\<close>

definition store_ok :: "'tbl table_ops \<Rightarrow> 'tbl files \<Rightarrow> bool" where
  "store_ok ops fs = (\<forall>p f. fs p = Some f \<longrightarrow>
     (case f of Parquet t \<Rightarrow> last p = to_content_hash ops t @ ''.parquet''
      | _ \<Rightarrow> suffix ''.json'' (last p)))"

lemma json_not_parquet: "suffix ''.json'' s \<Longrightarrow> s \<noteq> h @ ''.parquet''"
  by (auto simp: suffix_def dest!: arg_cong [where f = last])

lemma store_ok_empty [simp]: "store_ok ops (\<lambda>_. None)"
  by (simp add: store_ok_def)

lemma artifact_file:
  assumes "hash_ok ops" "store_ok ops fs"
    and "fs (artifact_path (artifact_key_of workspace (to_content_hash ops t))) = Some f"
  shows "\<exists>t'. f = Parquet t' \<and> to_content_hash ops t' = to_content_hash ops t"
proof -
  have last: "last (artifact_path (artifact_key_of workspace (to_content_hash ops t)))
      = to_content_hash ops t @ ''.parquet''"
    by (simp add: artifact_path_of [OF assms(1)])
  from assms(2,3) have "case f of Parquet t' \<Rightarrow>
      last (artifact_path (artifact_key_of workspace (to_content_hash ops t)))
        = to_content_hash ops t' @ ''.parquet''
      | _ \<Rightarrow> suffix ''.json'' (last (artifact_path (artifact_key_of workspace (to_content_hash ops t))))"
    unfolding store_ok_def by blast
  then show ?thesis unfolding last by (cases f) (auto dest: json_not_parquet)
qed

section \<open>Writing and reading back\<close>

lemma manifest_not_artifact:
  assumes "hash_ok ops"
  shows "artifact_path (artifact_key_of w (to_content_hash ops t)) \<noteq> manifest_path workspace plan stage"
proof
  assume "artifact_path (artifact_key_of w (to_content_hash ops t)) = manifest_path workspace plan stage"
  from arg_cong [OF this, of last]
  have "to_content_hash ops t @ ''.parquet'' = safe_segment stage @ ''.json''"
    by (simp add: artifact_path_of [OF assms])
  then show False using json_not_parquet by (metis suffix_appendI suffix_order.order_refl)
qed

lemma write_store_ok:
  assumes "hash_ok ops" "store_ok ops fs"
  shows "store_ok ops (fst (write_stage_output ops fs workspace plan stage t cache))"
proof -
  have "suffix ''.json'' (safe_segment stage @ ''.json'')" by (simp add: suffix_appendI)
  then show ?thesis
    using assms(2) unfolding write_stage_output_def store_ok_def
    by (auto simp: Let_def artifact_path_of [OF assms(1)] split: if_splits)
qed

lemma write_manifest:
  assumes "hash_ok ops" "store_ok ops fs"
  shows "get_stage_output_manifest (fst (write_stage_output ops fs workspace plan stage t cache))
      workspace plan stage
    = Inr (Some \<lparr>am_artifact = snd (write_stage_output ops fs workspace plan stage t cache), am_cache = cache\<rparr>)"
  using manifest_not_artifact [OF assms(1), of workspace t workspace plan stage]
  by (auto simp: write_stage_output_def get_stage_output_manifest_def parse_manifest_def Let_def)

lemma write_read:
  assumes "hash_ok ops" "store_ok ops fs"
  shows "\<exists>t'. read_stage_output (fst (write_stage_output ops fs workspace plan stage t cache))
      workspace plan stage = Inr t' \<and> to_content_hash ops t' = to_content_hash ops t"
proof -
  let ?p = "artifact_path (artifact_key_of workspace (to_content_hash ops t))"
  have key: "sa_artifact_key (snd (write_stage_output ops fs workspace plan stage t cache))
      = artifact_key_of workspace (to_content_hash ops t)"
    by (simp add: write_stage_output_def Let_def)
  have "\<exists>t'. fst (write_stage_output ops fs workspace plan stage t cache) ?p = Some (Parquet t')
      \<and> to_content_hash ops t' = to_content_hash ops t"
    using artifact_file [OF assms, of workspace t] manifest_not_artifact [OF assms(1)]
    by (auto simp: write_stage_output_def Let_def)
  then show ?thesis
    by (auto simp: read_stage_output_def write_manifest [OF assms] key read_artifact_def)
qed

text \<open>C10: Reading a stage's output right after it was written gives back the written table, for
  any identifiers and any store kept by the operations, if the content hash has no
  collisions: also when another stage, plan or run had stored a table of that content
  before.\<close>

theorem read_after_write:
  assumes "hash_ok ops" "store_ok ops fs" "inj (to_content_hash ops)"
  shows "read_stage_output (fst (write_stage_output ops fs workspace plan stage t cache))
      workspace plan stage = Inr t"
  using write_read [OF assms(1,2)] assms(3) by (metis injD)

text \<open>A write changes nothing that was there but the manifest of its own path.\<close>

lemma write_frame:
  assumes "hash_ok ops" "p \<noteq> manifest_path workspace plan stage" "fs p \<noteq> None"
  shows "fst (write_stage_output ops fs workspace plan stage t cache) p = fs p"
  using assms by (auto simp: write_stage_output_def Let_def)

lemma manifest_Some_iff:
  "get_stage_output_manifest fs workspace plan stage = Inr (Some m) \<longleftrightarrow>
     (\<exists>f. fs (manifest_path workspace plan stage) = Some f \<and> parse_manifest f = Inr m
       \<and> fs (artifact_path (sa_artifact_key (am_artifact m))) \<noteq> None)"
  by (auto simp: get_stage_output_manifest_def bindR_eq_Inr split: option.splits if_splits)

lemma write_keeps_manifest:
  assumes "hash_ok ops" "get_stage_output_manifest fs w p i = Inr (Some m)"
    and "manifest_path w p i \<noteq> manifest_path workspace plan stage"
    and "artifact_path (sa_artifact_key (am_artifact m)) \<noteq> manifest_path workspace plan stage"
  shows "get_stage_output_manifest (fst (write_stage_output ops fs workspace plan stage t cache)) w p i
    = Inr (Some m)"
  using assms(2) write_frame [OF assms(1,3)] write_frame [OF assms(1,4)]
  unfolding manifest_Some_iff by (metis option.distinct(1))

text \<open>For identifiers that need no escaping, different workspaces, plans or stages never
  share a manifest file.\<close>

theorem manifest_paths_distinct:
  assumes "manifest_path w p i = manifest_path w' p' i'"
    and "\<forall>s \<in> {w, p, i, w', p', i'}. safe_segment s = s \<and> s \<noteq> [] \<and> s \<noteq> ''.''"
  shows "w = w' \<and> p = p' \<and> i = i'"
  using assms by (auto simp: manifest_path_def path_of_def)

text \<open>Escaping itself is not injective: workspaces that differ in an escaped character only
  share their manifests.\<close>

lemma manifest_paths_collide: "manifest_path ''a/b'' p i = manifest_path ''a_b'' p i"
proof -
  have "safe_segment ''a/b'' = ''a_b''" "safe_segment ''a_b'' = ''a_b''" by code_simp+
  then show ?thesis by (simp only: manifest_path_def)
qed

lemma cached_output_keyed:
  assumes "get_cached_stage_output fs workspace plan stage (Some e) = Inr (Some art)"
  shows "\<exists>m c. get_stage_output_manifest fs workspace plan stage = Inr (Some m) \<and> am_artifact m = art
    \<and> am_cache m = Some c \<and> cd_cacheable c \<and> cd_cacheable e \<and> \<not> blank (cd_cache_key e)
    \<and> cd_cache_key c = cd_cache_key e"
proof -
  obtain m where m: "get_stage_output_manifest fs workspace plan stage = Inr (Some m)"
    using assms by (auto simp: get_cached_stage_output_def bindR_eq_Inr split: option.splits)
  show ?thesis
    using assms by (cases "am_cache m")
      (auto simp: get_cached_stage_output_def m split: if_splits)
qed

section \<open>A concrete store\<close>

definition ex_ops :: "nat table_ops" where
  "ex_ops = \<lparr>to_content_hash = (\<lambda>n. replicate n (CHR ''a'')), to_num_rows = (\<lambda>n. n),
     to_file_size = (\<lambda>n. 10 * n)\<rparr>"

lemma ex_ops_ok [simp]: "hash_ok ex_ops" "inj (to_content_hash ex_ops)"
  by (auto simp: hash_ok_def ex_ops_def inj_def)

theorem read_after_write_witness:
  "read_stage_output (fst (write_stage_output ex_ops (\<lambda>_. None) ''../w'' ''p'' ''s'' 3 None))
     ''../w'' ''p'' ''s'' = Inr 3"
  by (rule read_after_write) simp_all

theorem manifest_paths_distinct_witness:
  "manifest_path ''w'' ''p'' ''s'' = manifest_path ''w'' ''p'' ''s'' \<and> ''w'' = ''w''"
proof -
  have "\<forall>s \<in> {''w'', ''p'', ''s'', ''w'', ''p'', ''s''}. safe_segment s = s \<and> s \<noteq> [] \<and> s \<noteq> ''.''"
    by code_simp
  from manifest_paths_distinct [OF refl this] show ?thesis by simp
qed

end
