(* ===== verification/Dispatcher_Contract.thy ===== *)
theory Dispatcher_Contract
  imports Stage_Scheduler
begin

text \<open>
  The contract between the stage scheduler and the dispatcher it drives. The provider
  promises an invariant of its store, that a successful attempt leaves the stage's output
  in the store and that the store holds the artifact which the attempt returned from then
  on; the scheduler promises to attempt a stage only when the outputs of
  all its dependencies are there. The client's lemmas lift these one-attempt laws to
  batches, rounds and whole runs, for every interleaving.
\<close>

locale stage_dispatcher =
  fixes disp :: "('st, 'e) dispatcher"
    and inv :: "'st \<Rightarrow> bool"
    and have_out :: "'st \<Rightarrow> string \<Rightarrow> bool"
    and held :: "'st \<Rightarrow> stage_artifact \<Rightarrow> bool"
  assumes inv_kept: "\<lbrakk>inv st; \<forall>d \<in> set (sd_dependencies s). have_out st d\<rbrakk>
      \<Longrightarrow> inv (fst (disp st s))"
    and out_kept: "\<lbrakk>inv st; \<forall>d \<in> set (sd_dependencies s). have_out st d; have_out st i\<rbrakk>
      \<Longrightarrow> have_out (fst (disp st s)) i"
    and held_kept: "\<lbrakk>inv st; \<forall>d \<in> set (sd_dependencies s). have_out st d; held st a\<rbrakk>
      \<Longrightarrow> held (fst (disp st s)) a"
    and out_made: "\<lbrakk>inv st; \<forall>d \<in> set (sd_dependencies s). have_out st d; snd (disp st s) = Inr r\<rbrakk>
      \<Longrightarrow> have_out (fst (disp st s)) (sd_stage_id s)"
    and held_made: "\<lbrakk>inv st; \<forall>d \<in> set (sd_dependencies s). have_out st d; snd (disp st s) = Inr r\<rbrakk>
      \<Longrightarrow> held (fst (disp st s)) (fst r)"
begin

definition deps_out :: "'st \<Rightarrow> stage_definition \<Rightarrow> bool" where
  "deps_out st s = (\<forall>d \<in> set (sd_dependencies s). have_out st d)"

definition grows :: "'st \<Rightarrow> 'st \<Rightarrow> bool" where
  "grows st st' = (inv st' \<and> (\<forall>i. have_out st i \<longrightarrow> have_out st' i)
     \<and> (\<forall>a. held st a \<longrightarrow> held st' a))"

lemma grows_trans: "grows a b \<Longrightarrow> grows b c \<Longrightarrow> grows a c"
  by (simp add: grows_def)

lemma grows_deps: "grows a b \<Longrightarrow> deps_out a s \<Longrightarrow> deps_out b s"
  by (simp add: grows_def deps_out_def)

lemma attempt_contract:
  assumes "inv st" "deps_out st (tk_stage t)" "attempt_task disp st t = (st', r)"
  shows "grows st st'"
    and "r = Inr t' \<Longrightarrow> tk_result t' = Some (a, m) \<Longrightarrow> tk_result t = None
           \<Longrightarrow> have_out st' (sd_stage_id (tk_stage t')) \<and> held st' a"
proof -
  have st': "st' = fst (disp st (tk_stage t))"
    using assms(3) by (auto simp: attempt_task_def split: prod.splits sum.splits if_splits)
  show "grows st st'"
    using assms(1,2) inv_kept out_kept held_kept unfolding st' grows_def deps_out_def by blast
  assume "r = Inr t'" "tk_result t' = Some (a, m)" "tk_result t = None"
  with assms(3) obtain x where x: "snd (disp st (tk_stage t)) = Inr (a, x)" and "tk_stage t' = tk_stage t"
    by (auto simp: attempt_task_def split: prod.splits sum.splits if_splits)
  then show "have_out st' (sd_stage_id (tk_stage t')) \<and> held st' a"
    using assms(1,2) out_made held_made [OF _ _ x] unfolding st' deps_out_def by auto
qed

definition outs_made :: "'st \<Rightarrow> task list \<Rightarrow> bool" where
  "outs_made st ts = (\<forall>t \<in> set ts. \<forall>a m. tk_result t = Some (a, m) \<longrightarrow>
     have_out st (sd_stage_id (tk_stage t)) \<and> held st a)"

lemma outs_made_update:
  assumes "outs_made st ts" "grows st st'"
    and "\<And>a m. tk_result t = Some (a, m) \<Longrightarrow> have_out st' (sd_stage_id (tk_stage t)) \<and> held st' a"
  shows "outs_made st' (ts[i := t])"
proof -
  have "outs_made st' ts" using assms(1,2) by (simp add: outs_made_def grows_def)
  then show ?thesis
    using assms(3) set_update_subset_insert [of ts i t] unfolding outs_made_def by blast
qed

lemma batch_contract:
  "\<lbrakk>run_batch disp ch st ts = (ch', st', r); inv st; \<forall>t \<in> set ts. deps_out st (tk_stage t);
     outs_made st ts\<rbrakk>
   \<Longrightarrow> grows st st' \<and> (\<forall>ts'. r = Inr ts' \<longrightarrow> outs_made st' ts')"
proof (induction ch st ts rule: run_batch_induct [where disp = disp])
  case (batch ch st ts)
  let ?i = "pick ch ts"
  note inv = batch.prems(2) and deps = batch.prems(3) and outs = batch.prems(4)
  have di: "deps_out st (tk_stage (ts ! ?i))" if "unfinished ts \<noteq> []"
    using deps pick_pending [OF that] by simp
  from batch.prems(1) show ?case
  proof (cases rule: run_batch_cases)
    case over
    with inv outs show ?thesis by (simp add: grows_def)
  next
    case (failed e)
    with attempt_contract(1) [OF inv di failed(2)] show ?thesis by simp
  next
    case (more st1 t1)
    note g = attempt_contract(1) [OF inv di [OF more(1)] more(2)]
    have stg: "tk_stage t1 = tk_stage (ts ! ?i)"
      using more(2) by (rule attempt_task_frame)
    have "\<forall>t \<in> set (ts[?i := t1]). deps_out st (tk_stage t)"
      using deps di [OF more(1)] stg set_update_subset_insert [of ts ?i t1] by auto
    then have "\<forall>t \<in> set (ts[?i := t1]). deps_out st1 (tk_stage t)"
      by (blast intro: grows_deps [OF g])
    moreover have "outs_made st1 (ts[?i := t1])"
      using attempt_contract(2) [OF inv di [OF more(1)] more(2) refl _ pick_pending(2) [OF more(1)]]
      by (intro outs_made_update [OF outs g])
    moreover have "inv st1" using g by (simp add: grows_def)
    ultimately show ?thesis
      using batch.IH [OF more(1,2,3)] g by (blast intro: grows_trans)
  qed
qed

lemma outs_made_new [simp]: "outs_made st (map new_task b)"
  by (simp add: outs_made_def new_task_def)

definition arts_held :: "'st \<Rightarrow> (string, stage_artifact) dict \<Rightarrow> bool" where
  "arts_held st arts = (\<forall>i a. dict_get arts i = Some a \<longrightarrow> held st a)"

lemma arts_held_Nil [simp]: "arts_held st []"
  by (simp add: arts_held_def)

lemma arts_held_grows: "arts_held st arts \<Longrightarrow> grows st st' \<Longrightarrow> arts_held st' arts"
  by (auto simp: arts_held_def grows_def)

lemma arts_held_records:
  "\<lbrakk>arts_held st (sc_artifacts s); outs_made st ts\<rbrakk>
   \<Longrightarrow> arts_held st (sc_artifacts (foldl record_task s ts))"
proof (induction ts arbitrary: s)
  case (Cons t ts)
  have "arts_held st (sc_artifacts (record_task s t))"
    using Cons.prems
    by (auto simp: record_task_def arts_held_def outs_made_def split: option.splits)
  then show ?case
    using Cons by (simp add: outs_made_def)
qed simp

lemma batches_contract:
  "\<lbrakk>run_batches disp s bs = (s', r); inv (sc_store s);
     \<forall>b \<in> set bs. \<forall>d \<in> set b. deps_out (sc_store s) d; arts_held (sc_store s) (sc_artifacts s)\<rbrakk>
   \<Longrightarrow> grows (sc_store s) (sc_store s')
     \<and> (r = Inr () \<longrightarrow> (\<forall>b \<in> set bs. \<forall>d \<in> set b. have_out (sc_store s') (sd_stage_id d))
          \<and> arts_held (sc_store s') (sc_artifacts s'))"
proof (induction bs arbitrary: s)
  case Nil
  then show ?case by (auto simp: grows_def)
next
  case (Cons b bs)
  obtain ch st q where rb: "run_batch disp (sc_choices s) (sc_store s) (map new_task b) = (ch, st, q)"
    by (cases "run_batch disp (sc_choices s) (sc_store s) (map new_task b)") auto
  have bc: "grows (sc_store s) st \<and> (\<forall>ts. q = Inr ts \<longrightarrow> outs_made st ts)"
    using Cons.prems by (intro batch_contract [OF rb]) (auto simp: new_task_def)
  show ?case
  proof (cases q)
    case (Inl e)
    with rb Cons.prems(1) bc show ?thesis by auto
  next
    case (Inr ts)
    note set_ts = run_batch_set_stages [OF rb [unfolded Inr]]
    let ?s = "foldl record_task (s\<lparr>sc_choices := ch, sc_store := st\<rparr>) ts"
    have store: "sc_store ?s = st" by (simp add: record_tasks(3) [OF set_ts(2)])
    have "\<forall>t \<in> set ts. have_out st (sd_stage_id (tk_stage t))"
      using bc Inr set_ts(2) by (fastforce simp: outs_made_def)
    then have made: "\<forall>d \<in> set b. have_out st (sd_stage_id d)"
      unfolding set_ts(1) [symmetric] by blast
    have "run_batches disp ?s bs = (s', r)" using Cons.prems(1) rb Inr by simp
    moreover have "inv (sc_store ?s)" using bc store by (simp add: grows_def)
    moreover have "\<forall>b \<in> set bs. \<forall>d \<in> set b. deps_out (sc_store ?s) d"
      using Cons.prems(3) bc store by (auto intro: grows_deps)
    moreover have "arts_held (sc_store ?s) (sc_artifacts ?s)"
      unfolding store using bc Inr Cons.prems(4)
      by (intro arts_held_records) (auto intro: arts_held_grows)
    ultimately have "grows st (sc_store s') \<and> (r = Inr () \<longrightarrow>
        (\<forall>b \<in> set bs. \<forall>d \<in> set b. have_out (sc_store s') (sd_stage_id d))
        \<and> arts_held (sc_store s') (sc_artifacts s'))"
      using Cons.IH [of ?s] store by simp
    with made bc show ?thesis by (auto simp: grows_def intro: grows_trans)
  qed
qed

text \<open>
  Every stage that the scheduler counts as completed has its output in the store, and the
  store holds every artifact that the scheduler has recorded.
\<close>

definition sched_inv :: "'st sched \<Rightarrow> bool" where
  "sched_inv s = (inv (sc_store s) \<and> (\<forall>i \<in> set (sc_completed s). have_out (sc_store s) i)
     \<and> arts_held (sc_store s) (sc_artifacts s))"

lemma ready_deps: "\<lbrakk>sched_inv s; d \<in> set (ready s)\<rbrakk> \<Longrightarrow> deps_out (sc_store s) d"
  by (auto simp: sched_inv_def ready_def deps_out_def)

lemma round_contract:
  assumes "run_batches disp s (chunk (ready s) (nat (max 1 par))) = (s', r)" "sched_inv s"
  shows "grows (sc_store s) (sc_store s')" and "r = Inr () \<Longrightarrow> sched_inv s'"
proof -
  have all: "concat (chunk (ready s) (nat (max 1 par))) = ready s" by simp
  have "\<forall>b \<in> set (chunk (ready s) (nat (max 1 par))). \<forall>d \<in> set b. d \<in> set (ready s)"
    by (blast intro: in_chunk)
  then have "\<forall>b \<in> set (chunk (ready s) (nat (max 1 par))). \<forall>d \<in> set b. deps_out (sc_store s) d"
    using assms(2) by (blast intro: ready_deps)
  then have "grows (sc_store s) (sc_store s') \<and> (r = Inr () \<longrightarrow>
      (\<forall>b \<in> set (chunk (ready s) (nat (max 1 par))). \<forall>d \<in> set b. have_out (sc_store s') (sd_stage_id d))
      \<and> arts_held (sc_store s') (sc_artifacts s'))"
    using batches_contract [OF assms(1)] assms(2) by (simp add: sched_inv_def)
  then have bc: "grows (sc_store s) (sc_store s') \<and> (r = Inr () \<longrightarrow>
      (\<forall>d \<in> set (ready s). have_out (sc_store s') (sd_stage_id d))
      \<and> arts_held (sc_store s') (sc_artifacts s'))"
    using all by (metis UN_E set_concat)
  then show "grows (sc_store s) (sc_store s')" by simp
  assume "r = Inr ()"
  with assms bc show "sched_inv s'"
    using round_completes(2) [of disp s par s'] by (auto simp: sched_inv_def grows_def)
qed

lemma loop_contract:
  "\<lbrakk>sched_loop disp par s = (s', r); sched_inv s\<rbrakk>
   \<Longrightarrow> grows (sc_store s) (sc_store s') \<and> (r = Inr () \<longrightarrow> sched_inv s')"
proof (induction "length (sc_remaining s)" arbitrary: s rule: less_induct)
  case less
  show ?case
  proof (cases "sc_remaining s = [] \<or> ready s = []")
    case True
    with less.prems show ?thesis
      by (auto simp: sched_loop.simps [of disp par s] sched_inv_def grows_def split: if_splits)
  next
    case False
    obtain s1 q where rb: "run_batches disp s (chunk (ready s) (nat (max 1 par))) = (s1, q)"
      by (cases "run_batches disp s (chunk (ready s) (nat (max 1 par)))")
    note rc = round_contract [OF rb less.prems(2)]
    show ?thesis
    proof (cases q)
      case (Inl e)
      with False rb less.prems(1) rc show ?thesis by (simp add: sched_loop.simps [of disp par s])
    next
      case (Inr u)
      then have "sched_loop disp par s1 = (s', r)" "sched_inv s1"
        using False rb less.prems(1) rc by (simp_all add: sched_loop.simps [of disp par s])
      moreover have "length (sc_remaining s1) < length (sc_remaining s)"
        using round_less rb Inr False by blast
      ultimately show ?thesis using less.hyps rc by (blast intro: grows_trans)
    qed
  qed
qed

lemma sched_inv_init: "inv st \<Longrightarrow> sched_inv (init_sched ch st plan)"
  by (simp add: sched_inv_def init_sched_def)

lemma run_contract:
  assumes "inv st" "sched_run disp par ch el st plan = (st', r)"
  shows "grows st st'" and "r = Inr (summ, arts) \<Longrightarrow> arts_held st' arts"
proof -
  obtain s' q where loop: "sched_loop disp par (init_sched ch st plan) = (s', q)"
    by (cases "sched_loop disp par (init_sched ch st plan)")
  note c = loop_contract [OF loop sched_inv_init [OF assms(1)]]
  have init: "sc_store (init_sched ch st plan) = st" by (simp add: init_sched_def)
  show "grows st st'"
    using c assms(2) loop init by (auto simp: sched_run_def split: sum.splits)
  show "r = Inr (summ, arts) \<Longrightarrow> arts_held st' arts"
    using c assms(2) loop by (auto simp: sched_run_def sched_inv_def split: sum.splits)
qed

end

text \<open>
  The stronger contract of a dispatcher that can only fail when an input is missing: on
  stages that are \<open>good\<close>, an attempt whose dependencies' outputs are stored succeeds.
\<close>

locale live_dispatcher = stage_dispatcher disp inv have_out held
  for disp :: "('st, 'e) dispatcher" and inv and have_out and held +
  fixes good :: "stage_definition \<Rightarrow> bool"
  assumes succeeds: "\<lbrakk>inv st; \<forall>d \<in> set (sd_dependencies s). have_out st d; good s\<rbrakk>
      \<Longrightarrow> is_ok (snd (disp st s))"
begin

lemma attempt_live:
  assumes "inv st" "deps_out st (tk_stage t)" "good (tk_stage t)"
  shows "\<exists>st' t'. attempt_task disp st t = (st', Inr t') \<and> tk_result t' \<noteq> None"
proof -
  obtain st' x where "disp st (tk_stage t) = (st', Inr x)"
    using succeeds [OF assms(1) _ assms(3)] assms(2) unfolding deps_out_def is_ok_iff
    by (metis prod.collapse)
  then show ?thesis by (cases x) (simp add: attempt_task_def)
qed

lemma batch_live:
  "\<lbrakk>run_batch disp ch st ts = (ch', st', r); inv st; \<forall>t \<in> set ts. deps_out st (tk_stage t);
     \<forall>t \<in> set ts. good (tk_stage t)\<rbrakk> \<Longrightarrow> is_ok r"
proof (induction ch st ts rule: run_batch_induct [where disp = disp])
  case (batch ch st ts)
  have cur: "ts ! pick ch ts \<in> set ts" if "unfinished ts \<noteq> []"
    using pick_pending [OF that] by simp
  from batch.prems(1) show ?case
  proof (cases rule: run_batch_cases)
    case (failed e)
    with attempt_live [of st "ts ! pick ch ts"] cur batch.prems show ?thesis by auto
  next
    case (more st1 t1)
    have g: "grows st st1"
      using attempt_contract(1) [OF batch.prems(2) _ more(2)] cur [OF more(1)] batch.prems(3) by blast
    have sub: "set (ts[pick ch ts := t1]) \<subseteq> insert t1 (set ts)"
      by (rule set_update_subset_insert)
    have stg: "tk_stage t1 = tk_stage (ts ! pick ch ts)"
      using more(2) by (rule attempt_task_frame)
    have "\<forall>t \<in> insert t1 (set ts). deps_out st (tk_stage t) \<and> good (tk_stage t)"
      using batch.prems(3,4) cur [OF more(1)] stg by auto
    then have "\<forall>t \<in> set (ts[pick ch ts := t1]). deps_out st1 (tk_stage t)"
      and "\<forall>t \<in> set (ts[pick ch ts := t1]). good (tk_stage t)"
      using sub grows_deps [OF g] by blast+
    then show ?thesis
      using batch.IH [OF more(1,2,3)] g by (simp add: grows_def)
  qed simp
qed

lemma batches_live:
  "\<lbrakk>run_batches disp s bs = (s', r); inv (sc_store s);
     \<forall>b \<in> set bs. \<forall>d \<in> set b. deps_out (sc_store s) d \<and> good d\<rbrakk> \<Longrightarrow> r = Inr ()"
proof (induction bs arbitrary: s)
  case (Cons b bs)
  obtain ch st q where rb: "run_batch disp (sc_choices s) (sc_store s) (map new_task b) = (ch, st, q)"
    by (cases "run_batch disp (sc_choices s) (sc_store s) (map new_task b)") auto
  have "is_ok q"
    using Cons.prems by (intro batch_live [OF rb]) (auto simp: new_task_def)
  then obtain ts where Inr: "q = Inr ts" by (auto simp: is_ok_iff)
  have g: "grows (sc_store s) st"
    using Cons.prems by (intro batch_contract [OF rb, THEN conjunct1]) (auto simp: new_task_def)
  let ?s = "foldl record_task (s\<lparr>sc_choices := ch, sc_store := st\<rparr>) ts"
  have store: "sc_store ?s = st"
    by (simp add: record_tasks(3) [OF run_batch_set_stages(2) [OF rb [unfolded Inr]]])
  have "run_batches disp ?s bs = (s', r)" using Cons.prems(1) rb Inr by simp
  moreover have "\<forall>b \<in> set bs. \<forall>d \<in> set b. deps_out (sc_store ?s) d \<and> good d"
    using Cons.prems(3) grows_deps [OF g] store by auto
  ultimately show ?case
    using Cons.IH [of ?s] g store by (simp add: grows_def)
qed simp

lemma loop_live:
  "\<lbrakk>sched_loop disp par s = (s', r); sched_inv s; \<forall>d \<in> set (sc_remaining s). good d;
     orderable (set (sc_completed s)) (sc_remaining s)\<rbrakk> \<Longrightarrow> r = Inr ()"
proof (induction s rule: sched_loop_induct [where disp = disp and par = par])
  case (loop s)
  have "deps_out (sc_store s) d \<and> good d" if "d \<in> set (ready s)" for d
    using that loop.prems(2,3) ready_deps by (simp add: ready_def)
  then have rdy: "\<forall>b \<in> set (chunk (ready s) (nat (max 1 par))). \<forall>d \<in> set b.
      deps_out (sc_store s) d \<and> good d"
    by (blast intro: in_chunk)
  have inv: "inv (sc_store s)" using loop.prems(2) by (simp add: sched_inv_def)
  from loop.prems(1) show ?case
  proof (cases rule: sched_loop_cases)
    case stuck
    with loop.prems(4) orderable_ready show ?thesis by blast
  next
    case (failed e)
    with batches_live [OF failed(3) inv rdy] show ?thesis by simp
  next
    case (round s1)
    have "\<forall>d \<in> set (sc_remaining s1). good d"
      using loop.prems(3) round_completes(1) [OF round(3)] by simp
    then show ?thesis
      using loop.IH [OF round(1,3,2)] round_contract(2) [OF round(3) loop.prems(2)]
        orderable_round [OF round(3) loop.prems(4)] by simp
  qed
qed

text \<open>
  A run over good stages succeeds exactly when its stages can be ordered, whatever the
  interleaving, and then leaves the output of every stage in the store.
\<close>

lemma run_live:
  assumes "inv st" "\<forall>s \<in> set (pp_stages plan). good s" "distinct (stage_ids (pp_stages plan))"
    and "sched_run disp par ch el st plan = (st', r)"
  shows "is_ok r \<longleftrightarrow> orderable {} (pp_stages plan)"
    and "is_ok r \<Longrightarrow> inv st' \<and> (\<forall>s \<in> set (pp_stages plan). have_out st' (sd_stage_id s))"
proof -
  let ?s = "init_sched ch st plan"
  have rem: "sc_remaining ?s = pp_stages plan" "sc_completed ?s = []" "sc_store ?s = st"
    using assms(3) by (simp_all add: init_sched_def stages_by_id_distinct)
  have si: "sched_inv ?s" using assms(1) by (rule sched_inv_init)
  obtain s' q where loop: "sched_loop disp par ?s = (s', q)"
    by (cases "sched_loop disp par ?s")
  have st': "st' = sc_store s'" and ok: "is_ok r \<longleftrightarrow> q = Inr ()"
    using assms(4) loop by (auto simp: sched_run_def split: sum.splits)
  show "is_ok r \<longleftrightarrow> orderable {} (pp_stages plan)"
    using loop_live [OF loop si] finished_orderable [of disp par ?s s'] loop assms(2,3) rem ok by auto
  assume "is_ok r"
  then have "sched_inv s'" "set (sc_completed s') = sd_stage_id ` set (pp_stages plan)"
    using loop_contract [OF loop si] finished_completes [of disp par ?s s'] loop rem ok by auto
  then show "inv st' \<and> (\<forall>s \<in> set (pp_stages plan). have_out st' (sd_stage_id s))"
    using st' by (auto simp: sched_inv_def)
qed

end

section \<open>Watching the dispatcher: the order of the attempts\<close>

text \<open>
  A dispatcher with a log of its attempts, newest first: the stage and whether the attempt
  succeeded. It is a provider of the contract whose "output" is a success in the log.
\<close>

type_synonym attempt_log = "(stage_definition \<times> bool) list"

definition logged :: "('st, 'e) dispatcher \<Rightarrow> (attempt_log \<times> 'st, 'e) dispatcher" where
  "logged disp ls s =
     (case disp (snd ls) s of (st', r) \<Rightarrow> (((s, is_ok r) # fst ls, st'), r))"

definition log_has :: "attempt_log \<Rightarrow> string \<Rightarrow> bool" where
  "log_has l i = ((i, True) \<in> (\<lambda>(s, b). (sd_stage_id s, b)) ` set l)"

fun log_ordered :: "attempt_log \<Rightarrow> bool" where
  "log_ordered [] = True"
| "log_ordered ((s, b) # l) = ((\<forall>d \<in> set (sd_dependencies s). log_has l d) \<and> log_ordered l)"

interpretation watched: stage_dispatcher "logged disp" "\<lambda>ls. log_ordered (fst ls)"
    "\<lambda>ls. log_has (fst ls)" "\<lambda>ls a. True" for disp
  by unfold_locales (auto simp: logged_def log_has_def split: prod.splits)

text \<open>C2: The scheduler attempts a stage only after an attempt of each of its dependencies
  has succeeded: in the log of any run, under any dispatcher, any interleaving of the
  concurrent attempts and any parallelism, every entry comes after successes of all the
  dependencies of its stage, also when the run fails.\<close>

theorem dependencies_attempted_first:
  "log_ordered (fst (fst (sched_run (logged disp) par ch el ([], st) plan)))"
proof -
  let ?s = "init_sched ch ([], st) plan"
  obtain s' q where loop: "sched_loop (logged disp) par ?s = (s', q)"
    by (cases "sched_loop (logged disp) par ?s")
  have "watched.sched_inv ?s" by (rule watched.sched_inv_init) simp
  from watched.loop_contract [OF loop this] show ?thesis
    using loop by (auto simp: sched_run_def watched.grows_def split: sum.splits)
qed

end
