(* ===== verification/Stage_Executor.thy ===== *)
theory Stage_Executor
  imports Artifact_Store Sql_Utils Dispatcher_Contract
begin

text \<open>
  The stage executor (\<open>federation/executor/stage_executor.py\<close>): it describes the cache state
  of a stage, serves its output from the store when the keys agree, and otherwise runs the
  remote source or the local DuckDB query and stores the result. A remote source acts on a
  world of its own and may fail; DuckDB is a function of the SQL text and the registered
  tables. The measured run time is a parameter; the timestamps of the metrics are left out.
\<close>

named_theorems exec_defs \<open>definitions of the executor\<close>

datatype 'e exec_error =
    Missing_Subplan string
  | No_Source string
  | Missing_Sql string
  | Unsupported_Dialect string string
  | Store_Failure store_error
  | Remote_Failure 'e
  | Local_Failure 'e

record ('tbl, 'w, 'e) exec_env =
  xe_ops :: "'tbl table_ops"
  xe_cache :: cache_env
  xe_workspace :: string
  xe_sources :: "(string, source_subplan \<Rightarrow> 'w \<Rightarrow> ('e, 'tbl \<times> nat) result \<times> 'w) dict"
  xe_duckdb :: "string \<Rightarrow> (string \<times> 'tbl) list \<Rightarrow> ('e, 'tbl) result"
  xe_elapsed :: nat

record ('tbl, 'w) exec_state =
  xs_files :: "'tbl files"
  xs_world :: 'w

definition xe_plan :: "('tbl, 'w, 'e) exec_env \<Rightarrow> string" where
  "xe_plan env = pp_plan_id (ce_plan (xe_cache env))"

definition liftS :: "(store_error, 'a) result \<Rightarrow> ('e exec_error, 'a) result" where
  "liftS r = (case r of Inl e \<Rightarrow> Inl (Store_Failure e) | Inr a \<Rightarrow> Inr a)"

definition dependency_caches ::
  "('tbl, 'w, 'e) exec_env \<Rightarrow> 'tbl files \<Rightarrow> stage_definition
   \<Rightarrow> (store_error, (string, cache_descriptor option) dict) result" where
  "dependency_caches env fs s =
     bindR (mapR (\<lambda>i. bindR (get_stage_output_manifest fs (xe_workspace env) (xe_plan env) i)
              (\<lambda>m. Inr (i, Option.bind m am_cache))) (sd_dependencies s))
       (\<lambda>kvs. Inr (dict_update [] kvs))"

definition stage_metrics_of ::
  "('tbl, 'w, 'e) exec_env \<Rightarrow> stage_definition \<Rightarrow> stage_artifact \<Rightarrow> nat option \<Rightarrow> bool \<Rightarrow> stage_metrics" where
  "stage_metrics_of env s art source_ms cached =
     \<lparr>sm_stage_id = sd_stage_id s, sm_attempts = 1, sm_runtime_ms = xe_elapsed env,
      sm_rows = sa_rows art, sm_bytes_written = sa_bytes_written art,
      sm_source_elapsed_ms = source_ms, sm_cached = cached\<rparr>"

definition store_table ::
  "('tbl, 'w, 'e) exec_env \<Rightarrow> ('tbl, 'w) exec_state \<Rightarrow> stage_definition \<Rightarrow> 'tbl \<Rightarrow> cache_descriptor
   \<Rightarrow> nat option \<Rightarrow> ('tbl, 'w) exec_state \<times> ('e exec_error, stage_artifact \<times> stage_metrics) result" where
  "store_table env st s t desc source_ms =
     (let (fs, art) = write_stage_output (xe_ops env) (xs_files st) (xe_workspace env) (xe_plan env)
            (sd_stage_id s) t (Some desc)
      in (st\<lparr>xs_files := fs\<rparr>, Inr (art, stage_metrics_of env s art source_ms False)))"

definition run_remote ::
  "('tbl, 'w, 'e) exec_env \<Rightarrow> ('tbl, 'w) exec_state \<Rightarrow> stage_definition \<Rightarrow> cache_descriptor
   \<Rightarrow> ('tbl, 'w) exec_state \<times> ('e exec_error, stage_artifact \<times> stage_metrics) result" where
  "run_remote env st s desc =
     (case sd_subplan s of
        None \<Rightarrow> (st, Inl (Missing_Subplan (sd_stage_id s)))
      | Some sp \<Rightarrow>
        (case dict_get (xe_sources env) (sp_source_id sp) of
           None \<Rightarrow> (st, Inl (No_Source (sp_source_id sp)))
         | Some source \<Rightarrow>
           (case source sp (xs_world st) of
              (Inl e, w) \<Rightarrow> (st\<lparr>xs_world := w\<rparr>, Inl (Remote_Failure e))
            | (Inr (t, ms), w) \<Rightarrow> store_table env (st\<lparr>xs_world := w\<rparr>) s t desc (Some ms))))"

definition read_inputs ::
  "('tbl, 'w, 'e) exec_env \<Rightarrow> 'tbl files \<Rightarrow> stage_definition
   \<Rightarrow> (store_error, (string \<times> 'tbl) list) result" where
  "read_inputs env fs s =
     mapR (\<lambda>(rel, dep). bindR (read_stage_output fs (xe_workspace env) (xe_plan env) dep)
         (\<lambda>t. Inr (rel, t)))
       (case md_table_inputs (sd_metadata s) of None \<Rightarrow> [] | Some d \<Rightarrow> d)"

definition run_local ::
  "('tbl, 'w, 'e) exec_env \<Rightarrow> ('tbl, 'w) exec_state \<Rightarrow> stage_definition \<Rightarrow> cache_descriptor
   \<Rightarrow> ('tbl, 'w) exec_state \<times> ('e exec_error, stage_artifact \<times> stage_metrics) result" where
  "run_local env st s desc =
     (if \<not> truthy (sd_sql s) then (st, Inl (Missing_Sql (sd_stage_id s)))
      else let dialect = normalize_sql_dialect (sd_sql_dialect s) ''duckdb'' in
        if dialect \<noteq> ''duckdb'' then (st, Inl (Unsupported_Dialect (sd_stage_id s) dialect))
        else case read_inputs env (xs_files st) s of
          Inl e \<Rightarrow> (st, Inl (Store_Failure e))
        | Inr tables \<Rightarrow>
          (case xe_duckdb env (the (sd_sql s)) tables of
             Inl e \<Rightarrow> (st, Inl (Local_Failure e))
           | Inr t \<Rightarrow> store_table env st s t desc None))"

definition execute_stage ::
  "('tbl, 'w, 'e) exec_env \<Rightarrow> ('tbl, 'w) exec_state \<Rightarrow> stage_definition
   \<Rightarrow> ('tbl, 'w) exec_state \<times> ('e exec_error, stage_artifact \<times> stage_metrics) result" where
  "execute_stage env st s =
     (case dependency_caches env (xs_files st) s of
        Inl e \<Rightarrow> (st, Inl (Store_Failure e))
      | Inr deps \<Rightarrow>
        (let desc = describe_stage (xe_cache env) s deps
         in case get_cached_stage_output (xs_files st) (xe_workspace env) (xe_plan env)
                (sd_stage_id s) (Some desc) of
           Inl e \<Rightarrow> (st, Inl (Store_Failure e))
         | Inr (Some art) \<Rightarrow> (st, Inr (art, stage_metrics_of env s art None True))
         | Inr None \<Rightarrow>
           (case sd_stage_type s of
              LOCAL_COMPUTE \<Rightarrow> run_local env st s desc
            | _ \<Rightarrow> run_remote env st s desc)))"

section \<open>The executor's store\<close>

definition keys_ok :: "'tbl files \<Rightarrow> bool" where
  "keys_ok fs = (\<forall>p f m. fs p = Some f \<longrightarrow> parse_manifest f = Inr m \<longrightarrow>
     \<not> suffix ''.json'' (last (artifact_path (sa_artifact_key (am_artifact m)))))"

definition exec_inv :: "('tbl, 'w, 'e) exec_env \<Rightarrow> ('tbl, 'w) exec_state \<Rightarrow> bool" where
  "exec_inv env st = (hash_ok (xe_ops env) \<and> store_ok (xe_ops env) (xs_files st) \<and> keys_ok (xs_files st))"

definition has_output :: "('tbl, 'w, 'e) exec_env \<Rightarrow> ('tbl, 'w) exec_state \<Rightarrow> string \<Rightarrow> bool" where
  "has_output env st i =
     (\<exists>m. get_stage_output_manifest (xs_files st) (xe_workspace env) (xe_plan env) i = Inr (Some m))"

lemma manifest_readable:
  assumes "store_ok ops fs"
  obtains mo where "get_stage_output_manifest fs w p i = Inr mo"
proof (cases "fs (manifest_path w p i)")
  case None
  then show ?thesis using that by (simp add: get_stage_output_manifest_def)
next
  case (Some f)
  have "suffix ''.json'' (last (manifest_path w p i))" by (simp add: suffix_appendI)
  moreover have "case f of Parquet t \<Rightarrow> last (manifest_path w p i) = to_content_hash ops t @ ''.parquet''
      | _ \<Rightarrow> suffix ''.json'' (last (manifest_path w p i))"
    using assms Some unfolding store_ok_def by blast
  ultimately obtain m where "parse_manifest f = Inr m"
    by (cases f) (auto simp: parse_manifest_def dest: json_not_parquet)
  with Some that show ?thesis by (cases "fs (artifact_path (sa_artifact_key (am_artifact m)))")
      (simp_all add: get_stage_output_manifest_def)
qed

lemma manifest_key_ok:
  assumes "keys_ok fs" "get_stage_output_manifest fs w p i = Inr (Some m)"
  shows "artifact_path (sa_artifact_key (am_artifact m)) \<noteq> manifest_path w' p' i'"
proof -
  have "\<not> suffix ''.json'' (last (artifact_path (sa_artifact_key (am_artifact m))))"
    using assms unfolding manifest_Some_iff keys_ok_def by blast
  then show ?thesis by (metis last_manifest_path suffix_appendI suffix_order.order_refl)
qed

lemma output_readable:
  assumes "store_ok ops fs" "keys_ok fs" "get_stage_output_manifest fs w p i = Inr (Some m)"
  obtains t where "read_stage_output fs w p i = Inr t"
proof -
  let ?p = "artifact_path (sa_artifact_key (am_artifact m))"
  obtain f where f: "fs ?p = Some f" using assms(3) unfolding manifest_Some_iff by blast
  have "\<not> suffix ''.json'' (last ?p)"
    using assms(2,3) unfolding manifest_Some_iff keys_ok_def by blast
  moreover have "case f of Parquet t \<Rightarrow> last ?p = to_content_hash ops t @ ''.parquet''
      | _ \<Rightarrow> suffix ''.json'' (last ?p)"
    using assms(1) f unfolding store_ok_def by blast
  ultimately obtain t where "f = Parquet t" by (cases f) auto
  with f that show ?thesis by (simp add: read_stage_output_def assms(3) read_artifact_def)
qed

lemma write_keys_ok:
  assumes "hash_ok ops" "keys_ok fs"
  shows "keys_ok (fst (write_stage_output ops fs w p i t cache))"
proof -
  have "\<not> suffix ''.json'' (to_content_hash ops t @ ''.parquet'')"
    using json_not_parquet by blast
  then show ?thesis
    using assms(2) unfolding write_stage_output_def keys_ok_def
    by (auto simp: Let_def parse_manifest_def artifact_path_of [OF assms(1)])
qed

section \<open>One execution: what it writes\<close>

lemma dependency_caches_total:
  assumes "store_ok (xe_ops env) fs"
  obtains deps where "dependency_caches env fs s = Inr deps"
proof -
  have "is_ok (mapR (\<lambda>i. bindR (get_stage_output_manifest fs (xe_workspace env) (xe_plan env) i)
              (\<lambda>m. Inr (i, Option.bind m am_cache))) (sd_dependencies s))"
    unfolding mapR_is_ok list_all_iff
  proof
    fix i
    obtain mo where "get_stage_output_manifest fs (xe_workspace env) (xe_plan env) i = Inr mo"
      using manifest_readable [OF assms] by blast
    then show "is_ok (bindR (get_stage_output_manifest fs (xe_workspace env) (xe_plan env) i)
              (\<lambda>m. Inr (i, Option.bind m am_cache)))" by simp
  qed
  then show ?thesis using that unfolding dependency_caches_def is_ok_iff by auto
qed

lemma cached_output_total:
  assumes "store_ok ops fs"
  obtains ao where "get_cached_stage_output fs w p i (Some e) = Inr ao"
proof -
  obtain mo where "get_stage_output_manifest fs w p i = Inr mo"
    using manifest_readable [OF assms] by blast
  then have "is_ok (get_cached_stage_output fs w p i (Some e))"
    unfolding get_cached_stage_output_def by (cases mo) (auto split: option.splits)
  then show ?thesis using that by (auto simp: is_ok_iff)
qed

definition wrote ::
  "('tbl, 'w, 'e) exec_env \<Rightarrow> stage_definition \<Rightarrow> 'tbl files \<Rightarrow> 'tbl files \<Rightarrow> stage_artifact \<Rightarrow> bool" where
  "wrote env s fs fs' a = (\<exists>t desc. (fs', a) = write_stage_output (xe_ops env) fs (xe_workspace env)
     (xe_plan env) (sd_stage_id s) t (Some desc))"

definition wrote_or_same ::
  "('tbl, 'w, 'e) exec_env \<Rightarrow> stage_definition \<Rightarrow> 'tbl files \<Rightarrow> 'tbl files
   \<Rightarrow> ('e exec_error, stage_artifact \<times> stage_metrics) result \<Rightarrow> bool" where
  "wrote_or_same env s fs fs' r =
     (case r of Inr (a, m) \<Rightarrow> wrote env s fs fs' a | Inl e \<Rightarrow> fs' = fs)"

lemma store_table_wrote:
  "store_table env st s t desc ms = (st', r) \<Longrightarrow> wrote_or_same env s (xs_files st) (xs_files st') r"
  by (auto simp: store_table_def wrote_or_same_def wrote_def split: prod.splits) metis

lemma run_remote_wrote:
  "run_remote env st s desc = (st', r) \<Longrightarrow> wrote_or_same env s (xs_files st) (xs_files st') r"
  by (auto simp: run_remote_def split: option.splits prod.splits sum.splits dest!: store_table_wrote)
    (auto simp: wrote_or_same_def)

lemma run_local_wrote:
  "run_local env st s desc = (st', r) \<Longrightarrow> wrote_or_same env s (xs_files st) (xs_files st') r"
  by (auto simp: run_local_def Let_def split: sum.splits if_splits dest!: store_table_wrote)
    (auto simp: wrote_or_same_def)

text \<open>
  Every execution either serves a stored output, or fails without touching the files, or
  writes the output of its own stage.
\<close>

lemma execute_stage_cases:
  assumes "execute_stage env st s = (st', r)" "exec_inv env st"
  obtains (hit) art m where "st' = st" "r = Inr (art, stage_metrics_of env s art None True)"
      "get_stage_output_manifest (xs_files st) (xe_workspace env) (xe_plan env) (sd_stage_id s) = Inr (Some m)"
      "am_artifact m = art"
  | (failed) e where "r = Inl e" "xs_files st' = xs_files st"
  | (written) a met where "r = Inr (a, met)" "wrote env s (xs_files st) (xs_files st') a"
proof -
  note ok = assms(2) [unfolded exec_inv_def]
  obtain deps where deps: "dependency_caches env (xs_files st) s = Inr deps"
    using dependency_caches_total ok by blast
  define desc where "desc = describe_stage (xe_cache env) s deps"
  obtain ao where ao: "get_cached_stage_output (xs_files st) (xe_workspace env) (xe_plan env)
      (sd_stage_id s) (Some desc) = Inr ao"
    using cached_output_total ok by blast
  show ?thesis
  proof (cases ao)
    case (Some art)
    then obtain m where "get_stage_output_manifest (xs_files st) (xe_workspace env) (xe_plan env)
        (sd_stage_id s) = Inr (Some m)" "am_artifact m = art"
      using cached_output_keyed ao by blast
    with Some show ?thesis
      using assms(1) hit deps ao by (auto simp: execute_stage_def desc_def)
  next
    case None
    then have run: "(case sd_stage_type s of LOCAL_COMPUTE \<Rightarrow> run_local env st s desc
        | _ \<Rightarrow> run_remote env st s desc) = (st', r)"
      using assms(1) ao unfolding execute_stage_def deps desc_def by (simp add: Let_def)
    then have "wrote_or_same env s (xs_files st) (xs_files st') r"
      by (cases "sd_stage_type s") (auto dest: run_remote_wrote run_local_wrote)
    then show ?thesis using failed written by (cases r) (auto simp: wrote_or_same_def)
  qed
qed

lemma wrote_inv:
  assumes "exec_inv env st" "wrote env s (xs_files st) (xs_files st') a"
  shows "exec_inv env st'" "has_output env st' (sd_stage_id s)"
    and "has_output env st i \<Longrightarrow> has_output env st' i"
proof -
  obtain t desc where w: "xs_files st' = fst (write_stage_output (xe_ops env) (xs_files st)
      (xe_workspace env) (xe_plan env) (sd_stage_id s) t (Some desc))"
    using assms(2) unfolding wrote_def by (metis fst_conv)
  have h: "hash_ok (xe_ops env)" "store_ok (xe_ops env) (xs_files st)" "keys_ok (xs_files st)"
    using assms(1) by (simp_all add: exec_inv_def)
  show "exec_inv env st'"
    using h by (simp add: exec_inv_def w write_store_ok write_keys_ok)
  show made: "has_output env st' (sd_stage_id s)"
    using write_manifest [OF h(1,2)] by (auto simp: has_output_def w)
  assume "has_output env st i"
  then obtain m where m: "get_stage_output_manifest (xs_files st) (xe_workspace env) (xe_plan env) i
      = Inr (Some m)" by (auto simp: has_output_def)
  show "has_output env st' i"
  proof (cases "manifest_path (xe_workspace env) (xe_plan env) i
      = manifest_path (xe_workspace env) (xe_plan env) (sd_stage_id s)")
    case True
    with made show ?thesis by (simp add: has_output_def get_stage_output_manifest_def)
  next
    case False
    from write_keeps_manifest [OF h(1) m False manifest_key_ok [OF h(3) m]] show ?thesis
      by (auto simp: has_output_def w)
  qed
qed

text \<open>The store holds the table of an artifact.\<close>

definition holds_artifact :: "('tbl, 'w, 'e) exec_env \<Rightarrow> ('tbl, 'w) exec_state \<Rightarrow> stage_artifact \<Rightarrow> bool" where
  "holds_artifact env st a = is_ok (read_artifact (xs_files st) (sa_artifact_key a))"

lemma manifest_readable_artifact:
  assumes "exec_inv env st"
    and "get_stage_output_manifest (xs_files st) (xe_workspace env) (xe_plan env) i = Inr (Some m)"
  shows "holds_artifact env st (am_artifact m)"
proof -
  obtain t where "read_stage_output (xs_files st) (xe_workspace env) (xe_plan env) i = Inr t"
    using output_readable assms unfolding exec_inv_def by metis
  then show ?thesis by (simp add: read_stage_output_def assms(2) holds_artifact_def)
qed

lemma wrote_holds:
  assumes "exec_inv env st" "wrote env s (xs_files st) (xs_files st') a"
  shows "holds_artifact env st' a" and "holds_artifact env st b \<Longrightarrow> holds_artifact env st' b"
proof -
  obtain t desc where w: "(xs_files st', a) = write_stage_output (xe_ops env) (xs_files st)
      (xe_workspace env) (xe_plan env) (sd_stage_id s) t (Some desc)"
    using assms(2) by (auto simp: wrote_def)
  have h: "hash_ok (xe_ops env)" "store_ok (xe_ops env) (xs_files st)"
    using assms(1) by (simp_all add: exec_inv_def)
  have a: "a = snd (write_stage_output (xe_ops env) (xs_files st)
      (xe_workspace env) (xe_plan env) (sd_stage_id s) t (Some desc))"
    using w by (metis snd_conv)
  have fs: "xs_files st' = fst (write_stage_output (xe_ops env) (xs_files st)
      (xe_workspace env) (xe_plan env) (sd_stage_id s) t (Some desc))"
    using w by (metis fst_conv)
  from write_read [OF h, of "xe_workspace env" "xe_plan env" "sd_stage_id s" t "Some desc"]
  show "holds_artifact env st' a"
    by (auto simp: read_stage_output_def write_manifest [OF h] fs a holds_artifact_def)
  assume "holds_artifact env st b"
  then obtain u where u: "xs_files st (artifact_path (sa_artifact_key b)) = Some (Parquet u)"
    by (auto simp: holds_artifact_def read_artifact_def split: option.splits stored_file.splits)
  then have "last (artifact_path (sa_artifact_key b)) = to_content_hash (xe_ops env) u @ ''.parquet''"
    using h(2) unfolding store_ok_def by fastforce
  then have "artifact_path (sa_artifact_key b) \<noteq> manifest_path (xe_workspace env) (xe_plan env) (sd_stage_id s)"
    using json_not_parquet by (metis last_manifest_path suffix_appendI suffix_order.order_refl)
  from write_frame [OF h(1) this] u show "holds_artifact env st' b"
    by (simp add: holds_artifact_def read_artifact_def fs)
qed

section \<open>The executor as a dispatcher\<close>

text \<open>A stage that can only fail for want of its inputs.\<close>

definition good_stage :: "('tbl, 'w, 'e) exec_env \<Rightarrow> stage_definition \<Rightarrow> bool" where
  "good_stage env s =
     (case sd_stage_type s of
        LOCAL_COMPUTE \<Rightarrow>
          truthy (sd_sql s) \<and> normalize_sql_dialect (sd_sql_dialect s) ''duckdb'' = ''duckdb''
          \<and> snd ` set (case md_table_inputs (sd_metadata s) of None \<Rightarrow> [] | Some d \<Rightarrow> d)
              \<subseteq> set (sd_dependencies s)
          \<and> (\<forall>tables. is_ok (xe_duckdb env (the (sd_sql s)) tables))
      | _ \<Rightarrow>
          (\<exists>sp source. sd_subplan s = Some sp \<and> dict_get (xe_sources env) (sp_source_id sp) = Some source
            \<and> (\<forall>w. is_ok (fst (source sp w)))))"

lemma run_remote_live:
  assumes "sd_stage_type s \<noteq> LOCAL_COMPUTE" "good_stage env s"
  shows "is_ok (snd (run_remote env st s desc))"
proof -
  obtain sp source where sp: "sd_subplan s = Some sp"
      "dict_get (xe_sources env) (sp_source_id sp) = Some source" "\<forall>w. is_ok (fst (source sp w))"
    using assms by (auto simp: good_stage_def split: stage_type.splits)
  obtain t ms w where "source sp (xs_world st) = (Inr (t, ms), w)"
    using sp(3) unfolding is_ok_iff by (metis prod.exhaust prod.sel(1))
  then show ?thesis
    by (simp add: run_remote_def sp store_table_def split: prod.splits)
qed

lemma run_local_live:
  assumes "sd_stage_type s = LOCAL_COMPUTE" "good_stage env s" "exec_inv env st"
    and "\<forall>d \<in> set (sd_dependencies s). has_output env st d"
  shows "is_ok (snd (run_local env st s desc))"
proof -
  let ?ins = "case md_table_inputs (sd_metadata s) of None \<Rightarrow> [] | Some d \<Rightarrow> d"
  have good: "truthy (sd_sql s)" "normalize_sql_dialect (sd_sql_dialect s) ''duckdb'' = ''duckdb''"
      "snd ` set ?ins \<subseteq> set (sd_dependencies s)" "\<forall>tables. is_ok (xe_duckdb env (the (sd_sql s)) tables)"
    using assms(1,2) by (auto simp: good_stage_def)
  have inputs: "is_ok (read_stage_output (xs_files st) (xe_workspace env) (xe_plan env) (snd x))"
    if "x \<in> set ?ins" for x
  proof -
    have "has_output env st (snd x)" using that good(3) assms(4) by blast
    then show ?thesis
      using assms(3) output_readable unfolding has_output_def exec_inv_def is_ok_iff by metis
  qed
  have "is_ok (read_inputs env (xs_files st) s)"
    unfolding read_inputs_def mapR_is_ok list_all_iff case_prod_beta is_ok_bind
    by (rule ballI) (rule inputs)
  then obtain tables where "read_inputs env (xs_files st) s = Inr tables" by (auto simp: is_ok_iff)
  moreover obtain t where "xe_duckdb env (the (sd_sql s)) tables = Inr t"
    using good(4) by (auto simp: is_ok_iff)
  ultimately show ?thesis
    by (simp add: run_local_def good(1,2) Let_def store_table_def split: prod.splits)
qed

lemma execute_stage_live:
  assumes "exec_inv env st" "\<forall>d \<in> set (sd_dependencies s). has_output env st d" "good_stage env s"
  shows "is_ok (snd (execute_stage env st s))"
proof -
  note ok = assms(1) [unfolded exec_inv_def]
  obtain deps where deps: "dependency_caches env (xs_files st) s = Inr deps"
    using dependency_caches_total ok by blast
  obtain ao where ao: "get_cached_stage_output (xs_files st) (xe_workspace env) (xe_plan env)
      (sd_stage_id s) (Some (describe_stage (xe_cache env) s deps)) = Inr ao"
    using cached_output_total ok by blast
  show ?thesis
    using run_local_live [OF _ assms(3,1,2)] run_remote_live [OF _ assms(3)]
    by (cases "sd_stage_type s") (auto simp: execute_stage_def deps ao Let_def split: option.splits)
qed

lemma execute_stage_frame:
  assumes "execute_stage env st s = (st', r)" "exec_inv env st"
  shows "exec_inv env st'" and "has_output env st i \<Longrightarrow> has_output env st' i"
    and "is_ok r \<Longrightarrow> has_output env st' (sd_stage_id s)"
    and "holds_artifact env st b \<Longrightarrow> holds_artifact env st' b"
    and "r = Inr (a, m) \<Longrightarrow> holds_artifact env st' a"
proof -
  have same: "exec_inv env st' \<and> (has_output env st i \<longrightarrow> has_output env st' i)"
    if "xs_files st' = xs_files st"
    using that assms(2) by (simp add: exec_inv_def has_output_def)
  from assms show "exec_inv env st'"
    by (cases rule: execute_stage_cases) (use same wrote_inv(1) [OF assms(2)] in auto)
  from assms show "has_output env st i \<Longrightarrow> has_output env st' i"
    by (cases rule: execute_stage_cases) (use same wrote_inv(3) [OF assms(2)] in auto)
  from assms show "is_ok r \<Longrightarrow> has_output env st' (sd_stage_id s)"
    by (cases rule: execute_stage_cases) (use wrote_inv(2) [OF assms(2)] in \<open>auto simp: has_output_def\<close>)
  from assms show "holds_artifact env st b \<Longrightarrow> holds_artifact env st' b"
    by (cases rule: execute_stage_cases)
      (use wrote_holds(2) [OF assms(2)] in \<open>auto simp: holds_artifact_def\<close>)
  from assms show "r = Inr (a, m) \<Longrightarrow> holds_artifact env st' a"
    by (cases rule: execute_stage_cases)
      (use wrote_holds(1) [OF assms(2)] manifest_readable_artifact [OF assms(2)] in auto)
qed

interpretation executor: live_dispatcher "execute_stage env" "exec_inv env" "has_output env"
    "holds_artifact env" "good_stage env" for env
proof
  fix st s
  assume inv: "exec_inv env st"
  obtain st' r where ex: "execute_stage env st s = (st', r)" by (cases "execute_stage env st s")
  note frame = execute_stage_frame [OF ex inv]
  show "exec_inv env (fst (execute_stage env st s))" using frame by (simp add: ex)
  show "has_output env st i \<Longrightarrow> has_output env (fst (execute_stage env st s)) i" for i
    using frame by (simp add: ex)
  show "holds_artifact env st a \<Longrightarrow> holds_artifact env (fst (execute_stage env st s)) a" for a
    using frame by (simp add: ex)
  show "snd (execute_stage env st s) = Inr x \<Longrightarrow> has_output env (fst (execute_stage env st s)) (sd_stage_id s)" for x
    using frame by (simp add: ex)
  show "snd (execute_stage env st s) = Inr x \<Longrightarrow> holds_artifact env (fst (execute_stage env st s)) (fst x)" for x
    using frame(5) [of "fst x" "snd x"] by (simp add: ex)
  show "\<forall>d \<in> set (sd_dependencies s). has_output env st d \<Longrightarrow> good_stage env s
      \<Longrightarrow> is_ok (snd (execute_stage env st s))"
    using inv by (rule execute_stage_live)
qed

section \<open>Serving from the cache\<close>

text \<open>C6: An output is served from the cache only if the stored descriptor and the stage's
  current descriptor are both cacheable with the same key; nothing is then executed: the
  files and the remote world are as before.\<close>

theorem cache_hit_needs_equal_keys:
  assumes "execute_stage env st s = (st', Inr (art, met))" "sm_cached met"
  shows "st' = st \<and> (\<exists>deps m c. dependency_caches env (xs_files st) s = Inr deps
    \<and> get_stage_output_manifest (xs_files st) (xe_workspace env) (xe_plan env) (sd_stage_id s) = Inr (Some m)
    \<and> am_artifact m = art \<and> am_cache m = Some c \<and> cd_cacheable c
    \<and> cd_cacheable (describe_stage (xe_cache env) s deps)
    \<and> cd_cache_key c = cd_cache_key (describe_stage (xe_cache env) s deps))"
proof -
  have fresh: "\<not> sm_cached met" if "run_remote env st s d = (st', Inr (art, met)) \<or>
      run_local env st s d = (st', Inr (art, met))" for d
    using that by (auto simp: run_remote_def run_local_def Let_def store_table_def stage_metrics_of_def
        split: option.splits prod.splits sum.splits if_splits)
  obtain deps where deps: "dependency_caches env (xs_files st) s = Inr deps"
    using assms(1) by (auto simp: execute_stage_def split: sum.splits)
  let ?d = "describe_stage (xe_cache env) s deps"
  have "st' = st \<and> get_cached_stage_output (xs_files st) (xe_workspace env) (xe_plan env)
      (sd_stage_id s) (Some ?d) = Inr (Some art)"
    using assms fresh [of ?d] unfolding execute_stage_def deps
    by (auto simp: Let_def split: sum.splits option.splits stage_type.splits)
  then show ?thesis using deps cached_output_keyed by blast
qed

text \<open>Executing a remote stage again, right after a success and with a cacheable descriptor,
  returns the same artifact from the cache, without calling the source and without
  changing any file.\<close>

theorem repeated_remote_stage_hits_cache:
  assumes "exec_inv env st" "execute_stage env st s = (st', Inr (art, met))"
    and "sd_stage_type s \<noteq> LOCAL_COMPUTE"
    and "cd_cacheable (describe_remote_stage (xe_cache env) s)"
    and "\<not> blank (cd_cache_key (describe_remote_stage (xe_cache env) s))"
  shows "execute_stage env st' s = (st', Inr (art, stage_metrics_of env s art None True))"
proof -
  let ?d = "describe_remote_stage (xe_cache env) s"
  have desc: "describe_stage (xe_cache env) s deps = ?d" for deps
    using assms(3) by (cases "sd_stage_type s") (auto simp: describe_stage_def)
  have inv': "exec_inv env st'"
    by (rule execute_stage_frame(1) [OF assms(2,1)])
  obtain deps where deps: "dependency_caches env (xs_files st) s = Inr deps"
    using assms(2) by (auto simp: execute_stage_def split: sum.splits)
  have "get_cached_stage_output (xs_files st') (xe_workspace env) (xe_plan env)
      (sd_stage_id s) (Some ?d) = Inr (Some art)"
  proof (cases "get_cached_stage_output (xs_files st) (xe_workspace env) (xe_plan env)
      (sd_stage_id s) (Some ?d)")
    case (Inl e)
    with assms(2) deps desc show ?thesis by (simp add: execute_stage_def Let_def)
  next
    case (Inr ao)
    show ?thesis
    proof (cases ao)
      case (Some a)
      with Inr assms(2) deps desc show ?thesis by (simp add: execute_stage_def Let_def)
    next
      case None
      then have "run_remote env st s ?d = (st', Inr (art, met))"
        using Inr assms(2,3) deps desc by (cases "sd_stage_type s") (simp_all add: execute_stage_def Let_def)
      then obtain t where w: "write_stage_output (xe_ops env) (xs_files st) (xe_workspace env) (xe_plan env)
          (sd_stage_id s) t (Some ?d) = (xs_files st', art)"
        by (auto simp: run_remote_def store_table_def split: option.splits prod.splits sum.splits)
      have "hash_ok (xe_ops env)" "store_ok (xe_ops env) (xs_files st)"
        using assms(1) by (simp_all add: exec_inv_def)
      from write_manifest [OF this, of "xe_workspace env" "xe_plan env" "sd_stage_id s" t "Some ?d"] w
      show ?thesis using assms(4,5) by (simp add: get_cached_stage_output_def)
    qed
  qed
  moreover obtain deps' where "dependency_caches env (xs_files st') s = Inr deps'"
    using dependency_caches_total inv' unfolding exec_inv_def by blast
  ultimately show ?thesis by (simp add: execute_stage_def desc Let_def)
qed

section \<open>A concrete environment\<close>

definition ex_subplan :: "string \<Rightarrow> source_subplan" where
  "ex_subplan a = \<lparr>sp_stage_id = ''scan_'' @ a, sp_source_id = ''db'', sp_alias = a,
     sp_table_key = ''orders'', sp_sql = Some ''SELECT * FROM orders'', sp_resource = None,
     sp_projected_columns = [], sp_pushed_filters = [], sp_pushed_limit = None,
     sp_estimated_rows = None, sp_estimated_bytes = None\<rparr>"

definition ex_scan :: stage_definition where
  "ex_scan = \<lparr>sd_stage_id = ''scan_o'', sd_stage_type = REMOTE_SCAN, sd_dependencies = [],
     sd_source_id = Some ''db'', sd_sql = None, sd_sql_dialect = None,
     sd_subplan = Some (ex_subplan ''o''), sd_retry_limit = 2, sd_metadata = empty_metadata\<rparr>"

definition ex_fresh_binding :: table_binding where
  "ex_fresh_binding = (ex_binding ''orders'' ''db'')
     \<lparr>tb_metadata := [(''cache_freshness_key'', M_str ''rev-7'')]\<rparr>"

definition ex_env :: "(nat, nat, string) exec_env" where
  "ex_env = \<lparr>xe_ops = ex_ops,
     xe_cache = ex_cache_env\<lparr>ce_workflow := ex_workflow [ex_fresh_binding]\<rparr>,
     xe_workspace = ''ws'', xe_sources = [(''db'', \<lambda>sp calls. (Inr (3, 12), Suc calls))],
     xe_duckdb = (\<lambda>sql tables. Inr (length tables)), xe_elapsed = 5\<rparr>"

definition ex_state :: "(nat, nat) exec_state" where
  "ex_state = \<lparr>xs_files = (\<lambda>_. None), xs_world = 0\<rparr>"

lemma ex_state_inv [simp]: "exec_inv ex_env ex_state"
  by (simp add: exec_inv_def ex_env_def ex_state_def keys_ok_def)

lemma ex_first_run:
  obtains st art met where "execute_stage ex_env ex_state ex_scan = (st, Inr (art, met))"
proof -
  have "is_ok (snd (execute_stage ex_env ex_state ex_scan))" by code_simp
  then show ?thesis using that by (metis is_ok_iff prod.collapse)
qed

lemma ex_cacheable:
  "cd_cacheable (describe_remote_stage (xe_cache ex_env) ex_scan)"
  "\<not> blank (cd_cache_key (describe_remote_stage (xe_cache ex_env) ex_scan))"
  by code_simp+

theorem repeated_remote_stage_hits_cache_witness:
  "\<exists>st art met. execute_stage ex_env ex_state ex_scan = (st, Inr (art, met))
     \<and> execute_stage ex_env st ex_scan = (st, Inr (art, stage_metrics_of ex_env ex_scan art None True))"
proof -
  obtain st art met where r: "execute_stage ex_env ex_state ex_scan = (st, Inr (art, met))"
    using ex_first_run .
  have "sd_stage_type ex_scan \<noteq> LOCAL_COMPUTE" by (simp add: ex_scan_def)
  from repeated_remote_stage_hits_cache [OF ex_state_inv r this ex_cacheable] r show ?thesis by blast
qed

text \<open>A store in which the scan's output lies under its current key.\<close>

definition ex_stored :: "(nat, nat) exec_state" where
  "ex_stored = ex_state\<lparr>xs_files := fst (write_stage_output ex_ops (\<lambda>_. None) ''ws'' ''p'' ''scan_o'' 3
     (Some (describe_remote_stage (xe_cache ex_env) ex_scan)))\<rparr>"

theorem cache_hit_needs_equal_keys_witness:
  "\<exists>st art met. execute_stage ex_env ex_stored ex_scan = (st, Inr (art, met)) \<and> st = ex_stored"
proof -
  have c: "case execute_stage ex_env ex_stored ex_scan of (st, Inl e) \<Rightarrow> False
      | (st, Inr (art, met)) \<Rightarrow> sm_cached met" by code_simp
  then obtain st art met where r: "execute_stage ex_env ex_stored ex_scan = (st, Inr (art, met))"
      "sm_cached met"
    by (auto split: prod.splits sum.splits)
  from cache_hit_needs_equal_keys [OF this] r(1) show ?thesis by blast
qed

end
