(* ===== verification/Federated_Service.thy ===== *)
theory Federated_Service
  imports Federated_Planner Stage_Executor
begin

text \<open>
  The federated query service (\<open>federation/service.py\<close>): registration of workspaces,
  execution of a query from planning to a result handle, the runtime statistics that an
  execution feeds back into planning, and the resolution of handles. The service owns the
  dictionaries of its instance, the statistics registry of its planner and the artifact
  store. The random handle id, the run time and the interleaving of concurrent stages are
  arguments of \<open>execute\<close>.
\<close>

record ('tbl, 'w, 'e) remote_source =
  rs_dialect :: string
  rs_execute :: "source_subplan \<Rightarrow> 'w \<Rightarrow> ('e, 'tbl \<times> nat) result \<times> 'w"

record ('tbl, 'w, 'e, 'm) service =
  fs_workflows :: "(string, federation_workflow) dict"
  fs_sources :: "(string, (string, ('tbl, 'w, 'e) remote_source) dict) dict"
  fs_models :: "(string, 'm) dict"
  fs_results :: "(string, result_handle) dict"
  fs_stats :: stats_store
  fs_exec :: "('tbl, 'w) exec_state"

datatype 'q query = Q_Sql string | Q_Smq 'q

datatype 'e service_error =
    Workspace_Mismatch
  | Unknown_Workflow string
  | Unknown_Sources string
  | No_Semantic_Model string
  | Not_Compiled 'e
  | Not_Planned plan_error
  | Not_Run "'e exec_error sched_error"
  | No_Result_Artifact string
  | Unknown_Handle string
  | Not_Readable store_error

text \<open>What the service is built on: the planner's parameters, the store's table operations, the
  cache digest, DuckDB and the semantic compiler.\<close>

record ('tbl, 'e, 'x, 'm, 'q) service_env =
  se_plan :: "'x plan_env"
  se_ops :: "'tbl table_ops"
  se_digest :: "cache_input list \<Rightarrow> string"
  se_to_uuid :: "string \<Rightarrow> uuid option"
  se_duckdb :: "string \<Rightarrow> (string \<times> 'tbl) list \<Rightarrow> ('e, 'tbl) result"
  se_compile :: "'m \<Rightarrow> 'q \<Rightarrow> string \<Rightarrow> ('e, string) result"
  se_elapsed :: nat

section \<open>Operations\<close>

definition register_workspace ::
  "('tbl, 'w, 'e, 'm) service \<Rightarrow> string \<Rightarrow> federation_workflow
   \<Rightarrow> (string, ('tbl, 'w, 'e) remote_source) dict \<Rightarrow> 'm option
   \<Rightarrow> ('e service_error, ('tbl, 'w, 'e, 'm) service) result" where
  "register_workspace sv w flow sources model =
     (if fw_workspace_id flow \<noteq> w then Inl Workspace_Mismatch
      else Inr (sv
        \<lparr>fs_workflows := dict_set (fs_workflows sv) w flow,
         fs_sources := dict_set (fs_sources sv) w sources,
         fs_models := (case model of None \<Rightarrow> fs_models sv | Some m \<Rightarrow> dict_set (fs_models sv) w m)\<rparr>))"

definition require_workflow ::
  "('tbl, 'w, 'e, 'm) service \<Rightarrow> string \<Rightarrow> ('e service_error, federation_workflow) result" where
  "require_workflow sv w =
     (case dict_get (fs_workflows sv) w of None \<Rightarrow> Inl (Unknown_Workflow w) | Some f \<Rightarrow> Inr f)"

definition require_sources ::
  "('tbl, 'w, 'e, 'm) service \<Rightarrow> string
   \<Rightarrow> ('e service_error, (string, ('tbl, 'w, 'e) remote_source) dict) result" where
  "require_sources sv w =
     (case dict_get (fs_sources sv) w of None \<Rightarrow> Inl (Unknown_Sources w) | Some d \<Rightarrow> Inr d)"

definition source_dialects ::
  "(string, ('tbl, 'w, 'e) remote_source) dict \<Rightarrow> (string, string) dict" where
  "source_dialects sources = map (\<lambda>(i, s). (i, rs_dialect s)) sources"

text \<open>The planning part of \<open>execute\<close> and \<open>explain\<close>; it may change the statistics registry.\<close>

definition plan_for ::
  "('tbl, 'e, 'x, 'm, 'q) service_env \<Rightarrow> ('tbl, 'w, 'e, 'm) service \<Rightarrow> 'q query \<Rightarrow> string \<Rightarrow> string
   \<Rightarrow> federation_workflow \<Rightarrow> (string, string) dict
   \<Rightarrow> stats_store \<times> ('e service_error, physical_plan) result" where
  "plan_for env sv q dialect w flow dialects =
     (case q of
        Q_Sql sql \<Rightarrow>
          (case plan_sql (se_plan env) (fs_stats sv) sql dialect flow dialects ''duckdb'' of
             (ss, Inl e) \<Rightarrow> (ss, Inl (Not_Planned e)) | (ss, Inr pp) \<Rightarrow> (ss, Inr pp))
      | Q_Smq smq \<Rightarrow>
          (case dict_get (fs_models sv) w of
             None \<Rightarrow> (fs_stats sv, Inl (No_Semantic_Model w))
           | Some m \<Rightarrow>
               (case plan_smq (se_compile env) (se_plan env) (fs_stats sv) m smq dialect flow dialects ''duckdb'' of
                  (ss, Inl (Inl e)) \<Rightarrow> (ss, Inl (Not_Compiled e))
                | (ss, Inl (Inr e)) \<Rightarrow> (ss, Inl (Not_Planned e))
                | (ss, Inr pp) \<Rightarrow> (ss, Inr pp))))"

definition exec_env_of ::
  "('tbl, 'e, 'x, 'm, 'q) service_env \<Rightarrow> string \<Rightarrow> federation_workflow
   \<Rightarrow> (string, ('tbl, 'w, 'e) remote_source) dict \<Rightarrow> physical_plan \<Rightarrow> ('tbl, 'w, 'e) exec_env" where
  "exec_env_of env w flow sources pp =
     \<lparr>xe_ops = se_ops env,
      xe_cache = \<lparr>ce_digest = se_digest env, ce_to_uuid = se_to_uuid env, ce_workflow = flow, ce_plan = pp\<rparr>,
      xe_workspace = w, xe_sources = map (\<lambda>(i, s). (i, rs_execute s)) sources,
      xe_duckdb = se_duckdb env, xe_elapsed = se_elapsed env\<rparr>"

text \<open>\<open>_record_runtime_stats\<close>: every stage with a subplan reports the rows and bytes of its
  artifact as the statistics of the subplan's table.\<close>

definition record_stage_stats ::
  "string \<Rightarrow> (string, stage_artifact) dict \<Rightarrow> stats_store \<Rightarrow> stage_definition \<Rightarrow> stats_store" where
  "record_stage_stats w arts ss s =
     (case sd_subplan s of None \<Rightarrow> ss
      | Some sp \<Rightarrow> (case dict_get arts (sd_stage_id s) of None \<Rightarrow> ss
        | Some a \<Rightarrow> if sa_rows a = 0 then ss
          else stats_upsert ss w (sp_table_key sp)
            \<lparr>ts_row_count_estimate = Some (of_nat (sa_rows a)),
             ts_bytes_per_row = of_nat (sa_bytes_written a) / of_nat (max (sa_rows a) 1)\<rparr>))"

definition record_runtime_stats ::
  "stats_store \<Rightarrow> string \<Rightarrow> physical_plan \<Rightarrow> (string, stage_artifact) dict \<Rightarrow> stats_store" where
  "record_runtime_stats ss w pp arts = foldl (record_stage_stats w arts) ss (pp_stages pp)"

definition result_handle_of ::
  "string \<Rightarrow> string \<Rightarrow> physical_plan \<Rightarrow> stage_artifact \<Rightarrow> execution_summary \<Rightarrow> result_handle" where
  "result_handle_of i w pp a summ =
     \<lparr>rh_handle_id = i, rh_workspace_id = w, rh_plan_id = pp_plan_id pp,
      rh_result_stage_id = pp_result_stage_id pp, rh_artifact_key = sa_artifact_key a,
      rh_execution = summ\<rparr>"

definition run_plan ::
  "('tbl, 'e, 'x, 'm, 'q) service_env \<Rightarrow> ('tbl, 'w, 'e, 'm) service \<Rightarrow> string \<Rightarrow> federation_workflow
   \<Rightarrow> (string, ('tbl, 'w, 'e) remote_source) dict \<Rightarrow> physical_plan \<Rightarrow> nat list \<Rightarrow> nat \<Rightarrow> string
   \<Rightarrow> ('tbl, 'w, 'e, 'm) service \<times> ('e service_error, result_handle) result" where
  "run_plan env sv w flow sources pp choices elapsed fresh =
     (case sched_run (execute_stage (exec_env_of env w flow sources pp)) (fw_stage_parallelism flow)
          choices elapsed (fs_exec sv) pp of
        (st, Inl e) \<Rightarrow> (sv\<lparr>fs_exec := st\<rparr>, Inl (Not_Run e))
      | (st, Inr (summ, arts)) \<Rightarrow>
          (case dict_get arts (pp_result_stage_id pp) of
             None \<Rightarrow> (sv\<lparr>fs_exec := st\<rparr>, Inl (No_Result_Artifact (pp_result_stage_id pp)))
           | Some a \<Rightarrow>
               (let h = result_handle_of fresh w pp a summ
                in (sv\<lparr>fs_exec := st, fs_results := dict_set (fs_results sv) fresh h,
                       fs_stats := record_runtime_stats (fs_stats sv) w pp arts\<rparr>, Inr h))))"

definition execute ::
  "('tbl, 'e, 'x, 'm, 'q) service_env \<Rightarrow> ('tbl, 'w, 'e, 'm) service \<Rightarrow> 'q query \<Rightarrow> string \<Rightarrow> string
   \<Rightarrow> nat list \<Rightarrow> nat \<Rightarrow> string
   \<Rightarrow> ('tbl, 'w, 'e, 'm) service \<times> ('e service_error, result_handle) result" where
  "execute env sv q dialect w choices elapsed fresh =
     (case require_workflow sv w of Inl e \<Rightarrow> (sv, Inl e)
      | Inr flow \<Rightarrow>
        (case require_sources sv w of Inl e \<Rightarrow> (sv, Inl e)
         | Inr sources \<Rightarrow>
           (case plan_for env sv q dialect w flow (source_dialects sources) of
              (ss, Inl e) \<Rightarrow> (sv\<lparr>fs_stats := ss\<rparr>, Inl e)
            | (ss, Inr pp) \<Rightarrow> run_plan env (sv\<lparr>fs_stats := ss\<rparr>) w flow sources pp choices elapsed fresh)))"

definition explain ::
  "('tbl, 'e, 'x, 'm, 'q) service_env \<Rightarrow> ('tbl, 'w, 'e, 'm) service \<Rightarrow> 'q query \<Rightarrow> string \<Rightarrow> string
   \<Rightarrow> ('tbl, 'w, 'e, 'm) service \<times> ('e service_error, logical_plan \<times> physical_plan) result" where
  "explain env sv q dialect w =
     (case require_workflow sv w of Inl e \<Rightarrow> (sv, Inl e)
      | Inr flow \<Rightarrow>
        (case require_sources sv w of Inl e \<Rightarrow> (sv, Inl e)
         | Inr sources \<Rightarrow>
           (case plan_for env sv q dialect w flow (source_dialects sources) of
              (ss, Inl e) \<Rightarrow> (sv\<lparr>fs_stats := ss\<rparr>, Inl e)
            | (ss, Inr pp) \<Rightarrow> (sv\<lparr>fs_stats := ss\<rparr>, Inr (pp_logical_plan pp, pp)))))"

definition resolve_result_handle ::
  "('tbl, 'w, 'e, 'm) service \<Rightarrow> string \<Rightarrow> ('e service_error, result_handle) result" where
  "resolve_result_handle sv i =
     (case dict_get (fs_results sv) i of None \<Rightarrow> Inl (Unknown_Handle i) | Some h \<Rightarrow> Inr h)"

definition fetch_arrow ::
  "('tbl, 'w, 'e, 'm) service \<Rightarrow> string \<Rightarrow> ('e service_error, 'tbl) result" where
  "fetch_arrow sv i =
     bindR (resolve_result_handle sv i) (\<lambda>h.
       case read_artifact (xs_files (fs_exec sv)) (rh_artifact_key h) of
         Inl e \<Rightarrow> Inl (Not_Readable e) | Inr t \<Rightarrow> Inr t)"

section \<open>Handles and their results\<close>

definition service_inv :: "('tbl, 'e, 'x, 'm, 'q) service_env \<Rightarrow> ('tbl, 'w, 'e, 'm) service \<Rightarrow> bool" where
  "service_inv env sv =
     (hash_ok (se_ops env) \<and> store_ok (se_ops env) (xs_files (fs_exec sv)) \<and> keys_ok (xs_files (fs_exec sv))
      \<and> (\<forall>i h. dict_get (fs_results sv) i = Some h \<longrightarrow>
           is_ok (read_artifact (xs_files (fs_exec sv)) (rh_artifact_key h))))"

lemma exec_inv_env:
  "exec_inv (exec_env_of env w flow sources pp) st \<longleftrightarrow>
     hash_ok (se_ops env) \<and> store_ok (se_ops env) (xs_files st) \<and> keys_ok (xs_files st)"
  by (simp add: exec_inv_def exec_env_of_def)

lemma holds_read:
  "holds_artifact env st a \<longleftrightarrow> is_ok (read_artifact (xs_files st) (sa_artifact_key a))"
  by (simp add: holds_artifact_def)

lemma fetch_ok:
  "is_ok (fetch_arrow sv i) \<longleftrightarrow> (\<exists>h. dict_get (fs_results sv) i = Some h
     \<and> is_ok (read_artifact (xs_files (fs_exec sv)) (rh_artifact_key h)))"
  by (auto simp: fetch_arrow_def resolve_result_handle_def split: option.splits sum.splits)

text \<open>A run keeps every file that a handle may refer to.\<close>

lemma run_keeps_readable:
  assumes "service_inv env sv"
    and "sched_run (execute_stage (exec_env_of env w flow sources pp)) par choices elapsed (fs_exec sv) pp = (st, r)"
  shows "exec_inv (exec_env_of env w flow sources pp) st"
    and "is_ok (read_artifact (xs_files (fs_exec sv)) key) \<Longrightarrow> is_ok (read_artifact (xs_files st) key)"
    and "r = Inr (summ, arts) \<Longrightarrow> dict_get arts i = Some a \<Longrightarrow> is_ok (read_artifact (xs_files st) (sa_artifact_key a))"
proof -
  let ?env = "exec_env_of env w flow sources pp"
  have inv: "exec_inv ?env (fs_exec sv)"
    using assms(1) by (simp add: service_inv_def exec_inv_env)
  note g = executor.run_contract [OF inv assms(2)]
  show "exec_inv ?env st" using g(1) by (simp add: executor.grows_def)
  have "holds_artifact ?env (fs_exec sv) a \<longrightarrow> holds_artifact ?env st a" for a
    using g(1) by (simp add: executor.grows_def)
  from this [of "\<lparr>sa_stage_id = [], sa_artifact_key = key, sa_rows = 0, sa_bytes_written = 0, sa_content_hash = []\<rparr>"]
  show "is_ok (read_artifact (xs_files (fs_exec sv)) key) \<Longrightarrow> is_ok (read_artifact (xs_files st) key)"
    by (simp add: holds_read)
  show "r = Inr (summ, arts) \<Longrightarrow> dict_get arts i = Some a \<Longrightarrow> is_ok (read_artifact (xs_files st) (sa_artifact_key a))"
    using g(2) by (simp add: executor.arts_held_def holds_read)
qed

lemma run_plan_keeps:
  assumes "service_inv env sv" "run_plan env sv w flow sources pp choices elapsed fresh = (sv', r)"
  shows "service_inv env sv' \<and> (\<forall>i. is_ok (fetch_arrow sv i) \<longrightarrow> is_ok (fetch_arrow sv' i))
    \<and> (\<forall>h. r = Inr h \<longrightarrow> resolve_result_handle sv' (rh_handle_id h) = Inr h)"
proof -
  obtain st q where run: "sched_run (execute_stage (exec_env_of env w flow sources pp))
      (fw_stage_parallelism flow) choices elapsed (fs_exec sv) pp = (st, q)"
    by (cases "sched_run (execute_stage (exec_env_of env w flow sources pp))
      (fw_stage_parallelism flow) choices elapsed (fs_exec sv) pp")
  note k = run_keeps_readable [OF assms(1) run]
  have store: "hash_ok (se_ops env)" "store_ok (se_ops env) (xs_files st)" "keys_ok (xs_files st)"
    using k(1) by (simp_all add: exec_inv_env)
  have old: "is_ok (read_artifact (xs_files st) (rh_artifact_key h))" if "dict_get (fs_results sv) i = Some h" for i h
    using that assms(1) k(2) by (simp add: service_inv_def)
  have same: ?thesis if "fs_results sv' = fs_results sv" "fs_exec sv' = st" "\<forall>h. r \<noteq> Inr h"
    using that old k(2) store by (auto simp: service_inv_def fetch_ok)
  show ?thesis
  proof (cases q)
    case (Inl e)
    with assms(2) run show ?thesis by (intro same) (auto simp: run_plan_def)
  next
    case (Inr res)
    obtain summ arts where res: "res = (summ, arts)" by (cases res)
    show ?thesis
    proof (cases "dict_get arts (pp_result_stage_id pp)")
      case None
      with assms(2) run Inr res show ?thesis by (intro same) (auto simp: run_plan_def)
    next
      case (Some a)
      let ?h = "result_handle_of fresh w pp a summ"
      have sv': "fs_results sv' = dict_set (fs_results sv) fresh ?h" "fs_exec sv' = st" "r = Inr ?h"
        using assms(2) run Inr res Some by (auto simp: run_plan_def Let_def)
      have new: "is_ok (read_artifact (xs_files st) (rh_artifact_key ?h))"
        using k(3) [OF _ Some] Inr res by (simp add: result_handle_of_def)
      have id: "rh_handle_id ?h = fresh" by (simp add: result_handle_of_def)
      show ?thesis
        using store old new sv' by (auto simp: service_inv_def fetch_ok resolve_result_handle_def id)
    qed
  qed
qed

text \<open>C3: whatever happens during a query, every handle that could be fetched before can still be
  fetched; a query that succeeds returns a handle that the service resolves to itself and
  whose result can be fetched; the invariant of the service is kept.\<close>

theorem results_stay_fetchable:
  assumes "service_inv env sv" "execute env sv q dialect w choices elapsed fresh = (sv', r)"
  shows "service_inv env sv' \<and> (\<forall>i. is_ok (fetch_arrow sv i) \<longrightarrow> is_ok (fetch_arrow sv' i))
    \<and> (\<forall>h. r = Inr h \<longrightarrow> resolve_result_handle sv' (rh_handle_id h) = Inr h
          \<and> is_ok (fetch_arrow sv' (rh_handle_id h)))"
proof -
  have stats: "service_inv env (sv\<lparr>fs_stats := ss\<rparr>)" "fetch_arrow (sv\<lparr>fs_stats := ss\<rparr>) i = fetch_arrow sv i" for ss i
    using assms(1) by (simp_all add: service_inv_def fetch_arrow_def resolve_result_handle_def)
  have "service_inv env sv' \<and> (\<forall>i. is_ok (fetch_arrow sv i) \<longrightarrow> is_ok (fetch_arrow sv' i))
      \<and> (\<forall>h. r = Inr h \<longrightarrow> resolve_result_handle sv' (rh_handle_id h) = Inr h)"
    using assms stats run_plan_keeps [OF stats(1)] unfolding execute_def
    by (fastforce split: sum.splits prod.splits)
  moreover from this have "is_ok (fetch_arrow sv' (rh_handle_id h))" if "r = Inr h" for h
    using that by (auto simp: fetch_ok service_inv_def resolve_result_handle_def split: option.splits)
  ultimately show ?thesis by blast
qed

section \<open>Queries over live sources succeed\<close>










section \<open>What planning learns from a run\<close>

text \<open>The stages of a plan that report statistics for a table, and what they report.\<close>

definition reports_on :: "(string, stage_artifact) dict \<Rightarrow> string \<Rightarrow> stage_definition \<Rightarrow> bool" where
  "reports_on arts k s =
     ((case sd_subplan s of None \<Rightarrow> False | Some sp \<Rightarrow> sp_table_key sp = k)
      \<and> (case dict_get arts (sd_stage_id s) of None \<Rightarrow> False | Some a \<Rightarrow> sa_rows a > 0))"

definition observed :: "(string, stage_artifact) dict \<Rightarrow> stage_definition \<Rightarrow> table_statistics" where
  "observed arts s = (let a = the (dict_get arts (sd_stage_id s)) in
     \<lparr>ts_row_count_estimate = Some (of_nat (sa_rows a)),
      ts_bytes_per_row = of_nat (sa_bytes_written a) / of_nat (sa_rows a)\<rparr>)"

lemma record_stage_get:
  "stats_get (record_stage_stats w arts ss s) w' k =
     (if w' = w \<and> reports_on arts k s then Some (observed arts s) else stats_get ss w' k)"
  by (auto simp: record_stage_stats_def reports_on_def observed_def max_def split: option.splits)

lemma record_stages_get:
  "stats_get (foldl (record_stage_stats w arts) ss stages) w' k =
     (let rs = filter (reports_on arts k) stages
      in if w' = w \<and> rs \<noteq> [] then Some (observed arts (last rs)) else stats_get ss w' k)"
proof (induction stages arbitrary: ss)
  case (Cons s stages)
  then show ?case by (auto simp: record_stage_get Let_def)
qed simp

text \<open>after a successful query, the statistics of a table in the workspace are the rows and
  bytes per row that the last stage over this table delivered, if it delivered rows; all
  other statistics, and those of other workspaces, are what planning left.\<close>

theorem runtime_stats_are_last_observed:
  assumes "run_plan env sv w flow sources pp choices elapsed fresh = (sv', Inr h)"
  shows "\<exists>st summ arts. sched_run (execute_stage (exec_env_of env w flow sources pp))
        (fw_stage_parallelism flow) choices elapsed (fs_exec sv) pp = (st, Inr (summ, arts))
    \<and> stats_get (fs_stats sv') w' k =
        (let rs = filter (reports_on arts k) (pp_stages pp)
         in if w' = w \<and> rs \<noteq> [] then Some (observed arts (last rs)) else stats_get (fs_stats sv) w' k)"
proof -
  obtain st q where run: "sched_run (execute_stage (exec_env_of env w flow sources pp))
      (fw_stage_parallelism flow) choices elapsed (fs_exec sv) pp = (st, q)"
    by (cases "sched_run (execute_stage (exec_env_of env w flow sources pp))
      (fw_stage_parallelism flow) choices elapsed (fs_exec sv) pp")
  then obtain summ arts where q: "q = Inr (summ, arts)"
    using assms by (auto simp: run_plan_def split: sum.splits)
  then have "fs_stats sv' = record_runtime_stats (fs_stats sv) w pp arts"
    using assms run by (auto simp: run_plan_def Let_def split: option.splits)
  then show ?thesis
    using run q by (auto simp: record_runtime_stats_def record_stages_get)
qed

section \<open>A concrete service\<close>

definition ex_service_env :: "(nat, string, ex_cond, unit, unit) service_env" where
  "ex_service_env = \<lparr>se_plan = ex_plan_env, se_ops = ex_ops, se_digest = plain_digest,
     se_to_uuid = (\<lambda>_. None), se_duckdb = (\<lambda>sql tables. Inr (length tables)),
     se_compile = (\<lambda>m q d. Inr ''SELECT''), se_elapsed = 1\<rparr>"

definition ex_source :: "nat \<Rightarrow> (nat, nat, string) remote_source" where
  "ex_source rows = \<lparr>rs_dialect = ''tsql'', rs_execute = (\<lambda>sp calls. (Inr (rows, 1), Suc calls))\<rparr>"

definition ex_sources :: "(string, (nat, nat, string) remote_source) dict" where
  "ex_sources = [(''src_orders'', ex_source 3), (''src_customers'', ex_source 2)]"

definition ex_service ::
  "federation_workflow \<Rightarrow> (string, (nat, nat, string) remote_source) dict \<Rightarrow> (nat, nat, string, unit) service" where
  "ex_service flow sources = \<lparr>fs_workflows = [(''ws'', flow)], fs_sources = [(''ws'', sources)],
     fs_models = [], fs_results = [], fs_stats = [],
     fs_exec = \<lparr>xs_files = (\<lambda>_. None), xs_world = 0\<rparr>\<rparr>"

lemma ex_service_inv [simp]: "service_inv ex_service_env (ex_service flow sources)"
  by (simp add: service_inv_def ex_service_def ex_service_env_def keys_ok_def)




theorem results_stay_fetchable_witness:
  "\<exists>sv' h. execute ex_service_env (ex_service ex_flow ex_sources) (Q_Sql ''SELECT'') ''tsql'' ''ws'' [] 7 ''h''
     = (sv', Inr h) \<and> is_ok (fetch_arrow sv' (rh_handle_id h))"
proof -
  have "is_ok (snd (execute ex_service_env (ex_service ex_flow ex_sources) (Q_Sql ''SELECT'') ''tsql'' ''ws'' [] 7 ''h''))"
    by code_simp
  then obtain sv' h where ex: "execute ex_service_env (ex_service ex_flow ex_sources) (Q_Sql ''SELECT'') ''tsql'' ''ws'' [] 7 ''h''
      = (sv', Inr h)"
    by (metis is_ok_iff prod.collapse)
  from results_stay_fetchable [OF ex_service_inv ex] ex show ?thesis by blast
qed

text \<open>One table with the metadata that lets the planner send the whole query to its source.\<close>

definition ex_single_flow :: federation_workflow where
  "ex_single_flow = ex_flow\<lparr>fw_dataset := ex_virtual
     \<lparr>vd_tables := map (\<lambda>(k, b). (k, b\<lparr>tb_source_id := ''db'', tb_metadata := [(''dataset_alias'', M_str k)]\<rparr>))
        (vd_tables ex_virtual)\<rparr>\<rparr>"

text \<open>when the whole query is sent to one source, the number of rows of its result is recorded
  as the number of rows of the table in FROM: here a query with one result row teaches the
  planner that the table of orders has one row, whatever the table holds.\<close>

theorem full_query_rows_become_table_rows:
  "case execute ex_service_env (ex_service ex_single_flow [(''db'', ex_source 1)]) (Q_Sql ''SELECT COUNT(*)'')
      ''tsql'' ''ws'' [] 7 ''h'' of
     (sv', Inr h) \<Rightarrow> rh_result_stage_id h = ''scan_full_query''
       \<and> stats_get (fs_stats sv') ''ws'' ''orders'' = Some \<lparr>ts_row_count_estimate = Some 1, ts_bytes_per_row = 10\<rparr>
   | (sv', Inl e) \<Rightarrow> False"
  by code_simp

definition ex_scan_plan :: physical_plan where
  "ex_scan_plan = ex_plan [scan_stage REMOTE_SCAN
     \<lparr>sp_stage_id = ''result'', sp_source_id = ''src_orders'', sp_alias = ''o'', sp_table_key = ''orders'',
      sp_sql = Some ''SELECT * FROM orders'', sp_resource = None, sp_projected_columns = [],
      sp_pushed_filters = [], sp_pushed_limit = None, sp_estimated_rows = None, sp_estimated_bytes = None\<rparr>]
     \<lparr>pp_result_stage_id := ''result''\<rparr>"

theorem runtime_stats_are_last_observed_witness:
  "\<exists>sv' h. run_plan ex_service_env (ex_service ex_flow ex_sources) ''ws'' ex_flow ex_sources ex_scan_plan [] 7 ''h''
       = (sv', Inr h)
     \<and> stats_get (fs_stats sv') ''other'' ''orders'' = None"
proof -
  have "is_ok (snd (run_plan ex_service_env (ex_service ex_flow ex_sources) ''ws'' ex_flow ex_sources ex_scan_plan [] 7 ''h''))"
    by code_simp
  then obtain sv' h where ex: "run_plan ex_service_env (ex_service ex_flow ex_sources) ''ws'' ex_flow ex_sources
      ex_scan_plan [] 7 ''h'' = (sv', Inr h)"
    by (metis is_ok_iff prod.collapse)
  from runtime_stats_are_last_observed [OF ex, of "''other''" "''orders''"] ex show ?thesis
    by (auto simp: Let_def ex_service_def stats_get_def workspace_stats_def)
qed

end
