(* ===== verification/Semantic_Model.thy ===== *)
theory Semantic_Model
  imports Prelude
begin

text \<open>
  The semantic model (\<open>semantic/model.py\<close>): datasets with dimensions, measures and filters,
  relationships between datasets, and metrics. Descriptive fields (synonyms, descriptions,
  vector settings) that no modelled operation reads are left out, as are the validators
  that rename keys of legacy documents.
\<close>

record dimension =
  dm_name :: string
  dm_expression :: "string option"
  dm_type :: string
  dm_primary_key :: bool
  dm_alias :: "string option"

record measure =
  ms_name :: string
  ms_expression :: "string option"
  ms_type :: string
  ms_aggregation :: "string option"

record dataset_filter =
  df_condition :: string

record dataset =
  ds_dataset_id :: "string option"
  ds_relation_name :: "string option"
  ds_schema_name :: "string option"
  ds_catalog_name :: "string option"
  ds_dimensions :: "dimension list"
  ds_measures :: "measure list"
  ds_filters :: "(string, dataset_filter) dict"

datatype relationship_type =
    One_To_Many | Many_To_One | One_To_One | Many_To_Many | Rel_Inner | Rel_Left | Rel_Right | Rel_Full

record relationship =
  rl_name :: string
  rl_source_dataset :: string
  rl_source_field :: string
  rl_target_dataset :: string
  rl_target_field :: string
  rl_operator :: string
  rl_type :: relationship_type

record semantic_model =
  sem_dialect :: "string option"
  sem_datasets :: "(string, dataset) dict"
  sem_relationships :: "relationship list"
  sem_metrics :: "(string, string) dict"

definition join_condition :: "relationship \<Rightarrow> string" where
  "join_condition r = rl_source_dataset r @ ''.'' @ rl_source_field r @ '' '' @ rl_operator r @ '' ''
     @ rl_target_dataset r @ ''.'' @ rl_target_field r"

text \<open>\<open>Dataset.get_relation_name\<close> and \<open>get_annotations\<close>\<close>

definition get_relation_name :: "dataset \<Rightarrow> string \<Rightarrow> string" where
  "get_relation_name d key =
     (let candidate = py_strip (case ds_relation_name d of None \<Rightarrow> [] | Some s \<Rightarrow> s)
      in if candidate = [] then key else candidate)"

definition get_annotations :: "dataset \<Rightarrow> string \<Rightarrow> (string, string) dict" where
  "get_annotations d key =
     foldl (\<lambda>m n. dict_set m (key @ ''.'' @ n) n) []
       (map dm_name (ds_dimensions d) @ map ms_name (ds_measures d))"

end
