(* ===== verification/Join_Planner.thy ===== *)
theory Join_Planner
  imports Semantic_Model
begin

text \<open>
  The join planner of semantic queries (\<open>semantic/query/join_planner.py\<close>): a breadth-first
  search over the relationships, and the order in which the datasets of a query are joined.
  Python sets of visited and joined datasets are lists read by membership.
\<close>

record join_step =
  js_relationship :: relationship
  js_left :: string
  js_right :: string

datatype join_error = No_Join_Path string string | Path_Not_Connected string

type_synonym adjacency = "(string, (string \<times> relationship) list) dict"

definition adj_get :: "adjacency \<Rightarrow> string \<Rightarrow> (string \<times> relationship) list" where
  "adj_get g v = (case dict_get g v of None \<Rightarrow> [] | Some ns \<Rightarrow> ns)"

definition adj_append :: "adjacency \<Rightarrow> string \<Rightarrow> string \<times> relationship \<Rightarrow> adjacency" where
  "adj_append g v n = dict_set g v (adj_get g v @ [n])"

definition build_graph :: "relationship list \<Rightarrow> adjacency" where
  "build_graph rels = foldl (\<lambda>g r.
     adj_append (adj_append g (rl_source_dataset r) (rl_target_dataset r, r))
       (rl_target_dataset r) (rl_source_dataset r, r)) [] rels"

text \<open>The inner loop: it stops at the target, or extends the visited set and the queue.\<close>

fun visit_neighbors ::
  "string \<Rightarrow> relationship list \<Rightarrow> (string \<times> relationship) list \<Rightarrow> string list
   \<Rightarrow> (string \<times> relationship list) list
   \<Rightarrow> relationship list + (string list \<times> (string \<times> relationship list) list)" where
  "visit_neighbors target path [] visited queue = Inr (visited, queue)"
| "visit_neighbors target path ((n, r) # ns) visited queue =
     (if n \<in> set visited then visit_neighbors target path ns visited queue
      else if n = target then Inl (path @ [r])
      else visit_neighbors target path ns (n # visited) (queue @ [(n, path @ [r])]))"

definition graph_nodes :: "adjacency \<Rightarrow> string set" where
  "graph_nodes g = fst ` (\<Union>p \<in> set g. set (snd p))"

lemma finite_graph_nodes [simp]: "finite (graph_nodes g)"
  by (simp add: graph_nodes_def)

lemma adj_get_nodes: "fst ` set (adj_get g v) \<subseteq> graph_nodes g"
proof (cases "dict_get g v")
  case (Some ns)
  then have "set ns \<subseteq> (\<Union>p \<in> set g. set (snd p))"
    using dict_get_in [OF Some] by auto
  then have "fst ` set ns \<subseteq> graph_nodes g" unfolding graph_nodes_def by (rule image_mono)
  with Some show ?thesis by (simp add: adj_get_def)
qed (simp add: adj_get_def)

text \<open>What the inner loop adds: one queue entry per new neighbour.\<close>

definition visited_more ::
  "string \<Rightarrow> relationship list \<Rightarrow> (string \<times> relationship) list \<Rightarrow> string list
   \<Rightarrow> (string \<times> relationship list) list \<Rightarrow> string list \<Rightarrow> (string \<times> relationship list) list
   \<Rightarrow> (string \<times> relationship) list \<Rightarrow> bool" where
  "visited_more target path ns visited queue visited' queue' new =
     (queue' = queue @ map (\<lambda>(n, r). (n, path @ [r])) new \<and> set new \<subseteq> set ns
       \<and> distinct (map fst new) \<and> fst ` set new \<inter> set visited = {}
       \<and> set visited' = set visited \<union> fst ` set new \<and> fst ` set ns \<subseteq> set visited'
       \<and> (target \<notin> set visited \<longrightarrow> target \<notin> set visited'))"

lemma visit_neighbors_new:
  "visit_neighbors target path ns visited queue = Inr (visited', queue') \<Longrightarrow>
     \<exists>new. visited_more target path ns visited queue visited' queue' new"
proof (induction target path ns visited queue rule: visit_neighbors.induct)
  case (1 target path visited queue)
  then show ?case by (intro exI [of _ "[]"]) (simp add: visited_more_def)
next
  case (2 target path n r ns visited queue)
  show ?case
  proof (cases "n \<in> set visited")
    case True
    with 2 obtain new where new: "visited_more target path ns visited queue visited' queue' new"
      by fastforce
    have "visited_more target path ((n, r) # ns) visited queue visited' queue' new"
      using new True unfolding visited_more_def by auto
    then show ?thesis by blast
  next
    case False
    then have nt: "n \<noteq> target" using 2(3) by auto
    with 2 False obtain new where
        new: "visited_more target path ns (n # visited) (queue @ [(n, path @ [r])]) visited' queue' new"
      by fastforce
    have "visited_more target path ((n, r) # ns) visited queue visited' queue' ((n, r) # new)"
      using new False nt unfolding visited_more_def by auto
    then show ?thesis by blast
  qed
qed

lemma visit_neighbors_found:
  "visit_neighbors target path ns visited queue = Inl p \<Longrightarrow>
     \<exists>r. (target, r) \<in> set ns \<and> p = path @ [r]"
  by (induction target path ns visited queue rule: visit_neighbors.induct) (auto split: if_splits)

lemma visit_neighbors_less:
  assumes "visit_neighbors target path (adj_get g v) visited queue = Inr (visited', queue')"
  shows "length queue' + card (graph_nodes g - set visited')
    \<le> length queue + card (graph_nodes g - set visited)"
proof -
  obtain new where new: "queue' = queue @ map (\<lambda>(n, r). (n, path @ [r])) new"
      "set new \<subseteq> set (adj_get g v)" "distinct (map fst new)" "fst ` set new \<inter> set visited = {}"
      "set visited' = set visited \<union> fst ` set new"
    using visit_neighbors_new [OF assms] unfolding visited_more_def by blast
  have sub: "fst ` set new \<subseteq> graph_nodes g - set visited"
    using new(2,4) adj_get_nodes [of g v] by blast
  have "graph_nodes g - set visited' = (graph_nodes g - set visited) - fst ` set new"
    using new(5) by blast
  then have "card (graph_nodes g - set visited') = card (graph_nodes g - set visited) - card (fst ` set new)"
    using sub by (simp add: card_Diff_subset)
  moreover have "card (fst ` set new) = length new"
    using new(3) distinct_card [of "map fst new"] by simp
  moreover have "card (fst ` set new) \<le> card (graph_nodes g - set visited)"
    using sub by (simp add: card_mono)
  ultimately show ?thesis using new(1) by simp
qed

function bfs ::
  "adjacency \<Rightarrow> string \<Rightarrow> (string \<times> relationship list) list \<Rightarrow> string list \<Rightarrow> relationship list option" where
  "bfs g target queue visited =
     (case queue of [] \<Rightarrow> None
      | (current, path) # rest \<Rightarrow>
          (case visit_neighbors target path (adj_get g current) visited rest of
             Inl p \<Rightarrow> Some p
           | Inr (visited', queue') \<Rightarrow> bfs g target queue' visited'))"
  by pat_completeness auto
termination
  by (relation "measure (\<lambda>(g, target, queue, visited). length queue + card (graph_nodes g - set visited))")
    (auto dest!: visit_neighbors_less sym [of "Inr _"])

declare bfs.simps [simp del]

definition find_path :: "relationship list \<Rightarrow> string \<Rightarrow> string \<Rightarrow> (join_error, relationship list) result" where
  "find_path rels start target =
     (if start = target then Inr []
      else case bfs (build_graph rels) target [(start, [])] [start] of
        None \<Rightarrow> Inl (No_Join_Path start target) | Some p \<Rightarrow> Inr p)"

fun join_along ::
  "string \<Rightarrow> relationship list \<Rightarrow> string list \<times> join_step list
   \<Rightarrow> (join_error, string list \<times> join_step list) result" where
  "join_along target [] acc = Inr acc"
| "join_along target (r # rs) (joined, steps) =
     (let left = rl_source_dataset r; right = rl_target_dataset r
      in if left \<in> set joined \<and> right \<in> set joined then join_along target rs (joined, steps)
         else if left \<in> set joined then join_along target rs
           (right # joined, steps @ [\<lparr>js_relationship = r, js_left = left, js_right = right\<rparr>])
         else if right \<in> set joined then join_along target rs
           (left # joined, steps @ [\<lparr>js_relationship = r, js_left = right, js_right = left\<rparr>])
         else Inl (Path_Not_Connected target))"

fun join_targets ::
  "relationship list \<Rightarrow> string \<Rightarrow> string list \<Rightarrow> string list \<times> join_step list
   \<Rightarrow> (join_error, string list \<times> join_step list) result" where
  "join_targets rels base [] acc = Inr acc"
| "join_targets rels base (t # ts) acc =
     bindR (find_path rels base t) (\<lambda>path.
     bindR (join_along t path acc) (\<lambda>acc'. join_targets rels base ts acc'))"

definition plan_joins ::
  "relationship list \<Rightarrow> string \<Rightarrow> string list \<Rightarrow> (join_error, join_step list) result" where
  "plan_joins rels base required =
     bindR (join_targets rels base (py_sorted_set (filter (\<lambda>d. d \<noteq> base) required)) ([base], []))
       (\<lambda>(joined, steps). Inr steps)"

section \<open>Walks over relationships\<close>

definition other_end :: "relationship \<Rightarrow> string \<Rightarrow> string option" where
  "other_end r v =
     (if rl_source_dataset r = v then Some (rl_target_dataset r)
      else if rl_target_dataset r = v then Some (rl_source_dataset r) else None)"

fun walk_end :: "string \<Rightarrow> relationship list \<Rightarrow> string option" where
  "walk_end v [] = Some v"
| "walk_end v (r # rs) = Option.bind (other_end r v) (\<lambda>u. walk_end u rs)"

definition is_walk :: "relationship list \<Rightarrow> string \<Rightarrow> relationship list \<Rightarrow> string \<Rightarrow> bool" where
  "is_walk rels a w b = (set w \<subseteq> set rels \<and> walk_end a w = Some b)"

lemma walk_end_append: "walk_end a (xs @ ys) = Option.bind (walk_end a xs) (\<lambda>u. walk_end u ys)"
  by (induction xs arbitrary: a) (auto split: bind_splits)

lemma is_walk_snoc:
  "is_walk rels a (w @ [r]) c \<longleftrightarrow>
     (\<exists>b. is_walk rels a w b \<and> r \<in> set rels \<and> other_end r b = Some c)"
  by (auto simp: is_walk_def walk_end_append bind_eq_Some_conv)

lemma adj_get_append:
  "adj_get (adj_append g v n) u = (if u = v then adj_get g v @ [n] else adj_get g u)"
  by (simp add: adj_get_def adj_append_def)

lemma adj_get_added:
  "(n, r') \<in> set (adj_get (adj_append (adj_append g s (t, r)) t (s, r)) v)
   \<longleftrightarrow> (n, r') \<in> set (adj_get g v) \<or> r' = r \<and> (s = v \<and> t = n \<or> t = v \<and> s = n)"
  by (auto simp: adj_get_append)

lemma build_graph_from:
  "(n, r) \<in> set (adj_get (foldl (\<lambda>g r.
     adj_append (adj_append g (rl_source_dataset r) (rl_target_dataset r, r))
       (rl_target_dataset r) (rl_source_dataset r, r)) g rels) v)
   \<longleftrightarrow> (n, r) \<in> set (adj_get g v) \<or> r \<in> set rels \<and> (rl_source_dataset r = v \<and> rl_target_dataset r = n
          \<or> rl_target_dataset r = v \<and> rl_source_dataset r = n)"
proof (induction rels arbitrary: g)
  case (Cons r' rels)
  show ?case unfolding foldl.simps Cons.IH adj_get_added list.set by blast
qed simp

lemma graph_neighbors:
  "(n, r) \<in> set (adj_get (build_graph rels) v) \<longleftrightarrow> r \<in> set rels \<and> other_end r v = Some n"
  unfolding build_graph_def build_graph_from by (auto simp: adj_get_def other_end_def)

section \<open>Breadth-first search finds shortest paths\<close>

text \<open>The state between two dequeues: visited datasets \<open>V\<close> and queue \<open>Q\<close>.\<close>

definition bfs_inv ::
  "relationship list \<Rightarrow> string \<Rightarrow> string \<Rightarrow> (string \<times> relationship list) list \<Rightarrow> string set \<Rightarrow> bool" where
  "bfs_inv rels start target Q V =
     (start \<in> V \<and> target \<notin> V
      \<and> (\<forall>(n, p) \<in> set Q. n \<in> V \<and> is_walk rels start p n
           \<and> (\<forall>w. is_walk rels start w n \<longrightarrow> length p \<le> length w))
      \<and> (\<forall>v \<in> V. v \<in> fst ` set Q \<or> fst ` set (adj_get (build_graph rels) v) \<subseteq> V)
      \<and> sorted (map (length \<circ> snd) Q)
      \<and> (Q \<noteq> [] \<longrightarrow> (\<forall>(n, p) \<in> set Q. length p \<le> Suc (length (snd (hd Q)))))
      \<and> (Q \<noteq> [] \<longrightarrow> (\<forall>v w. is_walk rels start w v \<and> length w \<le> length (snd (hd Q)) \<longrightarrow> v \<in> V)))"

lemma bfs_inv_start: "start \<noteq> target \<Longrightarrow> bfs_inv rels start target [(start, [])] {start}"
  by (auto simp: bfs_inv_def is_walk_def)

lemma bfs_inv_exhausted:
  assumes "bfs_inv rels start target [] V"
  shows "\<not> is_walk rels start w target"
proof -
  have "is_walk rels start w v \<Longrightarrow> v \<in> V" for v
  proof (induction w arbitrary: v rule: rev_induct)
    case Nil
    then show ?case using assms by (simp add: is_walk_def bfs_inv_def)
  next
    case (snoc r w)
    then obtain u where "is_walk rels start w u" "(v, r) \<in> set (adj_get (build_graph rels) u)"
      by (auto simp: is_walk_snoc graph_neighbors)
    moreover from this have "u \<in> V" using snoc.IH by blast
    then have "fst ` set (adj_get (build_graph rels) u) \<subseteq> V"
      using assms by (simp add: bfs_inv_def)
    ultimately show ?case by (metis fst_conv image_eqI subsetD)
  qed
  then show ?thesis using assms by (auto simp: bfs_inv_def)
qed

lemma bfs_inv_found:
  assumes "bfs_inv rels start target ((c, p) # Q) V" "(target, r) \<in> set (adj_get (build_graph rels) c)"
  shows "is_walk rels start (p @ [r]) target
    \<and> (\<forall>w. is_walk rels start w target \<longrightarrow> length (p @ [r]) \<le> length w)"
proof -
  have "is_walk rels start (p @ [r]) target"
    using assms by (auto simp: bfs_inv_def is_walk_snoc graph_neighbors)
  moreover have "length p < length w" if "is_walk rels start w target" for w
    using that assms(1) unfolding bfs_inv_def by (metis leI list.distinct(1) list.sel(1) snd_conv)
  ultimately show ?thesis by (auto simp: Suc_le_eq)
qed

lemma bfs_inv_step:
  assumes inv: "bfs_inv rels start target ((c, p) # Q) V" and fin: "set vs = V"
    and step: "visit_neighbors target p (adj_get (build_graph rels) c) vs Q = Inr (vs', Q')"
  shows "bfs_inv rels start target Q' (set vs')"
proof -
  obtain new where new: "visited_more target p (adj_get (build_graph rels) c) vs Q vs' Q' new"
    using visit_neighbors_new [OF step] by blast
  have Q': "Q' = Q @ map (\<lambda>(n, r). (n, p @ [r])) new"
    and sub: "set new \<subseteq> set (adj_get (build_graph rels) c)" "fst ` set new \<inter> V = {}"
    and V': "set vs' = V \<union> fst ` set new"
    and closed: "fst ` set (adj_get (build_graph rels) c) \<subseteq> set vs'"
    and tgt: "target \<notin> set vs'"
    using new fin inv by (auto simp: visited_more_def bfs_inv_def)
  have c: "c \<in> V" "is_walk rels start p c"
    and near: "\<And>v w. is_walk rels start w v \<Longrightarrow> length w \<le> length p \<Longrightarrow> v \<in> V"
    and lens: "\<forall>(n, q) \<in> set Q. length p \<le> length q \<and> length q \<le> Suc (length p)"
    and sorted: "sorted (map (length \<circ> snd) Q)"
    and old: "\<forall>(n, q) \<in> set Q. n \<in> V \<and> is_walk rels start q n
           \<and> (\<forall>w. is_walk rels start w n \<longrightarrow> length q \<le> length w)"
    and left_done: "\<forall>v \<in> V. v = c \<or> v \<in> fst ` set Q \<or> fst ` set (adj_get (build_graph rels) v) \<subseteq> V"
    using inv by (auto simp: bfs_inv_def)
  have fresh: "n \<in> set vs' \<and> is_walk rels start (p @ [r]) n
      \<and> (\<forall>w. is_walk rels start w n \<longrightarrow> length (p @ [r]) \<le> length w)" if "(n, r) \<in> set new" for n r
  proof -
    have "n \<notin> V" "n \<in> set vs'" using that sub(2) V' by force+
    moreover have "(n, r) \<in> set (adj_get (build_graph rels) c)" using that sub(1) by blast
    then have "is_walk rels start (p @ [r]) n"
      using c(2) by (auto simp: is_walk_snoc graph_neighbors)
    moreover have "length p < length w" if "is_walk rels start w n" for w
      using near that \<open>n \<notin> V\<close> by (meson leI)
    ultimately show ?thesis by (auto simp: Suc_le_eq)
  qed
  have b: "\<forall>(n, q) \<in> set Q'. n \<in> set vs' \<and> is_walk rels start q n
           \<and> (\<forall>w. is_walk rels start w n \<longrightarrow> length q \<le> length w)"
    using old fresh V' unfolding Q' by auto
  have cl: "\<forall>v \<in> set vs'. v \<in> fst ` set Q' \<or> fst ` set (adj_get (build_graph rels) v) \<subseteq> set vs'"
  proof
    fix v assume "v \<in> set vs'"
    then consider "v \<in> V" | "v \<in> fst ` set new" using V' by blast
    then show "v \<in> fst ` set Q' \<or> fst ` set (adj_get (build_graph rels) v) \<subseteq> set vs'"
    proof cases
      case 1
      then consider "v = c" | "v \<in> fst ` set Q" | "fst ` set (adj_get (build_graph rels) v) \<subseteq> V"
        using left_done by blast
      then show ?thesis
        by cases (use closed in blast, (force simp: Q')[1], use V' in blast)
    next
      case 2
      then show ?thesis unfolding Q' by force
    qed
  qed
  have s: "sorted (map (length \<circ> snd) Q')"
  proof -
    have "map (length \<circ> snd) (map (\<lambda>(n, r). (n, p @ [r])) new) = replicate (length new) (Suc (length p))"
      by (induction new) auto
    then show ?thesis
      using sorted lens unfolding Q' by (auto simp: sorted_append sorted_replicate)
  qed
  have bound: "\<forall>(n, q) \<in> set Q'. length p \<le> length q \<and> length q \<le> Suc (length p)"
    using lens unfolding Q' by auto
  have e: "v \<in> set vs'" if ne: "Q' \<noteq> []" and w: "is_walk rels start w v" "length w \<le> length (snd (hd Q'))" for v w
  proof (cases "length w \<le> length p")
    case True
    then show ?thesis using near w V' by blast
  next
    case False
    have "length (snd (hd Q')) \<le> Suc (length p)" using bound ne by (auto simp: case_prod_beta)
    then have hd: "length (snd (hd Q')) = Suc (length p)" and lw: "length w = Suc (length p)"
      using False w(2) by auto
    obtain w0 r where w0: "w = w0 @ [r]" using lw by (metis append_butlast_last_id length_0_conv nat.distinct(1))
    then obtain u where u: "is_walk rels start w0 u" "(v, r) \<in> set (adj_get (build_graph rels) u)"
      using w(1) by (auto simp: is_walk_snoc graph_neighbors)
    have uV: "u \<in> set vs'" using near u(1) lw w0 V' by auto
    have "u \<notin> fst ` set Q'"
    proof
      assume "u \<in> fst ` set Q'"
      then obtain q where q: "(u, q) \<in> set Q'" by force
      have "length (snd (hd Q')) \<le> length q"
        using s q ne by (cases Q') auto
      moreover have "length q \<le> length w0" using b q u(1) by blast
      ultimately show False using hd lw w0 by simp
    qed
    then show ?thesis using cl uV u(2) by force
  qed
  have hdlen: "length p \<le> length (snd (hd Q'))" if "Q' \<noteq> []"
    using bound that by (auto simp: case_prod_beta)
  have d: "Q' \<noteq> [] \<longrightarrow> (\<forall>(n, q) \<in> set Q'. length q \<le> Suc (length (snd (hd Q'))))"
    using bound hdlen by fastforce
  have "start \<in> set vs'" using inv V' by (simp add: bfs_inv_def)
  moreover have "Q' \<noteq> [] \<longrightarrow> (\<forall>v w. is_walk rels start w v \<and> length w \<le> length (snd (hd Q')) \<longrightarrow> v \<in> set vs')"
    using e by blast
  ultimately show ?thesis
    unfolding bfs_inv_def by (intro conjI tgt b cl s d)
qed

lemma bfs_correct:
  "bfs_inv rels start target Q (set vs) \<Longrightarrow>
     (case bfs (build_graph rels) target Q vs of
        None \<Rightarrow> \<forall>w. \<not> is_walk rels start w target
      | Some p \<Rightarrow> is_walk rels start p target
          \<and> (\<forall>w. is_walk rels start w target \<longrightarrow> length p \<le> length w))"
proof (induction "build_graph rels" target Q vs rule: bfs.induct)
  case (1 target Q vs)
  show ?case
  proof (cases Q)
    case Nil
    then show ?thesis using bfs_inv_exhausted 1(2) by (simp add: bfs.simps [of _ _ "[]"])
  next
    case (Cons e Q0)
    obtain c p where e: "e = (c, p)" by (cases e)
    note inv = 1(2) [unfolded Cons e]
    show ?thesis
    proof (cases "visit_neighbors target p (adj_get (build_graph rels) c) vs Q0")
      case (Inl path)
      from visit_neighbors_found [OF this] obtain r where
        "(target, r) \<in> set (adj_get (build_graph rels) c)" "path = p @ [r]" by blast
      then show ?thesis
        using bfs_inv_found [OF inv] Inl by (simp add: Cons e bfs.simps [of _ _ "_ # _"])
    next
      case (Inr x)
      obtain vs' Q' where x: "x = (vs', Q')" by (cases x)
      have "bfs_inv rels start target Q' (set vs')"
        by (rule bfs_inv_step [OF inv refl]) (simp add: Inr x)
      then show ?thesis
        using 1(1) [OF Cons e [symmetric] Inr x [symmetric]] Inr x by (simp add: Cons e bfs.simps [of _ _ "_ # _"])
    qed
  qed
qed

text \<open>C13: the path between two datasets is found whenever the relationships connect them, it leads
  from the first to the second, and no path is shorter; otherwise the search raises.\<close>

theorem find_path_shortest:
  "case find_path rels start target of
     Inl e \<Rightarrow> e = No_Join_Path start target \<and> (\<forall>w. \<not> is_walk rels start w target)
   | Inr p \<Rightarrow> is_walk rels start p target \<and> (\<forall>w. \<not> (is_walk rels start w target \<and> length w < length p))"
proof (cases "start = target")
  case True
  then show ?thesis by (simp add: find_path_def is_walk_def)
next
  case False
  have "bfs_inv rels start target [(start, [])] (set [start])"
    using bfs_inv_start [OF False] by simp
  from bfs_correct [OF this] False show ?thesis
    by (auto simp: find_path_def not_less split: option.splits)
qed

section \<open>Join steps grow one connected tree\<close>

text \<open>Each step joins a new dataset to one already joined, over a relationship between the two.\<close>

fun join_tree :: "relationship list \<Rightarrow> string set \<Rightarrow> join_step list \<Rightarrow> bool" where
  "join_tree rels joined [] = True"
| "join_tree rels joined (s # ss) =
     (js_relationship s \<in> set rels \<and> other_end (js_relationship s) (js_left s) = Some (js_right s)
      \<and> js_left s \<in> joined \<and> js_right s \<notin> joined
      \<and> join_tree rels (insert (js_right s) joined) ss)"

definition joined_by :: "string set \<Rightarrow> join_step list \<Rightarrow> string set" where
  "joined_by joined ss = joined \<union> js_right ` set ss"

lemma join_tree_append:
  "join_tree rels A (xs @ ys) \<longleftrightarrow> join_tree rels A xs \<and> join_tree rels (joined_by A xs) ys"
  by (induction xs arbitrary: A) (auto simp: joined_by_def)

lemma joined_by_append: "joined_by A (xs @ ys) = joined_by (joined_by A xs) ys"
  by (auto simp: joined_by_def)

text \<open>What one path adds to the datasets joined so far.\<close>

definition extends ::
  "relationship list \<Rightarrow> string list \<times> join_step list \<Rightarrow> string list \<times> join_step list \<Rightarrow> bool" where
  "extends rels acc acc' = (\<exists>new. snd acc' = snd acc @ new \<and> join_tree rels (set (fst acc)) new
     \<and> set (fst acc') = joined_by (set (fst acc)) new)"

lemma extends_refl: "extends rels acc acc"
  by (auto simp: extends_def joined_by_def)

lemma extends_trans: "\<lbrakk>extends rels a b; extends rels b c\<rbrakk> \<Longrightarrow> extends rels a c"
  unfolding extends_def by (metis append.assoc join_tree_append joined_by_append)

lemma extends_step:
  assumes "r \<in> set rels" "other_end r l = Some t" "l \<in> set joined" "t \<notin> set joined"
  shows "extends rels (joined, steps) (t # joined, steps @ [\<lparr>js_relationship = r, js_left = l, js_right = t\<rparr>])"
  using assms by (auto simp: extends_def joined_by_def intro!: exI [of _ "[\<lparr>js_relationship = r, js_left = l, js_right = t\<rparr>]"])

lemma extends_mono: "extends rels acc acc' \<Longrightarrow> set (fst acc) \<subseteq> set (fst acc')"
  by (auto simp: extends_def joined_by_def)

lemma join_along_walk:
  "\<lbrakk>is_walk rels a path b; a \<in> set (fst acc)\<rbrakk> \<Longrightarrow>
     \<exists>acc'. join_along t path acc = Inr acc' \<and> extends rels acc acc' \<and> b \<in> set (fst acc')"
proof (induction path arbitrary: a acc)
  case Nil
  then show ?case by (auto simp: is_walk_def extends_refl)
next
  case (Cons r rs)
  obtain joined steps where acc: "acc = (joined, steps)" by (cases acc)
  obtain c where c: "other_end r a = Some c" "is_walk rels c rs b" "r \<in> set rels"
    using Cons.prems(1) by (auto simp: is_walk_def bind_eq_Some_conv)
  have ends: "{rl_source_dataset r, rl_target_dataset r} = {a, c}"
    using c(1) by (auto simp: other_end_def split: if_splits)
  show ?case
  proof (cases "c \<in> set joined")
    case True
    then have "join_along t (r # rs) acc = join_along t rs acc"
      using ends Cons.prems(2) by (auto simp: acc Let_def doubleton_eq_iff)
    then show ?thesis using Cons.IH [OF c(2)] True by (simp add: acc)
  next
    case False
    let ?acc = "(c # joined, steps @ [\<lparr>js_relationship = r, js_left = a, js_right = c\<rparr>])"
    have "join_along t (r # rs) acc = join_along t rs ?acc"
      using ends Cons.prems(2) False by (auto simp: acc Let_def doubleton_eq_iff)
    moreover have "extends rels acc ?acc"
      using extends_step [OF c(3,1)] Cons.prems(2) False by (simp add: acc)
    moreover obtain acc' where "join_along t rs ?acc = Inr acc'" "extends rels ?acc acc'" "b \<in> set (fst acc')"
      using Cons.IH [OF c(2), of ?acc] by auto
    ultimately show ?thesis
      using extends_trans [of rels acc ?acc acc'] by (intro exI [of _ acc']) simp
  qed
qed

lemma find_path_cases:
  "(\<exists>p. find_path rels a b = Inr p \<and> is_walk rels a p b)
   \<or> find_path rels a b = Inl (No_Join_Path a b) \<and> (\<forall>w. \<not> is_walk rels a w b)"
proof (cases "a = b")
  case True
  then show ?thesis by (simp add: find_path_def is_walk_def)
next
  case False
  have "bfs_inv rels a b [(a, [])] (set [a])" using bfs_inv_start [OF False] by simp
  from bfs_correct [OF this] False show ?thesis
    by (auto simp: find_path_def split: option.splits)
qed

definition reachable :: "relationship list \<Rightarrow> string \<Rightarrow> string \<Rightarrow> bool" where
  "reachable rels a b = (\<exists>w. is_walk rels a w b)"

lemma join_targets_spec:
  "base \<in> set (fst acc) \<Longrightarrow>
    (case join_targets rels base ts acc of
       Inr acc' \<Rightarrow> list_all (reachable rels base) ts \<and> extends rels acc acc' \<and> set ts \<subseteq> set (fst acc')
     | Inl e \<Rightarrow> \<exists>t \<in> set ts. \<not> reachable rels base t \<and> e = No_Join_Path base t)"
proof (induction ts arbitrary: acc)
  case Nil
  then show ?case by (simp add: extends_refl)
next
  case (Cons t ts)
  from find_path_cases [of rels base t] consider
      p where "find_path rels base t = Inr p" "is_walk rels base p t"
    | "find_path rels base t = Inl (No_Join_Path base t)" "\<not> reachable rels base t"
    by (auto simp: reachable_def)
  then show ?case
  proof cases
    case 1
    from join_along_walk [OF 1(2) Cons.prems, of t] obtain acc' where acc':
        "join_along t p acc = Inr acc'" "extends rels acc acc'" "t \<in> set (fst acc')" by blast
    have "base \<in> set (fst acc')" using extends_mono [OF acc'(2)] Cons.prems by blast
    note IH = Cons.IH [OF this]
    show ?thesis
    proof (cases "join_targets rels base ts acc'")
      case (Inl e)
      with IH 1 acc' show ?thesis by auto
    next
      case (Inr acc2)
      with IH have "extends rels acc' acc2" "set ts \<subseteq> set (fst acc2)" "list_all (reachable rels base) ts"
        by simp_all
      moreover from this(1) have "t \<in> set (fst acc2)" using extends_mono acc'(3) by blast
      moreover have "reachable rels base t" using 1(2) by (auto simp: reachable_def)
      ultimately show ?thesis using Inr 1(1) acc'(1) extends_trans [OF acc'(2)] by simp
    qed
  next
    case 2
    then show ?thesis by auto
  qed
qed

lemma plan_joins_tree:
  "case plan_joins rels base required of
     Inr steps \<Rightarrow> join_tree rels {base} steps \<and> set required \<subseteq> joined_by {base} steps
       \<and> distinct (base # map js_right steps) \<and> list_all (reachable rels base) required
   | Inl e \<Rightarrow> (\<exists>d \<in> set required. \<not> reachable rels base d \<and> e = No_Join_Path base d)"
proof -
  have fresh: "join_tree rels A ss \<Longrightarrow> distinct (map js_right ss) \<and> js_right ` set ss \<inter> A = {}" for A ss
    by (induction ss arbitrary: A) auto
  have self: "reachable rels base base"
    unfolding reachable_def is_walk_def by (rule exI [of _ "[]"]) simp
  let ?ts = "py_sorted_set (filter (\<lambda>d. d \<noteq> base) required)"
  have spec: "case join_targets rels base ?ts ([base], []) of
       Inr acc' \<Rightarrow> list_all (reachable rels base) ?ts \<and> extends rels ([base], []) acc' \<and> set ?ts \<subseteq> set (fst acc')
     | Inl e \<Rightarrow> \<exists>t \<in> set ?ts. \<not> reachable rels base t \<and> e = No_Join_Path base t"
    by (rule join_targets_spec) simp
  show ?thesis
  proof (cases "join_targets rels base ?ts ([base], [])")
    case (Inl e)
    with spec show ?thesis by (auto simp: plan_joins_def)
  next
    case (Inr acc')
    obtain joined steps where a: "acc' = (joined, steps)" by (cases acc')
    have t: "join_tree rels {base} steps" "set joined = joined_by {base} steps"
      and s: "set ?ts \<subseteq> set joined" "list_all (reachable rels base) ?ts"
      using spec Inr by (auto simp: a extends_def)
    show ?thesis
      using t s self fresh [OF t(1)]
      by (auto simp: plan_joins_def Inr a joined_by_def list_all_iff)
  qed
qed

text \<open>C14: a plan of joins starts from the base dataset, joins one new dataset per step to one that
  is already joined, over a relationship of the model between the two, and reaches every
  required dataset. Planning fails exactly when some required dataset is not connected to
  the base, with the error that names it; the error about paths that do not connect is
  never raised.\<close>

theorem join_plan_is_connected_tree:
  "case plan_joins rels base required of
     Inr steps \<Rightarrow> join_tree rels {base} steps \<and> set required \<subseteq> joined_by {base} steps
       \<and> distinct (base # map js_right steps) \<and> list_all (reachable rels base) required
   | Inl e \<Rightarrow> (\<exists>d \<in> set required. \<not> reachable rels base d \<and> e = No_Join_Path base d)"
  by (rule plan_joins_tree)

end
