(* ===== verification/Semantic_Resolver.thy ===== *)
theory Semantic_Resolver
  imports Semantic_Model
begin

text \<open>
  The resolver of semantic members (\<open>semantic/query/resolver.py\<close>): names of dimensions,
  measures, metrics and segments become references to a dataset's entry. The code repeats
  one algorithm for dimensions, measures and filters; here it is one function over the two
  indexes. Logging is left out.
\<close>

datatype member_kind = Dimension_Member | Measure_Member | Metric_Member | Segment_Member

datatype resolve_error =
    Unknown_Member member_kind string
  | Ambiguous_Member member_kind string "string list"

record dimension_ref =
  dr_dataset :: string
  dr_column :: string
  dr_expression :: string
  dr_data_type :: string
  dr_alias :: "string option"

record measure_ref =
  mr_dataset :: string
  mr_column :: string
  mr_expression :: string
  mr_data_type :: string
  mr_aggregation :: "string option"

record metric_ref =
  mt_key :: string
  mt_expression :: string

record segment_ref =
  sr_dataset :: string
  sr_key :: string
  sr_condition :: string

section \<open>Indexes\<close>

definition member_key :: "string \<Rightarrow> string \<Rightarrow> string" where
  "member_key k n = k @ ''.'' @ n"

text \<open>An entry is a dataset key, a name and the object of that name.\<close>

type_synonym 'a entry = "string \<times> string \<times> 'a"

definition index_by_key :: "'a entry list \<Rightarrow> (string, 'a) dict" where
  "index_by_key es = foldl (\<lambda>m (k, n, x). dict_set m (member_key k n) x) [] es"

definition append_entry :: "(string, (string \<times> 'a) list) dict \<Rightarrow> 'a entry \<Rightarrow> (string, (string \<times> 'a) list) dict" where
  "append_entry m e = (case e of (k, n, x) \<Rightarrow>
     dict_set m n ((case dict_get m n of None \<Rightarrow> [] | Some xs \<Rightarrow> xs) @ [(k, x)]))"

definition index_by_name :: "'a entry list \<Rightarrow> (string, (string \<times> 'a) list) dict" where
  "index_by_name es = foldl append_entry [] es"

definition dimension_entries :: "semantic_model \<Rightarrow> dimension entry list" where
  "dimension_entries m =
     concat (map (\<lambda>(k, d). map (\<lambda>x. (k, dm_name x, x)) (ds_dimensions d)) (sem_datasets m))"

definition measure_entries :: "semantic_model \<Rightarrow> measure entry list" where
  "measure_entries m =
     concat (map (\<lambda>(k, d). map (\<lambda>x. (k, ms_name x, x)) (ds_measures d)) (sem_datasets m))"

definition filter_entries :: "semantic_model \<Rightarrow> dataset_filter entry list" where
  "filter_entries m =
     concat (map (\<lambda>(k, d). map (\<lambda>(n, f). (k, n, f)) (ds_filters d)) (sem_datasets m))"

text \<open>The names under which a dataset may be addressed: relation, schema and catalog.\<close>

definition compound_names :: "string \<Rightarrow> dataset \<Rightarrow> string list" where
  "compound_names key d =
     (let relation = get_relation_name d key;
          schema_relation = py_join ''.'' (filter (\<lambda>p. p \<noteq> [])
            [case ds_schema_name d of None \<Rightarrow> [] | Some s \<Rightarrow> s, relation])
      in filter (\<lambda>c. c \<noteq> [])
        ([relation] @ (if schema_relation = [] then []
           else schema_relation # (case ds_catalog_name d of None \<Rightarrow> []
             | Some c \<Rightarrow> if c = [] then [] else [c @ ''.'' @ schema_relation]))))"

definition datasets_by_compound :: "semantic_model \<Rightarrow> (string, string) dict" where
  "datasets_by_compound m =
     foldl (\<lambda>acc (c, k). dict_set acc c k) []
       (concat (map (\<lambda>(k, d). map (\<lambda>c. (c, k)) (compound_names k d)) (sem_datasets m)))"

record resolver =
  rv_model :: semantic_model
  rv_dimensions_by_key :: "(string, dimension) dict"
  rv_measures_by_key :: "(string, measure) dict"
  rv_metrics_by_key :: "(string, string) dict"
  rv_filters_by_key :: "(string, dataset_filter) dict"
  rv_dimensions_by_name :: "(string, (string \<times> dimension) list) dict"
  rv_measures_by_name :: "(string, (string \<times> measure) list) dict"
  rv_filters_by_name :: "(string, (string \<times> dataset_filter) list) dict"
  rv_datasets_by_compound :: "(string, string) dict"

definition build_resolver :: "semantic_model \<Rightarrow> resolver" where
  "build_resolver m =
     \<lparr>rv_model = m,
      rv_dimensions_by_key = index_by_key (dimension_entries m),
      rv_measures_by_key = index_by_key (measure_entries m),
      rv_metrics_by_key = sem_metrics m,
      rv_filters_by_key = index_by_key (filter_entries m),
      rv_dimensions_by_name = index_by_name (dimension_entries m),
      rv_measures_by_name = index_by_name (measure_entries m),
      rv_filters_by_name = index_by_name (filter_entries m),
      rv_datasets_by_compound = datasets_by_compound m\<rparr>"

section \<open>Resolution\<close>

definition compound_member_at :: "(string, string) dict \<Rightarrow> string list \<Rightarrow> nat \<Rightarrow> (string \<times> string) option" where
  "compound_member_at by_compound parts sz =
     (let column = py_join ''.'' (drop sz parts)
      in case dict_get by_compound (py_join ''.'' (take sz parts)) of
           Some k \<Rightarrow> if k \<noteq> [] \<and> column \<noteq> [] then Some (k, column) else None
         | None \<Rightarrow> None)"

definition resolve_compound_member :: "(string, string) dict \<Rightarrow> string \<Rightarrow> (string \<times> string) option" where
  "resolve_compound_member by_compound member =
     (let parts = py_split (CHR ''.'') member
      in if length parts < 3 then None
         else case compound_member_at by_compound parts 3 of
           Some r \<Rightarrow> Some r
         | None \<Rightarrow> compound_member_at by_compound parts 2)"

text \<open>\<open>member.split(".", 1)\<close> for a member with a dot.\<close>

definition split_first_dot :: "string \<Rightarrow> string \<times> string" where
  "split_first_dot s = (takeWhile (\<lambda>c. c \<noteq> CHR ''.'') s, tl (dropWhile (\<lambda>c. c \<noteq> CHR ''.'') s))"

text \<open>The result is the dataset, the name within the dataset and the object.\<close>

definition resolve_entry ::
  "member_kind \<Rightarrow> (string, 'a) dict \<Rightarrow> (string, (string \<times> 'a) list) dict \<Rightarrow> (string, string) dict
   \<Rightarrow> string \<Rightarrow> (resolve_error, string \<times> string \<times> 'a) result" where
  "resolve_entry kind by_key by_name by_compound member =
     (if CHR ''.'' \<in> set member then
        (case dict_get by_key member of
           Some x \<Rightarrow> (case split_first_dot member of (d, n) \<Rightarrow> Inr (d, n, x))
         | None \<Rightarrow>
             (case resolve_compound_member by_compound member of
                None \<Rightarrow> Inl (Unknown_Member kind member)
              | Some (d, column) \<Rightarrow>
                  (case dict_get by_key (member_key d column) of
                     None \<Rightarrow> Inl (Unknown_Member kind member)
                   | Some x \<Rightarrow> Inr (d, column, x))))
      else
        (case (case dict_get by_name member of None \<Rightarrow> [] | Some xs \<Rightarrow> xs) of
           [] \<Rightarrow> Inl (Unknown_Member kind member)
         | [(d, x)] \<Rightarrow> Inr (d, member, x)
         | matches \<Rightarrow> Inl (Ambiguous_Member kind member (sort (map fst matches)))))"

definition dimension_ref_of :: "string \<Rightarrow> dimension \<Rightarrow> dimension_ref" where
  "dimension_ref_of d x =
     \<lparr>dr_dataset = d, dr_column = dm_name x,
      dr_expression = (case dm_expression x of Some (c # cs) \<Rightarrow> c # cs | _ \<Rightarrow> dm_name x),
      dr_data_type = dm_type x, dr_alias = dm_alias x\<rparr>"

definition measure_ref_of :: "string \<Rightarrow> measure \<Rightarrow> measure_ref" where
  "measure_ref_of d x =
     \<lparr>mr_dataset = d, mr_column = ms_name x,
      mr_expression = (case ms_expression x of Some (c # cs) \<Rightarrow> c # cs | _ \<Rightarrow> ms_name x),
      mr_data_type = ms_type x, mr_aggregation = ms_aggregation x\<rparr>"

definition resolve_dimension_entry ::
  "resolver \<Rightarrow> string \<Rightarrow> (resolve_error, string \<times> string \<times> dimension) result" where
  "resolve_dimension_entry r =
     resolve_entry Dimension_Member (rv_dimensions_by_key r) (rv_dimensions_by_name r) (rv_datasets_by_compound r)"

definition resolve_measure_entry ::
  "resolver \<Rightarrow> string \<Rightarrow> (resolve_error, string \<times> string \<times> measure) result" where
  "resolve_measure_entry r =
     resolve_entry Measure_Member (rv_measures_by_key r) (rv_measures_by_name r) (rv_datasets_by_compound r)"

definition resolve_filter_entry ::
  "resolver \<Rightarrow> string \<Rightarrow> (resolve_error, string \<times> string \<times> dataset_filter) result" where
  "resolve_filter_entry r =
     resolve_entry Segment_Member (rv_filters_by_key r) (rv_filters_by_name r) (rv_datasets_by_compound r)"

definition resolve_dimension :: "resolver \<Rightarrow> string \<Rightarrow> (resolve_error, dimension_ref) result" where
  "resolve_dimension r member = bindR (resolve_dimension_entry r member) (\<lambda>(d, n, x). Inr (dimension_ref_of d x))"

definition resolve_measure :: "resolver \<Rightarrow> string \<Rightarrow> (resolve_error, measure_ref) result" where
  "resolve_measure r member = bindR (resolve_measure_entry r member) (\<lambda>(d, n, x). Inr (measure_ref_of d x))"

definition resolve_metric :: "resolver \<Rightarrow> string \<Rightarrow> (resolve_error, metric_ref) result" where
  "resolve_metric r member =
     (case dict_get (rv_metrics_by_key r) member of
        None \<Rightarrow> Inl (Unknown_Member Metric_Member member)
      | Some e \<Rightarrow> Inr \<lparr>mt_key = member, mt_expression = e\<rparr>)"

text \<open>\<open>Inl\<close> a measure, \<open>Inr\<close> a metric; a metric of that name takes precedence.\<close>

definition resolve_measure_or_metric ::
  "resolver \<Rightarrow> string \<Rightarrow> (resolve_error, measure_ref + metric_ref) result" where
  "resolve_measure_or_metric r member =
     (if dict_has (rv_metrics_by_key r) member then bindR (resolve_metric r member) (\<lambda>x. Inr (Inr x))
      else case resolve_measure r member of
        Inr x \<Rightarrow> Inr (Inl x)
      | Inl e \<Rightarrow> if dict_has (rv_metrics_by_key r) member
                then bindR (resolve_metric r member) (\<lambda>x. Inr (Inr x)) else Inl e)"

definition resolve_segment :: "resolver \<Rightarrow> string \<Rightarrow> (resolve_error, segment_ref) result" where
  "resolve_segment r segment = bindR (resolve_filter_entry r segment) (\<lambda>(d, n, f).
     Inr \<lparr>sr_dataset = d, sr_key = n, sr_condition = df_condition f\<rparr>)"

section \<open>Datasets mentioned in an expression\<close>

text \<open>The position is a word boundary and the qualified prefix starts there.\<close>

definition qualifier_at :: "string \<Rightarrow> string \<Rightarrow> nat \<Rightarrow> bool" where
  "qualifier_at d s i =
     (prefix (d @ ''.'') (drop i s) \<and> (word_at s i \<noteq> (0 < i \<and> word_at s (i - 1))))"

definition extract_datasets_from_expression :: "resolver \<Rightarrow> string \<Rightarrow> string list" where
  "extract_datasets_from_expression r expression =
     filter (\<lambda>d. list_ex (qualifier_at d expression) [0..<Suc (length expression)])
       (dict_keys (sem_datasets (rv_model r)))"

section \<open>What the indexes hold\<close>

lemma index_by_key_from:
  "dict_get (foldl (\<lambda>m (k, n, x). dict_set m (member_key k n) x) acc es) q =
     (case map_of (rev (map (\<lambda>(k, n, x). (member_key k n, x)) es)) q of
        Some x \<Rightarrow> Some x | None \<Rightarrow> dict_get acc q)"
  by (induction es arbitrary: acc) (auto simp: map_of_append map_add_def split: option.splits)

lemma index_by_key_get:
  "dict_get (index_by_key es) q = map_of (rev (map (\<lambda>(k, n, x). (member_key k n, x)) es)) q"
  by (simp add: index_by_key_def index_by_key_from split: option.splits)

lemma index_by_key_sound:
  assumes "dict_get (index_by_key es) q = Some x"
  obtains k n where "(k, n, x) \<in> set es" "q = member_key k n"
  using assms map_of_SomeD by (fastforce simp: index_by_key_get)

definition named_entries :: "'a entry list \<Rightarrow> string \<Rightarrow> (string \<times> 'a) list" where
  "named_entries es n = map (\<lambda>(k, m, x). (k, x)) (filter (\<lambda>(k, m, x). m = n) es)"

lemma index_by_name_from:
  "(case dict_get (foldl append_entry acc es) n of None \<Rightarrow> [] | Some xs \<Rightarrow> xs)
   = (case dict_get acc n of None \<Rightarrow> [] | Some xs \<Rightarrow> xs) @ named_entries es n"
  by (induction es arbitrary: acc) (auto simp: named_entries_def append_entry_def split: option.splits)

lemma index_by_name_get:
  "(case dict_get (index_by_name es) n of None \<Rightarrow> [] | Some xs \<Rightarrow> xs) = named_entries es n"
  by (simp add: index_by_name_def index_by_name_from)

lemma split_member_key: "CHR ''.'' \<notin> set k \<Longrightarrow> split_first_dot (member_key k n) = (k, n)"
  by (induction k) (auto simp: split_first_dot_def member_key_def)

lemma member_key_inj:
  "\<lbrakk>member_key k n = member_key k' n'; CHR ''.'' \<notin> set k; CHR ''.'' \<notin> set k'\<rbrakk> \<Longrightarrow> k = k' \<and> n = n'"
  by (metis split_member_key prod.inject)

text \<open>Dataset keys without dots, distinct, and no name twice in a dataset.\<close>

definition keys_plain :: "semantic_model \<Rightarrow> bool" where
  "keys_plain m = (dict_ok (sem_datasets m) \<and> list_all (\<lambda>(k, d). CHR ''.'' \<notin> set k
     \<and> distinct (map dm_name (ds_dimensions d)) \<and> distinct (map ms_name (ds_measures d))) (sem_datasets m))"

definition entries_plain :: "'a entry list \<Rightarrow> bool" where
  "entries_plain es = ((\<forall>(k, n, x) \<in> set es. CHR ''.'' \<notin> set k)
     \<and> (\<forall>k n x y. (k, n, x) \<in> set es \<longrightarrow> (k, n, y) \<in> set es \<longrightarrow> x = y))"



lemma resolve_entry_sound:
  assumes "entries_plain es" "\<And>c k. dict_get by_compound c = Some k \<Longrightarrow> CHR ''.'' \<notin> set k"
    and "resolve_entry kind (index_by_key es) (index_by_name es) by_compound member = Inr (d, n, x)"
  shows "(d, n, x) \<in> set es"
proof (cases "CHR ''.'' \<in> set member")
  case True
  have key: "(k, c, x) \<in> set es" if "dict_get (index_by_key es) (member_key k c) = Some x"
      "CHR ''.'' \<notin> set k" for k c
  proof -
    from index_by_key_sound [OF that(1)] obtain k' n' where e: "(k', n', x) \<in> set es" "member_key k c = member_key k' n'" .
    then show ?thesis using member_key_inj [OF e(2) that(2)] assms(1) by (auto simp: entries_plain_def)
  qed
  show ?thesis
  proof (cases "dict_get (index_by_key es) member")
    case (Some y)
    from index_by_key_sound [OF this] obtain k' n' where e: "(k', n', y) \<in> set es" "member = member_key k' n'" .
    then have "split_first_dot member = (k', n')"
      using assms(1) by (auto simp: entries_plain_def intro!: split_member_key)
    then show ?thesis using True Some e assms(3) by (auto simp: resolve_entry_def)
  next
    case None
    then obtain "resolve_compound_member by_compound member = Some (d, n)"
        "dict_get (index_by_key es) (member_key d n) = Some x"
      using True assms(3) by (auto simp: resolve_entry_def split: option.splits)
    moreover from this(1) have "CHR ''.'' \<notin> set d"
      by (auto simp: resolve_compound_member_def compound_member_at_def Let_def
          split: if_splits option.splits dest: assms(2))
    ultimately show ?thesis using key by blast
  qed
next
  case False
  have "named_entries es member = [(d, x)]" "n = member"
    using False assms(3) by (auto simp: resolve_entry_def index_by_name_get split: list.splits)
  then have "(d, x) \<in> set (named_entries es member)" by simp
  with \<open>n = member\<close> show ?thesis by (auto simp: named_entries_def)
qed

lemma compound_values:
  "dict_get (foldl (\<lambda>acc (c, k). dict_set acc c k) acc cks) c = Some k
   \<Longrightarrow> k \<in> snd ` set cks \<or> dict_get acc c = Some k"
proof (induction cks arbitrary: acc)
  case (Cons p cks)
  obtain x y where p: "p = (x, y)" by (cases p)
  show ?case using Cons.IH [of "dict_set acc x y"] Cons.prems by (auto simp: p split: if_splits)
qed simp

lemma datasets_by_compound_keys:
  assumes "dict_get (datasets_by_compound m) c = Some k"
  shows "k \<in> fst ` set (sem_datasets m)"
proof -
  have "k \<in> snd ` set (concat (map (\<lambda>(k, d). map (\<lambda>c. (c, k)) (compound_names k d)) (sem_datasets m)))"
    using compound_values [OF assms [unfolded datasets_by_compound_def]] by simp
  then show ?thesis by force
qed

lemma compound_plain:
  "\<lbrakk>keys_plain m; dict_get (datasets_by_compound m) c = Some k\<rbrakk> \<Longrightarrow> CHR ''.'' \<notin> set k"
  using datasets_by_compound_keys by (fastforce simp: keys_plain_def list_all_iff)

lemma distinct_names_same:
  "\<lbrakk>distinct (map f xs); x \<in> set xs; y \<in> set xs; f x = f y\<rbrakk> \<Longrightarrow> x = y"
  by (metis distinct_map inj_onD)

lemma dimension_entries_iff:
  "(k, n, x) \<in> set (dimension_entries m) \<longleftrightarrow>
     (\<exists>d. (k, d) \<in> set (sem_datasets m) \<and> x \<in> set (ds_dimensions d) \<and> n = dm_name x)"
  by (auto simp: dimension_entries_def)

lemma measure_entries_iff:
  "(k, n, x) \<in> set (measure_entries m) \<longleftrightarrow>
     (\<exists>d. (k, d) \<in> set (sem_datasets m) \<and> x \<in> set (ds_measures d) \<and> n = ms_name x)"
  by (auto simp: measure_entries_def)

lemma same_dataset:
  "\<lbrakk>keys_plain m; (k, d) \<in> set (sem_datasets m); (k, d') \<in> set (sem_datasets m)\<rbrakk> \<Longrightarrow> d = d'"
  by (auto simp: keys_plain_def dict_ok_def intro: eq_key_imp_eq_value)

lemma plain_dataset:
  "\<lbrakk>keys_plain m; (k, d) \<in> set (sem_datasets m)\<rbrakk> \<Longrightarrow> CHR ''.'' \<notin> set k
     \<and> distinct (map dm_name (ds_dimensions d)) \<and> distinct (map ms_name (ds_measures d))"
  by (auto simp: keys_plain_def list_all_iff)

lemma dimension_entries_plain: "keys_plain m \<Longrightarrow> entries_plain (dimension_entries m)"
  unfolding entries_plain_def
proof (intro conjI ballI allI impI)
  fix e assume "keys_plain m" "e \<in> set (dimension_entries m)"
  then show "case e of (k, n, x) \<Rightarrow> CHR ''.'' \<notin> set k"
    by (cases e) (auto simp: dimension_entries_iff dest: plain_dataset)
next
  fix k n x y
  assume m: "keys_plain m" and "(k, n, x) \<in> set (dimension_entries m)" "(k, n, y) \<in> set (dimension_entries m)"
  then obtain d where "(k, d) \<in> set (sem_datasets m)" "x \<in> set (ds_dimensions d)" "y \<in> set (ds_dimensions d)"
      "dm_name x = dm_name y"
    using same_dataset [OF m] by (auto simp: dimension_entries_iff)
  then show "x = y" using plain_dataset [OF m] distinct_names_same by metis
qed

lemma measure_entries_plain: "keys_plain m \<Longrightarrow> entries_plain (measure_entries m)"
  unfolding entries_plain_def
proof (intro conjI ballI allI impI)
  fix e assume "keys_plain m" "e \<in> set (measure_entries m)"
  then show "case e of (k, n, x) \<Rightarrow> CHR ''.'' \<notin> set k"
    by (cases e) (auto simp: measure_entries_iff dest: plain_dataset)
next
  fix k n x y
  assume m: "keys_plain m" and "(k, n, x) \<in> set (measure_entries m)" "(k, n, y) \<in> set (measure_entries m)"
  then obtain d where "(k, d) \<in> set (sem_datasets m)" "x \<in> set (ds_measures d)" "y \<in> set (ds_measures d)"
      "ms_name x = ms_name y"
    using same_dataset [OF m] by (auto simp: measure_entries_iff)
  then show "x = y" using plain_dataset [OF m] distinct_names_same by metis
qed

lemmas entries_plain = dimension_entries_plain measure_entries_plain


text \<open>whatever form a member name has, plain, qualified or with schema and catalog, the
  reference it resolves to names a dataset of the model and a dimension or measure of this
  very dataset.\<close>

theorem resolved_members_exist:
  assumes "keys_plain m"
  shows "(case resolve_dimension (build_resolver m) member of Inl e \<Rightarrow> True
      | Inr r \<Rightarrow> \<exists>k d x. (k, d) \<in> set (sem_datasets m) \<and> x \<in> set (ds_dimensions d) \<and> r = dimension_ref_of k x)
    \<and> (case resolve_measure (build_resolver m) member of Inl e \<Rightarrow> True
      | Inr r \<Rightarrow> \<exists>k d x. (k, d) \<in> set (sem_datasets m) \<and> x \<in> set (ds_measures d) \<and> r = measure_ref_of k x)"
proof -
  have "\<exists>k d x. (k, d) \<in> set (sem_datasets m) \<and> x \<in> set (ds_dimensions d) \<and> r = dimension_ref_of k x"
    if r: "resolve_dimension (build_resolver m) member = Inr r" for r
  proof -
    obtain k n x where e: "resolve_dimension_entry (build_resolver m) member = Inr (k, n, x)" "r = dimension_ref_of k x"
      using r by (auto simp: resolve_dimension_def bindR_eq_Inr)
    have "(k, n, x) \<in> set (dimension_entries m)"
      by (rule resolve_entry_sound [OF entries_plain(1) [OF assms] compound_plain [OF assms]])
        (use e(1) in \<open>simp_all add: resolve_dimension_entry_def build_resolver_def\<close>)
    with e(2) show ?thesis by (auto simp: dimension_entries_iff)
  qed
  moreover have "\<exists>k d x. (k, d) \<in> set (sem_datasets m) \<and> x \<in> set (ds_measures d) \<and> r = measure_ref_of k x"
    if r: "resolve_measure (build_resolver m) member = Inr r" for r
  proof -
    obtain k n x where e: "resolve_measure_entry (build_resolver m) member = Inr (k, n, x)" "r = measure_ref_of k x"
      using r by (auto simp: resolve_measure_def bindR_eq_Inr)
    have "(k, n, x) \<in> set (measure_entries m)"
      by (rule resolve_entry_sound [OF entries_plain(2) [OF assms] compound_plain [OF assms]])
        (use e(1) in \<open>simp_all add: resolve_measure_entry_def build_resolver_def\<close>)
    with e(2) show ?thesis by (auto simp: measure_entries_iff)
  qed
  ultimately show ?thesis by (auto split: sum.splits)
qed

section \<open>Concrete models\<close>

definition ex_dimension :: "string \<Rightarrow> dimension" where
  "ex_dimension n = \<lparr>dm_name = n, dm_expression = None, dm_type = ''string'', dm_primary_key = False, dm_alias = None\<rparr>"

definition ex_measure :: "string \<Rightarrow> measure" where
  "ex_measure n = \<lparr>ms_name = n, ms_expression = None, ms_type = ''number'', ms_aggregation = Some ''sum''\<rparr>"

definition ex_semantic_model :: "string \<Rightarrow> semantic_model" where
  "ex_semantic_model k = \<lparr>sem_dialect = None,
     sem_datasets = [(k, \<lparr>ds_dataset_id = None, ds_relation_name = None, ds_schema_name = None,
       ds_catalog_name = None, ds_dimensions = [ex_dimension ''id'', ex_dimension ''day''],
       ds_measures = [ex_measure ''total''], ds_filters = []\<rparr>)],
     sem_relationships = [], sem_metrics = []\<rparr>"

lemma ex_keys_plain: "keys_plain (ex_semantic_model ''orders'')"
  by code_simp


theorem resolved_members_exist_witness:
  "case resolve_measure (build_resolver (ex_semantic_model ''orders'')) ''total'' of Inl e \<Rightarrow> True
     | Inr r \<Rightarrow> \<exists>k d x. (k, d) \<in> set (sem_datasets (ex_semantic_model ''orders'')) \<and> x \<in> set (ds_measures d)
         \<and> r = measure_ref_of k x"
  using resolved_members_exist [OF ex_keys_plain, of "''total''"] by blast

text \<open>With a dot in a dataset key the reference is wrong: the qualified member of the dataset
  whose key is sales.orders resolves to a dataset sales, which the model does not have.\<close>

theorem dotted_dataset_key_resolves_elsewhere:
  "case resolve_dimension (build_resolver (ex_semantic_model ''sales.orders'')) ''sales.orders.id'' of
     Inl e \<Rightarrow> False
   | Inr r \<Rightarrow> dr_dataset r = ''sales''
       \<and> dict_get (sem_datasets (ex_semantic_model ''sales.orders'')) (dr_dataset r) = None"
  by code_simp

end
