(* ===== verification/In_Memory_Store.thy ===== *)
theory In_Memory_Store
  imports Plan_Models "HOL-Library.Multiset"
begin

text \<open>
  The in-memory repositories of the runtime (\<open>runtime/persistence/in_memory.py\<close>): datasets,
  columns, policies, sync states, revisions, lineage edges, agents, threads, messages,
  conversation memory and semantic models. Records hold the fields that the repositories
  read and one value \<open>'x\<close> for all the others; they are values, so that a caller that keeps
  and changes a returned object is outside the model. A point in time is the number of
  microseconds since the least date that Python can represent. Repositories that share the
  contract of a keyed store are instances of one locale.
\<close>


definition or_min :: "time option \<Rightarrow> time" where
  "or_min t = (case t of None \<Rightarrow> 0 | Some n \<Rightarrow> n)"

text \<open>\<open>str.upper\<close>: the sharp s becomes two letters. The two letters whose capital is not below
  256 (micro sign, y with diaeresis) are kept.\<close>

definition py_upper_char :: "char \<Rightarrow> string" where
  "py_upper_char c = (let n = (of_char c :: nat) in
     if (97 \<le> n \<and> n \<le> 122) \<or> (224 \<le> n \<and> n \<le> 254 \<and> n \<noteq> 247) then [char_of (n - 32)]
     else if n = 223 then ''SS'' else [c])"

definition py_upper :: "string \<Rightarrow> string" where
  "py_upper s = concat (map py_upper_char s)"

section \<open>Sorting and slicing as Python does\<close>

text \<open>\<open>sort(key=f, reverse=True)\<close> on natural keys: stable, greatest first.\<close>

definition sort_desc :: "('a \<Rightarrow> nat) \<Rightarrow> 'a list \<Rightarrow> 'a list" where
  "sort_desc f xs = sort_key (\<lambda>x. - int (f x)) xs"

text \<open>\<open>items[start:start + max(1, limit)]\<close> with \<open>start = max(0, offset)\<close>.\<close>

definition page :: "int \<Rightarrow> int \<Rightarrow> 'a list \<Rightarrow> 'a list" where
  "page limit offset xs = take (nat (max 1 limit)) (drop (nat (max 0 offset)) xs)"

definition first_items :: "int \<Rightarrow> 'a list \<Rightarrow> 'a list" where
  "first_items limit xs = take (nat (max 1 limit)) xs"

lemma set_sort_desc [simp]: "set (sort_desc f xs) = set xs"
  by (simp add: sort_desc_def)

lemma mset_sort_desc [simp]: "mset (sort_desc f xs) = mset xs"
  by (simp add: sort_desc_def)

lemma sorted_sort_desc: "sorted_wrt (\<lambda>x y. f x \<ge> f y) (sort_desc f xs)"
proof -
  have "sorted (map (\<lambda>x. - int (f x)) (sort_desc f xs))" by (simp add: sort_desc_def)
  then show ?thesis by (simp add: sorted_wrt_map)
qed

section \<open>Keyed stores\<close>

text \<open>
  What the services rely on: writing a record makes it the one found under its key and
  leaves the others, and a record is found only under its own key.
\<close>

locale keyed_store =
  fixes key :: "'v \<Rightarrow> 'k"
    and put :: "'r \<Rightarrow> 'v \<Rightarrow> 'r"
    and get :: "'r \<Rightarrow> 'k \<Rightarrow> 'v option"
    and ok :: "'r \<Rightarrow> bool"
  assumes get_put: "get (put r v) k = (if k = key v then Some v else get r k)"
    and put_ok: "ok r \<Longrightarrow> ok (put r v)"
    and keyed: "\<lbrakk>ok r; get r k = Some v\<rbrakk> \<Longrightarrow> key v = k"
begin

lemma get_put_own: "get (put r v) (key v) = Some v"
  by (simp add: get_put)

lemma put_other: "k \<noteq> key v \<Longrightarrow> get (put r v) k = get r k"
  by (simp add: get_put)

lemma put_twice: "key v = key w \<Longrightarrow> get (put (put r v) w) k = get (put r w) k"
  by (simp add: get_put)

lemma put_commute: "key v \<noteq> key w \<Longrightarrow> get (put (put r v) w) k = get (put (put r w) v) k"
  by (simp add: get_put)

text \<open>After any sequence of writes the last record of a key is found.\<close>

lemma get_puts:
  "get (foldl put r vs) k =
     (case filter (\<lambda>v. key v = k) vs of [] \<Rightarrow> get r k | ws \<Rightarrow> Some (last (filter (\<lambda>v. key v = k) vs)))"
proof (induction vs arbitrary: r)
  case (Cons v vs)
  show ?case
    by (cases "filter (\<lambda>v. key v = k) vs") (auto simp: Cons.IH get_put)
qed simp

lemma puts_ok: "ok r \<Longrightarrow> ok (foldl put r vs)"
  by (induction vs arbitrary: r) (auto simp: put_ok)

end

text \<open>A keyed store that can list its records.\<close>

locale listed_store = keyed_store key put get ok
  for key :: "'v \<Rightarrow> 'k" and put :: "'r \<Rightarrow> 'v \<Rightarrow> 'r" and get :: "'r \<Rightarrow> 'k \<Rightarrow> 'v option" and ok +
  fixes all :: "'r \<Rightarrow> 'v list"
  assumes all_get: "ok r \<Longrightarrow> v \<in> set (all r) \<longleftrightarrow> get r (key v) = Some v"
begin

lemma filtered_all: "ok r \<Longrightarrow> v \<in> set (filter P (all r)) \<longleftrightarrow> get r (key v) = Some v \<and> P v"
  by (auto simp: all_get)

lemma all_put: "ok r \<Longrightarrow> v \<in> set (all (put r v))"
  using all_get [OF put_ok] by (simp add: get_put)

lemma all_keys_distinct:
  "\<lbrakk>ok r; v \<in> set (all r); w \<in> set (all r); key v = key w\<rbrakk> \<Longrightarrow> v = w"
  by (simp add: all_get)

end

section \<open>Datasets\<close>

datatype dataset_type = DT_Table | DT_Sql | DT_Api | DT_File | DT_Federated

datatype materialization_mode = MM_Live | MM_Synced

fun dataset_type_value :: "dataset_type \<Rightarrow> string" where
  "dataset_type_value DT_Table = ''TABLE''"
| "dataset_type_value DT_Sql = ''SQL''"
| "dataset_type_value DT_Api = ''API''"
| "dataset_type_value DT_File = ''FILE''"
| "dataset_type_value DT_Federated = ''FEDERATED''"

record 'x dataset_metadata =
  dt_id :: uuid
  dt_workspace_id :: uuid
  dt_connection_id :: "uuid option"
  dt_name :: string
  dt_sql_alias :: string
  dt_description :: "string option"
  dt_tags :: "string list"
  dt_type :: dataset_type
  dt_mode :: materialization_mode
  dt_table_name :: "string option"
  dt_updated_at :: "time option"
  dt_rest :: 'x

type_synonym 'x dataset_repo = "(uuid, 'x dataset_metadata) dict"

definition dataset_add :: "'x dataset_repo \<Rightarrow> 'x dataset_metadata \<Rightarrow> 'x dataset_repo" where
  "dataset_add r d = dict_set r (dt_id d) d"

definition dataset_save :: "'x dataset_repo \<Rightarrow> 'x dataset_metadata \<Rightarrow> 'x dataset_repo" where
  "dataset_save r d = dict_set r (dt_id d) d"

definition dataset_get_by_id :: "'x dataset_repo \<Rightarrow> uuid \<Rightarrow> 'x dataset_metadata option" where
  "dataset_get_by_id r i = dict_get r i"

definition dataset_get_for_workspace :: "'x dataset_repo \<Rightarrow> uuid \<Rightarrow> uuid \<Rightarrow> 'x dataset_metadata option" where
  "dataset_get_for_workspace r i w =
     (case dict_get r i of None \<Rightarrow> None | Some d \<Rightarrow> if dt_workspace_id d \<noteq> w then None else Some d)"

definition normal_name :: "string option \<Rightarrow> string" where
  "normal_name v = py_lower (py_strip (case v of None \<Rightarrow> [] | Some s \<Rightarrow> s))"

definition dataset_get_by_sql_alias ::
  "'x dataset_repo \<Rightarrow> uuid \<Rightarrow> string option \<Rightarrow> 'x dataset_metadata option" where
  "dataset_get_by_sql_alias r w sql_alias =
     (let n = normal_name sql_alias
      in if n = [] then None
         else find (\<lambda>d. dt_workspace_id d = w \<and> normal_name (Some (dt_sql_alias d)) = n) (dict_values r))"

definition dataset_get_by_ids :: "'x dataset_repo \<Rightarrow> uuid list \<Rightarrow> 'x dataset_metadata list" where
  "dataset_get_by_ids r ids = map (\<lambda>i. the (dict_get r i)) (filter (dict_has r) ids)"

definition dataset_get_by_ids_for_workspace ::
  "'x dataset_repo \<Rightarrow> uuid \<Rightarrow> uuid list \<Rightarrow> 'x dataset_metadata list" where
  "dataset_get_by_ids_for_workspace r w ids =
     concat (map (\<lambda>i. case dict_get r i of None \<Rightarrow> []
       | Some d \<Rightarrow> if dt_workspace_id d = w then [d] else []) ids)"

definition normal_tags :: "string list \<Rightarrow> string list" where
  "normal_tags ts = map (\<lambda>t. py_lower (py_strip t)) (filter (\<lambda>t. py_strip t \<noteq> []) ts)"

definition normal_types :: "string list \<Rightarrow> string list" where
  "normal_types ts = map (\<lambda>t. py_upper (py_strip t)) (filter (\<lambda>t. py_strip t \<noteq> []) ts)"

definition dataset_matches ::
  "string option \<Rightarrow> string list \<Rightarrow> string list \<Rightarrow> 'x dataset_metadata \<Rightarrow> bool" where
  "dataset_matches search tags types d =
     (let s = normal_name search; nt = normal_tags tags; ny = normal_types types
      in (s \<noteq> [] \<longrightarrow> contains_sub s (py_lower (dt_name d))
            \<or> contains_sub s (py_lower (case dt_description d of None \<Rightarrow> [] | Some x \<Rightarrow> x)))
         \<and> (nt \<noteq> [] \<longrightarrow> set nt \<subseteq> set (normal_tags (dt_tags d)))
         \<and> (ny \<noteq> [] \<longrightarrow> dataset_type_value (dt_type d) \<in> set ny))"

definition dataset_list_for_workspace ::
  "'x dataset_repo \<Rightarrow> uuid \<Rightarrow> string option \<Rightarrow> string list \<Rightarrow> string list \<Rightarrow> int \<Rightarrow> int
   \<Rightarrow> 'x dataset_metadata list" where
  "dataset_list_for_workspace r w search tags types limit offset =
     page limit offset (sort_desc (\<lambda>d. or_min (dt_updated_at d))
       (filter (\<lambda>d. dt_workspace_id d = w \<and> dataset_matches search tags types d) (dict_values r)))"

definition dataset_find_file ::
  "'x dataset_repo \<Rightarrow> uuid \<Rightarrow> uuid \<Rightarrow> string option \<Rightarrow> 'x dataset_metadata option" where
  "dataset_find_file r w c table =
     find (\<lambda>d. dt_workspace_id d = w \<and> dt_connection_id d = Some c \<and> dt_type d = DT_File
         \<and> dt_mode d = MM_Synced \<and> normal_name (dt_table_name d) = normal_name table) (dict_values r)"

definition dataset_list_for_connection ::
  "'x dataset_repo \<Rightarrow> uuid \<Rightarrow> uuid \<Rightarrow> string list \<Rightarrow> int \<Rightarrow> 'x dataset_metadata list" where
  "dataset_list_for_connection r w c types limit =
     first_items limit (sort_desc (\<lambda>d. or_min (dt_updated_at d))
       (filter (\<lambda>d. dt_workspace_id d = w \<and> dt_connection_id d = Some c
           \<and> (normal_types types = [] \<or> dataset_type_value (dt_type d) \<in> set (normal_types types)))
         (dict_values r)))"

text \<open>The constructor may be given records under other keys; \<open>add\<close> and \<open>save\<close> never do that.\<close>

definition keyed_dict :: "('v \<Rightarrow> 'k) \<Rightarrow> ('k, 'v) dict \<Rightarrow> bool" where
  "keyed_dict key r = (dict_ok r \<and> (\<forall>(k, v) \<in> set r. key v = k))"

lemma keyed_dict_get: "\<lbrakk>keyed_dict key r; dict_get r k = Some v\<rbrakk> \<Longrightarrow> key v = k"
  by (auto simp: keyed_dict_def dest: dict_get_in)

lemma keyed_dict_set: "keyed_dict key r \<Longrightarrow> keyed_dict key (dict_set r (key v) v)"
  by (auto simp: keyed_dict_def dest!: in_dict_set_cases)

lemma keyed_dict_values:
  "keyed_dict key r \<Longrightarrow> v \<in> set (dict_values r) \<longleftrightarrow> dict_get r (key v) = Some v"
proof
  assume k: "keyed_dict key r" and "v \<in> set (dict_values r)"
  then obtain i where i: "(i, v) \<in> set r" by (auto simp: dict_values_def)
  with k have "key v = i" and "dict_ok r" by (auto simp: keyed_dict_def)
  with i show "dict_get r (key v) = Some v" by (simp add: dict_ok_in)
next
  assume "dict_get r (key v) = Some v"
  then have "(key v, v) \<in> set r" by (rule dict_get_in)
  then show "v \<in> set (dict_values r)" by (force simp: dict_values_def)
qed

lemma keyed_dict_listed_store:
  assumes "\<And>r v. put r v = dict_set r (key v) v" "\<And>r k. get r k = dict_get r k"
  shows "listed_store key put get (keyed_dict key) dict_values"
proof unfold_locales
  show "get (put r v) k = (if k = key v then Some v else get r k)" for r v k
    by (simp add: assms)
  show "keyed_dict key r \<Longrightarrow> keyed_dict key (put r v)" for r v
    by (simp add: assms(1) keyed_dict_set)
  show "\<lbrakk>keyed_dict key r; get r k = Some v\<rbrakk> \<Longrightarrow> key v = k" for r k v
    unfolding assms(2) by (rule keyed_dict_get)
  show "keyed_dict key r \<Longrightarrow> v \<in> set (dict_values r) \<longleftrightarrow> get r (key v) = Some v" for r v
    unfolding assms(2) by (rule keyed_dict_values)
qed

interpretation dataset_store: listed_store dt_id dataset_add dataset_get_by_id
    "keyed_dict dt_id" dict_values
  by (rule keyed_dict_listed_store) (simp_all add: dataset_add_def dataset_get_by_id_def)

section \<open>Columns and policies\<close>

record 'x column_metadata =
  cm_dataset_id :: uuid
  cm_ordinal :: "int option"
  cm_rest :: 'x

type_synonym 'x column_repo = "(uuid, 'x column_metadata list) dict"

definition columns_of :: "'x column_repo \<Rightarrow> uuid \<Rightarrow> 'x column_metadata list" where
  "columns_of r i = (case dict_get r i of None \<Rightarrow> [] | Some cs \<Rightarrow> cs)"

definition ordinal :: "'x column_metadata \<Rightarrow> int" where
  "ordinal c = (case cm_ordinal c of None \<Rightarrow> 0 | Some n \<Rightarrow> n)"

definition column_list_for_dataset :: "'x column_repo \<Rightarrow> uuid \<Rightarrow> 'x column_metadata list" where
  "column_list_for_dataset r i = columns_of r i"

definition column_delete_for_dataset :: "'x column_repo \<Rightarrow> uuid \<Rightarrow> 'x column_repo" where
  "column_delete_for_dataset r i = dict_set r i []"

definition column_add :: "'x column_repo \<Rightarrow> 'x column_metadata \<Rightarrow> 'x column_repo" where
  "column_add r c = dict_set r (cm_dataset_id c) (sort_key ordinal (columns_of r (cm_dataset_id c) @ [c]))"

record 'x policy_metadata =
  po_dataset_id :: uuid
  po_rest :: 'x

definition policy_add :: "(uuid, 'x policy_metadata) dict \<Rightarrow> 'x policy_metadata \<Rightarrow> (uuid, 'x policy_metadata) dict" where
  "policy_add r p = dict_set r (po_dataset_id p) p"

definition policy_get_for_dataset :: "(uuid, 'x policy_metadata) dict \<Rightarrow> uuid \<Rightarrow> 'x policy_metadata option" where
  "policy_get_for_dataset r i = dict_get r i"

interpretation policy_store: listed_store po_dataset_id policy_add policy_get_for_dataset
    "keyed_dict po_dataset_id" dict_values
  by (rule keyed_dict_listed_store) (simp_all add: policy_add_def policy_get_for_dataset_def)

section \<open>Connector sync states\<close>

record 'x sync_state =
  ss_workspace_id :: uuid
  ss_connection_id :: uuid
  ss_source_key :: string
  ss_updated_at :: "time option"
  ss_rest :: 'x

type_synonym sync_key = "uuid \<times> uuid \<times> string"
type_synonym 'x sync_repo = "(sync_key, 'x sync_state) dict"

definition sync_key_of :: "'x sync_state \<Rightarrow> sync_key" where
  "sync_key_of s = (ss_workspace_id s, ss_connection_id s, py_strip (ss_source_key s))"

definition sync_add :: "'x sync_repo \<Rightarrow> 'x sync_state \<Rightarrow> 'x sync_repo" where
  "sync_add r s = dict_set r (sync_key_of s) s"

definition sync_get_for_resource :: "'x sync_repo \<Rightarrow> uuid \<Rightarrow> uuid \<Rightarrow> string \<Rightarrow> 'x sync_state option" where
  "sync_get_for_resource r w c name = dict_get r (w, c, py_strip name)"

definition sync_list_for_connection :: "'x sync_repo \<Rightarrow> uuid \<Rightarrow> uuid \<Rightarrow> 'x sync_state list" where
  "sync_list_for_connection r w c =
     sort_key (\<lambda>s. py_lower (ss_source_key s)) (sort_key (\<lambda>s. or_min (ss_updated_at s))
       (map snd (filter (\<lambda>((w', c', n), s). w' = w \<and> c' = c) r)))"

interpretation sync_store: listed_store sync_key_of sync_add dict_get
    "keyed_dict sync_key_of" dict_values
  by (rule keyed_dict_listed_store) (simp_all add: sync_add_def)

section \<open>Revisions and lineage\<close>

record 'x revision =
  rn_dataset_id :: uuid
  rn_number :: int
  rn_rest :: 'x

type_synonym 'x revision_repo = "(uuid, 'x revision list) dict"

definition revisions_of :: "'x revision_repo \<Rightarrow> uuid \<Rightarrow> 'x revision list" where
  "revisions_of r i = (case dict_get r i of None \<Rightarrow> [] | Some xs \<Rightarrow> xs)"

definition revision_add :: "'x revision_repo \<Rightarrow> 'x revision \<Rightarrow> 'x revision_repo" where
  "revision_add r v = dict_set r (rn_dataset_id v) (sort_key rn_number (revisions_of r (rn_dataset_id v) @ [v]))"

definition next_revision_number :: "'x revision_repo \<Rightarrow> uuid \<Rightarrow> int" where
  "next_revision_number r i =
     (let vs = revisions_of r i in if vs = [] then 1 else Max (set (map rn_number vs)) + 1)"

record 'x lineage_edge =
  le_workspace_id :: uuid
  le_target_type :: string
  le_target_id :: string
  le_rest :: 'x

definition edge_add :: "'x lineage_edge list \<Rightarrow> 'x lineage_edge \<Rightarrow> 'x lineage_edge list" where
  "edge_add r e = r @ [e]"

definition edge_delete_for_target ::
  "'x lineage_edge list \<Rightarrow> uuid \<Rightarrow> string \<Rightarrow> string \<Rightarrow> 'x lineage_edge list" where
  "edge_delete_for_target r w ty i =
     filter (\<lambda>e. \<not> (le_workspace_id e = w \<and> le_target_type e = ty \<and> le_target_id e = i)) r"

section \<open>LLM connections\<close>

text \<open>A record is a connection with the reference of its secret, if it has one; the registry that
  resolves references may fail. \<open>lc_rest\<close> holds the fields that are copied as they are.\<close>

record ('k, 'x) llm_connection =
  lc_api_key :: 'k
  lc_rest :: 'x

definition llm_get_by_id ::
  "('ref \<Rightarrow> ('e, 'k) result) \<Rightarrow> (uuid, ('k, 'x) llm_connection \<times> 'ref option) dict \<Rightarrow> uuid
   \<Rightarrow> ('e, ('k, 'x) llm_connection option) result" where
  "llm_get_by_id resolve r i =
     (case dict_get r i of
        None \<Rightarrow> Inr None
      | Some (c, None) \<Rightarrow> Inr (Some c)
      | Some (c, Some secret) \<Rightarrow> bindR (resolve secret) (\<lambda>k. Inr (Some (c\<lparr>lc_api_key := k\<rparr>))))"

section \<open>Threads and messages\<close>

record 'x thread =
  th_id :: uuid
  th_workspace_id :: uuid
  th_created_by :: "uuid option"
  th_created_at :: "time option"
  th_rest :: 'x

type_synonym 'x thread_repo = "(uuid, 'x thread) dict"




definition thread_list_for_actor :: "'x thread_repo \<Rightarrow> uuid option \<Rightarrow> 'x thread list" where
  "thread_list_for_actor r actor =
     (case actor of None \<Rightarrow> []
      | Some a \<Rightarrow> sort_desc (\<lambda>t. or_min (th_created_at t))
          (filter (\<lambda>t. th_created_by t = Some a) (dict_values r)))"



record 'x message =
  mg_thread_id :: uuid
  mg_rest :: 'x

definition message_add :: "'x message list \<Rightarrow> 'x message \<Rightarrow> 'x message list" where
  "message_add r m = r @ [m]"

definition message_list_for_thread :: "'x message list \<Rightarrow> uuid \<Rightarrow> 'x message list" where
  "message_list_for_thread r i = filter (\<lambda>m. mg_thread_id m = i) r"

definition message_delete_for_thread :: "'x message list \<Rightarrow> uuid \<Rightarrow> 'x message list" where
  "message_delete_for_thread r i = filter (\<lambda>m. mg_thread_id m \<noteq> i) r"

section \<open>Conversation memory\<close>

datatype memory_category = MC_fact | MC_preference | MC_decision | MC_tool_outcome | MC_answer

definition category_of :: "string \<Rightarrow> memory_category" where
  "category_of c =
     (if c = ''preference'' then MC_preference else if c = ''decision'' then MC_decision
      else if c = ''tool_outcome'' then MC_tool_outcome else if c = ''answer'' then MC_answer
      else MC_fact)"

record 'x memory_item =
  mi_id :: uuid
  mi_thread_id :: uuid
  mi_actor_id :: "uuid option"
  mi_category :: memory_category
  mi_content :: string
  mi_metadata :: 'x
  mi_created_at :: "time option"
  mi_updated_at :: "time option"
  mi_last_accessed_at :: "time option"

definition memory_list_for_thread :: "'x memory_item list \<Rightarrow> uuid \<Rightarrow> int \<Rightarrow> 'x memory_item list" where
  "memory_list_for_thread r i limit =
     first_items limit (sort_desc (\<lambda>m. or_min (mi_created_at m)) (filter (\<lambda>m. mi_thread_id m = i) r))"

text \<open>\<open>now\<close> and \<open>fresh\<close> are the clock and the random id of the new item.\<close>

definition memory_create_item ::
  "time \<Rightarrow> uuid \<Rightarrow> 'x memory_item list \<Rightarrow> uuid \<Rightarrow> string \<Rightarrow> string option \<Rightarrow> 'x \<Rightarrow> uuid option
   \<Rightarrow> 'x memory_item list \<times> 'x memory_item option" where
  "memory_create_item now fresh r thread_id category content metadata actor =
     (let clean = py_strip (case content of None \<Rightarrow> [] | Some s \<Rightarrow> s)
      in if clean = [] then (r, None)
         else let item = \<lparr>mi_id = fresh, mi_thread_id = thread_id, mi_actor_id = actor,
                mi_category = category_of category, mi_content = clean, mi_metadata = metadata,
                mi_created_at = Some now, mi_updated_at = Some now, mi_last_accessed_at = None\<rparr>
              in (r @ [item], Some item))"

definition memory_touch_items :: "time \<Rightarrow> 'x memory_item list \<Rightarrow> uuid list \<Rightarrow> 'x memory_item list" where
  "memory_touch_items now r ids =
     map (\<lambda>m. if mi_id m \<in> set ids then m\<lparr>mi_last_accessed_at := Some now\<rparr> else m) r"

section \<open>Semantic models\<close>

record 'x semantic_record =
  sx_id :: uuid
  sx_rest :: 'x

definition semantic_get_by_id :: "(uuid, 'x semantic_record) dict \<Rightarrow> uuid \<Rightarrow> 'x semantic_record option" where
  "semantic_get_by_id r i = dict_get r i"

definition semantic_get_by_ids :: "(uuid, 'x semantic_record) dict \<Rightarrow> uuid list \<Rightarrow> 'x semantic_record list" where
  "semantic_get_by_ids r ids = map (\<lambda>i. the (dict_get r i)) (filter (dict_has r) ids)"

definition semantic_upsert :: "(uuid, 'x semantic_record) dict \<Rightarrow> 'x semantic_record \<Rightarrow> (uuid, 'x semantic_record) dict" where
  "semantic_upsert r m = dict_set r (sx_id m) m"

interpretation semantic_store: listed_store sx_id semantic_upsert semantic_get_by_id "keyed_dict sx_id" dict_values
  by (rule keyed_dict_listed_store) (simp_all add: semantic_upsert_def semantic_get_by_id_def)

section \<open>Listings and pages\<close>

lemma page_index: "page limit (int i * max 1 limit) xs =
    take (nat (max 1 limit)) (drop (i * nat (max 1 limit)) xs)"
proof -
  have "nat (max 0 (int i * max 1 limit)) = i * nat (max 1 limit)"
    by (simp add: nat_mult_distrib max_def)
  then show ?thesis by (simp add: page_def)
qed

lemma concat_pages:
  "concat (map (\<lambda>i. take k (drop (i * k) xs)) [0..<n]) = take (n * k) xs"
proof (induction n)
  case (Suc n)
  have "take (Suc n * k) xs = take (n * k) xs @ take k (drop (n * k) xs)"
    using take_add [of "n * k" k xs] by (simp add: add.commute [of k])
  with Suc show ?case by simp
qed simp

text \<open>For every store, workspace and filter there is one listing, newest first and holding exactly
  the matching datasets of that workspace with their multiplicities, such that for every page
  size the consecutive pages of the listing operation put together are its beginning: paging
  neither repeats nor skips a dataset nor shows one of another workspace.\<close>

theorem dataset_pages_cover_listing:
  "\<exists>xs. sorted_wrt (\<lambda>a b. or_min (dt_updated_at a) \<ge> or_min (dt_updated_at b)) xs
     \<and> mset xs = filter_mset (\<lambda>d. dt_workspace_id d = w \<and> dataset_matches search tags types d)
         (mset (dict_values r))
     \<and> (\<forall>limit n. concat (map (\<lambda>i. dataset_list_for_workspace r w search tags types limit
             (int i * max 1 limit)) [0..<n]) = take (n * nat (max 1 limit)) xs)"
  by (rule exI [of _ "sort_desc (\<lambda>d. or_min (dt_updated_at d))
        (filter (\<lambda>d. dt_workspace_id d = w \<and> dataset_matches search tags types d) (dict_values r))"])
    (simp add: sorted_sort_desc dataset_list_for_workspace_def page_index concat_pages)

section \<open>The thread repository refines a finite map\<close>










lemma keyed_dict_Nil [simp]: "keyed_dict key []"
  by (simp add: keyed_dict_def)


section \<open>Revision numbers\<close>

definition numbers :: "'x revision_repo \<Rightarrow> uuid \<Rightarrow> int list" where
  "numbers r i = map rn_number (revisions_of r i)"

lemma revisions_of_add: "revisions_of (revision_add r v) i =
    (if i = rn_dataset_id v then sort_key rn_number (revisions_of r i @ [v]) else revisions_of r i)"
  by (simp add: revision_add_def revisions_of_def split: option.splits)

lemma next_number_above: "n \<in> set (numbers r i) \<Longrightarrow> n < next_revision_number r i"
  by (auto simp: numbers_def next_revision_number_def Let_def intro!: le_imp_less_Suc zle_add1_eq_le [THEN iffD2] Max_ge)

lemma sort_key_snoc_max:
  assumes "sorted (map f xs)" "\<And>x. x \<in> set xs \<Longrightarrow> f x \<le> f v"
  shows "sort_key f (xs @ [v]) = xs @ [v]"
  using assms by (intro sort_key_id_if_sorted) (simp add: sorted_append)

text \<open>When the revisions of a dataset are numbered in strictly increasing order, adding one under
  the next revision number puts it at the end, keeps the order strict, gives it a number that no
  earlier revision has, and leaves the revisions of every other dataset alone.\<close>

theorem revision_numbers_increase:
  assumes "sorted_wrt (<) (numbers r i)"
    and "rn_dataset_id v = i" and "rn_number v = next_revision_number r i"
  shows "revisions_of (revision_add r v) i = revisions_of r i @ [v]
    \<and> sorted_wrt (<) (numbers (revision_add r v) i)
    \<and> rn_number v \<notin> set (numbers r i)
    \<and> next_revision_number (revision_add r v) i = rn_number v + 1
    \<and> (\<forall>j. j \<noteq> i \<longrightarrow> revisions_of (revision_add r v) j = revisions_of r j)"
proof -
  have above: "\<And>n. n \<in> set (numbers r i) \<Longrightarrow> n < rn_number v"
    using assms(3) next_number_above by simp
  have s: "sorted (map rn_number (revisions_of r i))"
    using assms(1) by (auto simp: numbers_def strict_sorted_iff)
  have rev: "revisions_of (revision_add r v) i = revisions_of r i @ [v]"
    using sort_key_snoc_max [OF s, of v] above assms(2) by (auto simp: revisions_of_add numbers_def less_imp_le)
  have nums: "numbers (revision_add r v) i = numbers r i @ [rn_number v]"
    by (simp add: numbers_def rev)
  have "Max (insert (rn_number v) (set (numbers r i))) = rn_number v"
    using above by (intro Max_eqI) (auto simp: less_imp_le)
  then have nx: "next_revision_number (revision_add r v) i = rn_number v + 1"
    by (simp add: next_revision_number_def Let_def rev numbers_def)
  from above assms(1,2) rev nums nx show ?thesis
    by (auto simp: sorted_wrt_append revisions_of_add)
qed

theorem revision_numbers_increase_witness:
  "let r = [(''d'', [\<lparr>rn_dataset_id = ''d'', rn_number = 3, rn_rest = ()\<rparr>])];
       v = \<lparr>rn_dataset_id = ''d'', rn_number = 4, rn_rest = ()\<rparr>
   in numbers (revision_add r v) ''d'' = [3, 4] \<and> next_revision_number (revision_add r v) ''d'' = 5"
  using revision_numbers_increase [of "[(''d'', [\<lparr>rn_dataset_id = ''d'', rn_number = 3, rn_rest = ()\<rparr>])]" "''d''"
      "\<lparr>rn_dataset_id = ''d'', rn_number = 4, rn_rest = ()\<rparr>"]
  by (simp add: numbers_def revisions_of_def dict_get_def next_revision_number_def Let_def)

end
