(* ===== verification/Access_Policy.thy ===== *)
theory Access_Policy
  imports Plan_Models
begin

text \<open>
  The access policy of the agents (\<open>orchestrator/runtime/access_policy.py\<close>): the decision
  over the connectors behind an analytical asset, the denied assets of a scope, the search of
  a request for the names of denied assets, and the response that refuses it. A request is
  what the code reads of it: question, limit and filters. Connector ids are their string
  forms; the values of filters and the recovery actions are opaque.
\<close>

section \<open>Names in a text\<close>

fun collapse_blanks :: "bool \<Rightarrow> string \<Rightarrow> string" where
  "collapse_blanks after [] = []"
| "collapse_blanks after (c # s) =
     (if py_isspace c then (if after then collapse_blanks True s else CHR '' '' # collapse_blanks True s)
      else c # collapse_blanks False s)"

definition normalize_text :: "string \<Rightarrow> string" where
  "normalize_text s = py_strip (collapse_blanks False (py_lower (py_strip s)))"

definition replace_char :: "char \<Rightarrow> char \<Rightarrow> string \<Rightarrow> string" where
  "replace_char a b s = map (\<lambda>c. if c = a then b else c) s"

definition expand_match_variants :: "string \<Rightarrow> string list" where
  "expand_match_variants value =
     (let n = normalize_text value
      in if n = [] then []
         else map py_strip (filter (\<lambda>v. py_strip v \<noteq> [])
           ([n, replace_char (CHR ''_'') (CHR '' '') n, replace_char (CHR ''-'') (CHR '' '') n,
             replace_char (CHR ''.'') (CHR '' '') n]
            @ (if CHR '' '' \<in> set n
               then [replace_char (CHR '' '') (CHR ''_'') n, replace_char (CHR '' '') (CHR ''-'') n]
               else []))))"

text \<open>\<open>_TOKEN_RE.findall\<close>: the maximal runs of letters, digits and underscores.\<close>

definition token_char :: "char \<Rightarrow> bool" where
  "token_char c = (let n = (of_char c :: nat) in
     (48 \<le> n \<and> n \<le> 57) \<or> (65 \<le> n \<and> n \<le> 90) \<or> (97 \<le> n \<and> n \<le> 122) \<or> n = 95)"

definition tokens :: "string \<Rightarrow> string list" where
  "tokens s = char_runs token_char [] s"

section \<open>Decisions\<close>

type_synonym connector_id = string

definition sorted_connector_ids :: "connector_id list \<Rightarrow> connector_id list" where
  "sorted_connector_ids ids = py_sorted_set ids"

record data_access_policy =
  dp_allowed_connectors :: "connector_id list"
  dp_denied_connectors :: "connector_id list"

datatype policy_rule =
    Rule_Unknown_Ownership | Rule_Denied | Rule_Outside_Allowed | Rule_Allowed

record decision =
  de_allowed :: bool
  de_policy_rule :: policy_rule
  de_connector_ids :: "connector_id list"
  de_denied_connector_ids :: "connector_id list"
  de_unknown_ownership :: bool

fun rationale :: "policy_rule \<Rightarrow> string" where
  "rationale Rule_Unknown_Ownership = ''Connector ownership could not be resolved for this analytical asset, so it is blocked under the current access policy.''"
| "rationale Rule_Denied = ''One or more backing connectors are explicitly denied by the agent access policy.''"
| "rationale Rule_Outside_Allowed = ''The asset uses backing connectors outside the agent's allowed connector scope.''"
| "rationale Rule_Allowed = ''The asset is within the configured connector access scope.''"

definition has_restrictions :: "data_access_policy \<Rightarrow> bool" where
  "has_restrictions p = (dp_allowed_connectors p \<noteq> [] \<or> dp_denied_connectors p \<noteq> [])"

definition evaluate_asset_connectors ::
  "data_access_policy \<Rightarrow> connector_id option list \<Rightarrow> bool \<Rightarrow> decision" where
  "evaluate_asset_connectors p ids unknown =
     (let resolved = sorted_connector_ids (List.map_filter id ids);
          has_unknown = unknown \<or> list_ex (\<lambda>i. i = None) ids;
          denied = sorted_connector_ids (filter (\<lambda>i. i \<in> set (dp_denied_connectors p)) resolved);
          outside = sorted_connector_ids (filter (\<lambda>i. dp_allowed_connectors p \<noteq> []
            \<and> i \<notin> set (dp_allowed_connectors p)) resolved)
      in if has_restrictions p \<and> (has_unknown \<or> resolved = [])
         then \<lparr>de_allowed = False, de_policy_rule = Rule_Unknown_Ownership,
               de_connector_ids = resolved, de_denied_connector_ids = [], de_unknown_ownership = True\<rparr>
         else if denied \<noteq> []
         then \<lparr>de_allowed = False, de_policy_rule = Rule_Denied, de_connector_ids = resolved,
               de_denied_connector_ids = denied, de_unknown_ownership = False\<rparr>
         else if outside \<noteq> []
         then \<lparr>de_allowed = False, de_policy_rule = Rule_Outside_Allowed, de_connector_ids = resolved,
               de_denied_connector_ids = outside, de_unknown_ownership = False\<rparr>
         else \<lparr>de_allowed = True, de_policy_rule = Rule_Allowed, de_connector_ids = resolved,
               de_denied_connector_ids = [], de_unknown_ownership = False\<rparr>)"

section \<open>Denied assets and scopes\<close>

datatype asset_type = Asset_Dataset | Asset_Semantic_Model

record denied_asset =
  da_asset_type :: asset_type
  da_asset_id :: string
  da_asset_name :: string
  da_dataset_names :: "string list"
  da_sql_aliases :: "string list"
  da_connector_ids :: "connector_id list"
  da_denied_connector_ids :: "connector_id list"
  da_policy_rule :: policy_rule
  da_policy_rationale :: string
  da_unknown_ownership :: bool

definition build_denied_asset ::
  "asset_type \<Rightarrow> string \<Rightarrow> string \<Rightarrow> string list \<Rightarrow> string list \<Rightarrow> decision \<Rightarrow> denied_asset" where
  "build_denied_asset ty i name datasets aliases d =
     \<lparr>da_asset_type = ty, da_asset_id = i, da_asset_name = name,
      da_dataset_names = filter (\<lambda>x. py_strip x \<noteq> []) datasets,
      da_sql_aliases = filter (\<lambda>x. py_strip x \<noteq> []) aliases,
      da_connector_ids = de_connector_ids d, da_denied_connector_ids = de_denied_connector_ids d,
      da_policy_rule = de_policy_rule d, da_policy_rationale = rationale (de_policy_rule d),
      da_unknown_ownership = de_unknown_ownership d\<rparr>"

type_synonym 'x filters = "(string, 'x) dict option"

definition filter_names :: "'x filters \<Rightarrow> string list" where
  "filter_names fs = (case fs of None \<Rightarrow> [] | Some d \<Rightarrow> dict_keys d)"

definition combined_text :: "string \<Rightarrow> 'x filters \<Rightarrow> string" where
  "combined_text question fs =
     py_join '' '' (filter (\<lambda>p. p \<noteq> [])
       [normalize_text question, normalize_text (py_join '' '' (filter_names fs))])"

definition asset_names :: "denied_asset \<Rightarrow> string list" where
  "asset_names a = da_asset_name a # da_dataset_names a @ da_sql_aliases a"

definition match_terms :: "denied_asset \<Rightarrow> string list" where
  "match_terms a = sort_key (\<lambda>t. - int (length t))
     (remdups (concat (map expand_match_variants (asset_names a))))"

definition matches_request :: "denied_asset \<Rightarrow> string \<Rightarrow> 'x filters \<Rightarrow> bool" where
  "matches_request a question fs =
     (let txt = combined_text question fs
      in txt \<noteq> [] \<and> list_ex (\<lambda>t. (CHR '' '' \<in> set t \<and> contains_sub t txt)
           \<or> (t \<in> set (tokens txt) \<and> 3 \<le> length t)) (match_terms a))"

record access_scope =
  as_policy_enforced :: bool
  as_authorized_asset_count :: int
  as_denied_assets :: "denied_asset list"

definition denied_asset_count :: "access_scope \<Rightarrow> int" where
  "denied_asset_count s = int (length (as_denied_assets s))"

definition all_configured_assets_denied :: "access_scope \<Rightarrow> bool" where
  "all_configured_assets_denied s = (as_denied_assets s \<noteq> [] \<and> as_authorized_asset_count s \<le> 0)"

definition match_denied_request :: "access_scope \<Rightarrow> string \<Rightarrow> 'x filters \<Rightarrow> denied_asset option" where
  "match_denied_request s question fs = find (\<lambda>a. matches_request a question fs) (as_denied_assets s)"

definition aggregate_denied_connector_ids :: "access_scope \<Rightarrow> connector_id list" where
  "aggregate_denied_connector_ids s = py_sorted_set (concat (map (\<lambda>a.
     if da_denied_connector_ids a \<noteq> [] then da_denied_connector_ids a else da_connector_ids a)
     (as_denied_assets s)))"

section \<open>The refusal\<close>

datatype 'x metadata_value =
    M_Str string
  | M_Int int
  | M_No_Value
  | M_Bool bool
  | M_Strs "string list"
  | M_Filters "(string, 'x) dict"

fun rule_text :: "policy_rule \<Rightarrow> string" where
  "rule_text Rule_Unknown_Ownership = ''unknown_connector_ownership''"
| "rule_text Rule_Denied = ''denied_connectors''"
| "rule_text Rule_Outside_Allowed = ''outside_allowed_connectors''"
| "rule_text Rule_Allowed = ''allowed''"

fun asset_type_text :: "asset_type \<Rightarrow> string" where
  "asset_type_text Asset_Dataset = ''dataset''"
| "asset_type_text Asset_Semantic_Model = ''semantic_model''"

definition asset_metadata :: "denied_asset \<Rightarrow> (string, 'x metadata_value) dict" where
  "asset_metadata a =
     [(''requested_asset_name'', M_Str (da_asset_name a)),
      (''requested_asset_id'', M_Str (da_asset_id a)),
      (''requested_asset_type'', M_Str (asset_type_text (da_asset_type a))),
      (''requested_dataset_names'', M_Strs (da_dataset_names a)),
      (''requested_sql_aliases'', M_Strs (da_sql_aliases a)),
      (''connector_ids'', M_Strs (da_connector_ids a)),
      (''denied_connector_ids'', M_Strs (da_denied_connector_ids a)),
      (''policy_rule'', M_Str (rule_text (da_policy_rule a))),
      (''policy_rationale'', M_Str (da_policy_rationale a)),
      (''unknown_connector_ownership'', M_Bool (da_unknown_ownership a))]"

definition scope_metadata :: "access_scope \<Rightarrow> (string, 'x metadata_value) dict" where
  "scope_metadata s =
     [(''policy_enforced'', M_Bool (as_policy_enforced s)),
      (''authorized_assets_count'', M_Int (as_authorized_asset_count s)),
      (''denied_assets_count'', M_Int (denied_asset_count s)),
      (''denied_connector_ids'', M_Strs (aggregate_denied_connector_ids s))]"

definition build_access_denied_message :: "denied_asset option \<Rightarrow> access_scope \<Rightarrow> string" where
  "build_access_denied_message denied s =
     (case denied of
        None \<Rightarrow> ''Access denied: none of this agent's configured analytical assets are available under the current connector access policy.''
      | Some a \<Rightarrow>
          (case da_policy_rule a of
             Rule_Unknown_Ownership \<Rightarrow> ''Access denied: '' @ da_asset_name a
               @ '' is blocked because its backing connector ownership could not be resolved under the current access policy.''
           | Rule_Denied \<Rightarrow> ''Access denied: '' @ da_asset_name a
               @ '' uses a connector that is explicitly denied for this agent.''
           | Rule_Outside_Allowed \<Rightarrow> ''Access denied: '' @ da_asset_name a
               @ '' is outside this agent's allowed connector scope.''
           | Rule_Allowed \<Rightarrow>
               if all_configured_assets_denied s
               then ''Access denied: the current agent cannot reach any of its configured analytical assets under the active connector policy.''
               else ''Access denied: the requested analytical asset is outside this agent's access policy.''))"

definition build_recovery_hint :: "access_scope \<Rightarrow> string" where
  "build_recovery_hint s =
     (if as_authorized_asset_count s > 0 then ''Retry with one of the agent's in-scope analytical assets.''
      else if as_policy_enforced s
      then ''Ask an administrator to expand the agent's connector policy or update the configured analytical assets.''
      else ''Adjust the request or update the agent access policy before retrying.'')"

record 'x analyst_request =
  ar_question :: string
  ar_limit :: "int option"
  ar_filters :: "'x filters"

datatype outcome_status =
    OS_success | OS_empty_result | OS_access_denied | OS_invalid_request | OS_query_error
  | OS_selection_error | OS_execution_error | OS_needs_clarification

datatype outcome_stage =
    OG_request | OG_authorization | OG_selection | OG_query | OG_execution | OG_result | OG_clarification

record ('x, 'r) outcome =
  oc_status :: outcome_status
  oc_stage :: "outcome_stage option"
  oc_message :: "string option"
  oc_original_error :: "string option"
  oc_recoverable :: bool
  oc_terminal :: bool
  oc_retry_count :: nat
  oc_asset_id :: "string option"
  oc_asset_name :: "string option"
  oc_asset_type :: "asset_type option"
  oc_recovery_actions :: "'r list"
  oc_metadata :: "(string, 'x metadata_value) dict"

record ('x, 'r) analyst_response =
  rs_asset_type :: asset_type
  rs_asset_id :: string
  rs_asset_name :: string
  rs_sql_canonical :: string
  rs_sql_executable :: string
  rs_dialect :: string
  rs_selected_datasets :: "string list"
  rs_has_result :: bool
  rs_error :: "string option"
  rs_outcome :: "('x, 'r) outcome"

text \<open>The validator that runs when a response with an outcome and an error is built.\<close>

definition ensure_outcome :: "('x, 'r) analyst_response \<Rightarrow> ('x, 'r) analyst_response" where
  "ensure_outcome r =
     (let o1 = rs_outcome r;
          o2 = (if oc_asset_id o1 = None \<and> rs_asset_id r \<noteq> [] then o1\<lparr>oc_asset_id := Some (rs_asset_id r)\<rparr> else o1);
          o3 = (if oc_asset_name o2 = None \<and> rs_asset_name r \<noteq> [] then o2\<lparr>oc_asset_name := Some (rs_asset_name r)\<rparr> else o2);
          o4 = (if oc_asset_type o3 = None then o3\<lparr>oc_asset_type := Some (rs_asset_type r)\<rparr> else o3);
          empty = (\<lambda>t :: string option. t = None \<or> t = Some [])
      in if empty (rs_error r) \<and> \<not> empty (oc_message o4) then r\<lparr>rs_outcome := o4, rs_error := oc_message o4\<rparr>
         else if \<not> empty (rs_error r) \<and> empty (oc_message o4)
         then r\<lparr>rs_outcome := o4\<lparr>oc_message := rs_error r,
                oc_original_error := (if empty (oc_original_error o4) then rs_error r else oc_original_error o4)\<rparr>\<rparr>
         else r\<lparr>rs_outcome := o4\<rparr>)"

definition build_access_denied_response ::
  "'x analyst_request \<Rightarrow> access_scope \<Rightarrow> denied_asset option \<Rightarrow> 'r list \<Rightarrow> ('x, 'r) analyst_response" where
  "build_access_denied_response rq s denied actions =
     (let message = build_access_denied_message denied s;
          base = dict_update
            [(''question'', M_Str (ar_question rq)),
             (''limit'', case ar_limit rq of None \<Rightarrow> M_No_Value | Some n \<Rightarrow> M_Int n),
             (''filters'', M_Filters (case ar_filters rq of None \<Rightarrow> [] | Some fs \<Rightarrow> fs)),
             (''recovery_hint'', M_Str (build_recovery_hint s)),
             (''policy_rationale'', M_Str (case denied of
                 None \<Rightarrow> ''All configured analytical assets fall outside the current connector access policy.''
               | Some a \<Rightarrow> da_policy_rationale a))] (scope_metadata s);
          meta = (case denied of None \<Rightarrow> base | Some a \<Rightarrow> dict_update base (asset_metadata a));
          ty = (case denied of None \<Rightarrow> Asset_Dataset | Some a \<Rightarrow> da_asset_type a)
      in ensure_outcome
        \<lparr>rs_asset_type = ty,
         rs_asset_id = (case denied of None \<Rightarrow> [] | Some a \<Rightarrow> da_asset_id a),
         rs_asset_name = (case denied of None \<Rightarrow> [] | Some a \<Rightarrow> da_asset_name a),
         rs_sql_canonical = [], rs_sql_executable = [], rs_dialect = ''n/a'',
         rs_selected_datasets = [], rs_has_result = False, rs_error = Some message,
         rs_outcome =
           \<lparr>oc_status = OS_access_denied, oc_stage = Some OG_authorization, oc_message = Some message,
            oc_original_error = Some ''access_denied'', oc_recoverable = False, oc_terminal = True,
            oc_retry_count = 0, oc_asset_id = map_option da_asset_id denied,
            oc_asset_name = map_option da_asset_name denied, oc_asset_type = map_option da_asset_type denied,
            oc_recovery_actions = actions, oc_metadata = meta\<rparr>\<rparr>)"

section \<open>What a decision means\<close>

lemma set_sorted_connector_ids [simp]: "set (sorted_connector_ids ids) = set ids"
  by (simp add: sorted_connector_ids_def)

lemma sorted_connector_ids_Nil [simp]: "sorted_connector_ids ids = [] \<longleftrightarrow> ids = []"
  by (metis set_sorted_connector_ids set_empty)

lemma set_resolved [simp]: "set (List.map_filter id ids) = {i. Some i \<in> set ids}"
  by (force simp: map_filter_def)

lemma resolved_Nil: "List.map_filter id ids = [] \<longleftrightarrow> {i. Some i \<in> set ids} = {}"
  by (metis set_resolved set_empty)

lemma none_unknown: "list_ex (\<lambda>i. i = None) ids \<longleftrightarrow> None \<in> set ids"
  by (auto simp: list_ex_iff)

text \<open>C17: An asset is allowed exactly when the policy restricts nothing, or when every connector
  behind it is known, there is at least one, none is denied and all are among the allowed ones
  if any are listed. The connectors that a refusal blames are, in order and without
  repetition, connectors of the asset that the policy rules out, and there is one unless the
  ownership is unknown.\<close>

theorem access_decision_correct:
  "let d = evaluate_asset_connectors p ids unknown; cs = {i. Some i \<in> set ids};
       A = set (dp_allowed_connectors p); D = set (dp_denied_connectors p)
   in (de_allowed d \<longleftrightarrow> (A = {} \<and> D = {})
         \<or> (\<not> unknown \<and> None \<notin> set ids \<and> cs \<noteq> {} \<and> cs \<inter> D = {} \<and> (A = {} \<or> cs \<subseteq> A)))
      \<and> set (de_connector_ids d) = cs
      \<and> sorted (de_denied_connector_ids d) \<and> distinct (de_denied_connector_ids d)
      \<and> set (de_denied_connector_ids d) \<subseteq> cs \<inter> (D \<union> (if A = {} then {} else - A))
      \<and> (de_allowed d \<or> de_unknown_ownership d \<or> de_denied_connector_ids d \<noteq> [])"
proof -
  let ?d = "evaluate_asset_connectors p ids unknown"
  let ?cs = "{i. Some i \<in> set ids}"
  let ?A = "set (dp_allowed_connectors p)" and ?D = "set (dp_denied_connectors p)"
  have allowed: "de_allowed ?d \<longleftrightarrow> (?A = {} \<and> ?D = {})
      \<or> (\<not> unknown \<and> None \<notin> set ids \<and> ?cs \<noteq> {} \<and> ?cs \<inter> ?D = {} \<and> (?A = {} \<or> ?cs \<subseteq> ?A))"
    unfolding evaluate_asset_connectors_def Let_def has_restrictions_def
    by (auto simp: none_unknown resolved_Nil filter_empty_conv)
  have ids: "set (de_connector_ids ?d) = ?cs"
    unfolding evaluate_asset_connectors_def Let_def by simp
  have order: "sorted (de_denied_connector_ids ?d) \<and> distinct (de_denied_connector_ids ?d)"
    unfolding evaluate_asset_connectors_def Let_def sorted_connector_ids_def by simp
  have blamed: "set (de_denied_connector_ids ?d) \<subseteq> ?cs \<inter> (?D \<union> (if ?A = {} then {} else - ?A))"
    unfolding evaluate_asset_connectors_def Let_def by auto
  have reason: "de_allowed ?d \<or> de_unknown_ownership ?d \<or> de_denied_connector_ids ?d \<noteq> []"
    unfolding evaluate_asset_connectors_def Let_def by simp
  from allowed ids order blamed reason show ?thesis
    unfolding Let_def by (intro conjI) simp_all
qed

theorem access_decision_correct_witness:
  "de_allowed (evaluate_asset_connectors
      \<lparr>dp_allowed_connectors = [''a''], dp_denied_connectors = [''b'']\<rparr> [Some ''a''] False)
   \<and> \<not> de_allowed (evaluate_asset_connectors
      \<lparr>dp_allowed_connectors = [''a''], dp_denied_connectors = [''b'']\<rparr> [Some ''a'', None] False)"
  using access_decision_correct [of "\<lparr>dp_allowed_connectors = [''a''], dp_denied_connectors = [''b'']\<rparr>" "[Some ''a'']" False]
    access_decision_correct [of "\<lparr>dp_allowed_connectors = [''a''], dp_denied_connectors = [''b'']\<rparr>" "[Some ''a'', None]" False]
  by (simp add: Let_def)

section \<open>Requests that name a denied asset\<close>

text \<open>A word of a text: a run of token characters that is not part of a longer one.\<close>

definition whole_word :: "string \<Rightarrow> string \<Rightarrow> bool" where
  "whole_word w txt = (\<exists>pre post. txt = pre @ w @ post
     \<and> (pre = [] \<or> \<not> token_char (last pre)) \<and> (post = [] \<or> \<not> token_char (hd post)))"

lemma whole_word_token:
  assumes "whole_word w txt" "w \<noteq> []" "list_all token_char w"
  shows "w \<in> set (tokens txt)"
proof -
  obtain pre post where t: "txt = pre @ w @ post" "pre = [] \<or> \<not> token_char (last pre)"
      "post = [] \<or> \<not> token_char (hd post)"
    using assms(1) by (auto simp: whole_word_def)
  have "w \<in> set (tokens (w @ post))"
    unfolding tokens_def using char_runs_word [OF assms(3), of "[]" post] char_runs_end [of w post token_char, OF assms(2) t(3)] by simp
  then show ?thesis
    unfolding tokens_def using t(1,2) char_runs_skip [of pre token_char "w @ post" "[]"] by (cases "pre = []") auto
qed

lemma whole_word_append:
  assumes "whole_word w txt" "rest = [] \<or> \<not> token_char (hd rest)"
  shows "whole_word w (txt @ rest)"
proof -
  obtain pre post where "txt = pre @ w @ post" "pre = [] \<or> \<not> token_char (last pre)"
      "post = [] \<or> \<not> token_char (hd post)"
    using assms(1) by (auto simp: whole_word_def)
  with assms(2) show ?thesis
    unfolding whole_word_def by (intro exI [of _ pre] exI [of _ "post @ rest"]) (cases post; auto)
qed

lemma combined_text_question:
  "\<exists>rest. combined_text q fs = normalize_text q @ rest \<and>
     (rest = [] \<or> normalize_text q = [] \<or> \<not> token_char (hd rest))"
proof -
  have b: "\<not> token_char (CHR '' '')" by (simp add: token_char_def)
  show ?thesis
  proof (cases "normalize_text (py_join '' '' (filter_names fs)) = [] \<or> normalize_text q = []")
    case True
    then show ?thesis by (auto simp: combined_text_def)
  next
    case False
    then have "combined_text q fs = normalize_text q @ '' '' @ normalize_text (py_join '' '' (filter_names fs))"
      by (simp add: combined_text_def)
    with b show ?thesis by auto
  qed
qed

lemma own_variant: "normalize_text v \<noteq> [] \<Longrightarrow> normalize_text v \<in> set (expand_match_variants v)"
  by (simp add: expand_match_variants_def Let_def normalize_text_def)

lemma matches_named:
  assumes v: "v \<in> set (asset_names a)" and len: "3 \<le> length (normalize_text v)"
    and tok: "list_all token_char (normalize_text v)"
    and w: "whole_word (normalize_text v) (normalize_text q)"
  shows "matches_request a q fs"
proof -
  let ?w = "normalize_text v"
  have ne: "?w \<noteq> []" using len by auto
  have q: "normalize_text q \<noteq> []" using w ne by (auto simp: whole_word_def)
  obtain rest where "combined_text q fs = normalize_text q @ rest" "rest = [] \<or> \<not> token_char (hd rest)"
    using combined_text_question [of q fs] q by auto
  with whole_word_append [OF w] have "whole_word ?w (combined_text q fs)" by simp
  then have "?w \<in> set (tokens (combined_text q fs))" "combined_text q fs \<noteq> []"
    using whole_word_token [OF _ ne tok] ne by (auto simp: whole_word_def)
  moreover have "?w \<in> set (match_terms a)"
    using own_variant [OF ne] v by (auto simp: match_terms_def)
  ultimately show ?thesis
    using len by (auto simp: matches_request_def Let_def list_ex_iff)
qed

text \<open>A request whose question has, as a whole word, a name of a denied asset (its own, one of its
  datasets or an alias) made of at least three letters, digits or underscores is refused,
  whatever its filters; the asset that is reported is a denied one that the request matches,
  and no earlier denied asset matches.\<close>

theorem named_denied_asset_is_refused:
  assumes "a \<in> set (as_denied_assets s)" and "v \<in> set (asset_names a)"
    and "3 \<le> length (normalize_text v)" and "list_all token_char (normalize_text v)"
    and "whole_word (normalize_text v) (normalize_text q)"
  shows "\<exists>xs b ys. match_denied_request s q fs = Some b \<and> as_denied_assets s = xs @ b # ys
    \<and> matches_request b q fs \<and> \<not> list_ex (\<lambda>x. matches_request x q fs) xs"
proof -
  have "list_ex (\<lambda>x. matches_request x q fs) (as_denied_assets s)"
    using matches_named [OF assms(2-5)] assms(1) by (auto simp: list_ex_iff)
  then show ?thesis
    unfolding match_denied_request_def
  proof (induction "as_denied_assets s" arbitrary: s)
    case (Cons x zs)
    show ?case
    proof (cases "matches_request x q fs")
      case True
      with Cons.hyps(2) [symmetric] show ?thesis by (intro exI [of _ "[]"]) auto
    next
      case False
      from Cons.hyps(1) [of "s\<lparr>as_denied_assets := zs\<rparr>"] Cons.prems False Cons.hyps(2) [symmetric]
      obtain xs b ys where *: "find (\<lambda>a. matches_request a q fs) zs = Some b" "zs = xs @ b # ys"
          "matches_request b q fs" "\<not> list_ex (\<lambda>x. matches_request x q fs) xs"
        by auto
      with False Cons.hyps(2) [symmetric] show ?thesis
        by (intro exI [of _ "x # xs"] exI [of _ b] exI [of _ ys]) auto
    qed
  qed simp
qed

definition ex_denied :: "string \<Rightarrow> denied_asset" where
  "ex_denied n = build_denied_asset Asset_Dataset ''d1'' n [] []
     (evaluate_asset_connectors \<lparr>dp_allowed_connectors = [], dp_denied_connectors = [''c1'']\<rparr> [Some ''c1''] False)"

definition ex_scope :: "string \<Rightarrow> access_scope" where
  "ex_scope n = \<lparr>as_policy_enforced = True, as_authorized_asset_count = 1, as_denied_assets = [ex_denied n]\<rparr>"

lemma ex_names: "normalize_text ''Pay'' = ''pay'' \<and> list_all token_char ''pay''
    \<and> normalize_text ''my PAY  x'' = ''my pay x''"
  by code_simp

theorem named_denied_asset_is_refused_witness:
  "\<exists>b. match_denied_request (ex_scope ''Pay'') ''my PAY  x'' (None :: unit filters) = Some b"
proof -
  have w: "whole_word ''pay'' ''my pay x''"
    unfolding whole_word_def
    by (intro exI [of _ "''my ''"] exI [of _ "'' x''"]) (simp add: token_char_def)
  show ?thesis
    using named_denied_asset_is_refused [of "ex_denied ''Pay''" "ex_scope ''Pay''" "''Pay''"
        "''my PAY  x''" "None :: unit filters"] w ex_names
    by (auto simp: ex_scope_def asset_names_def ex_denied_def build_denied_asset_def)
qed

text \<open>A denied asset whose only name has a dot or a hyphen in it is not recognised when the question
  is exactly that name: neither does the name with blanks occur in the text nor is the name one
  token.\<close>

theorem dotted_asset_name_escapes:
  "match_denied_request (ex_scope ''hr.pay'') ''hr.pay'' (None :: unit filters) = None
   \<and> match_denied_request (ex_scope ''hr-pay'') ''hr-pay'' (None :: unit filters) = None"
  by code_simp

end
