(* ===== verification/Sql_Guard.thy ===== *)
theory Sql_Guard
  imports Sql_Utils
begin

text \<open>
  The SQL helpers that guard queries (\<open>runtime/utils/sql.py\<close>, which repeats the functions of
  \<open>federation/utils/sql.py\<close>; the fingerprint and the risk hints exist only there): parameters and
  literals, the read-only and allow-list checks, masking of secrets in error messages and the
  redaction of results. Regular expressions are written as scanners: at every position a
  matcher sees the character before it and the rest of the subject. Of a parameter value
  the model has what the rendering reads; texts of floats and points in time and the JSON
  text of a dictionary are those of Python's printers.
\<close>

section \<open>Placeholders\<close>

text \<open>\<open>{{ name }}\<close> and \<open>:name\<close>, the latter not after a colon and up to a word boundary.\<close>

definition match_template :: "char option \<Rightarrow> string \<Rightarrow> (nat \<times> string) option" where
  "match_template before s =
     (if prefix ''{{'' s
      then let w = takeWhile py_isspace (drop 2 s) in
        (case match_ident (drop (2 + length w) s) of
           None \<Rightarrow> None
         | Some i \<Rightarrow>
             let s3 = drop (2 + length w + length i) s; w' = takeWhile py_isspace s3
             in if prefix ''}}'' (drop (length w') s3)
                then Some (4 + length w + length i + length w', i) else None)
      else None)"

definition match_colon :: "char option \<Rightarrow> string \<Rightarrow> (nat \<times> string) option" where
  "match_colon before s =
     (if before \<noteq> Some (CHR '':'') \<and> prefix '':'' s
      then (case match_ident (tl s) of
              None \<Rightarrow> None
            | Some i \<Rightarrow>
                let rest = drop (Suc (length i)) s
                in if rest = [] \<or> \<not> word_char (hd rest) then Some (Suc (length i), i) else None)
      else None)"

section \<open>Literals and parameters\<close>

datatype sql_value =
    V_None
  | V_Bool bool
  | V_Int int
  | V_Float string
  | V_Temporal string
  | V_Items "sql_value list"
  | V_Dict string
  | V_Text string

abbreviation quote :: char where
  "quote \<equiv> CHR 0x27"

definition double_quotes :: "string \<Rightarrow> string" where
  "double_quotes s = py_replace [quote] [quote, quote] s"

fun to_sql_literal :: "sql_value \<Rightarrow> string" where
  "to_sql_literal V_None = ''NULL''"
| "to_sql_literal (V_Bool b) = (if b then ''1'' else ''0'')"
| "to_sql_literal (V_Int n) = py_str_int n"
| "to_sql_literal (V_Float txt) = txt"
| "to_sql_literal (V_Temporal stamp) = [quote] @ stamp @ [quote]"
| "to_sql_literal (V_Items vs) = ''('' @ py_join '', '' (map to_sql_literal vs) @ '')''"
| "to_sql_literal (V_Dict json) = [quote] @ double_quotes json @ [quote]"
| "to_sql_literal (V_Text s) = [quote] @ double_quotes s @ [quote]"

type_synonym sql_params = "(string, sql_value) dict"

definition replace_param :: "sql_params \<Rightarrow> string \<Rightarrow> (sql_error, string) result" where
  "replace_param params key =
     (case dict_get params key of
        None \<Rightarrow> Inl (Missing_Parameter key)
      | Some v \<Rightarrow> Inr (to_sql_literal v))"

definition render_sql_with_params :: "string \<Rightarrow> sql_params \<Rightarrow> (sql_error, string) result" where
  "render_sql_with_params query params =
     bindR (scan_sub match_template (replace_param params) 0 None query)
       (\<lambda>rendered. scan_sub match_colon (replace_param params) 0 None rendered)"

section \<open>Checks of a query\<close>

text \<open>
  \<open>go_statements\<close> is \<open>sqlglot.parse\<close> with \<open>None\<close> for a \<open>ParseError\<close> (a statement may itself be
  missing), \<open>go_has_class\<close> says which node classes the installed sqlglot has, and \<open>go_contains\<close>
  whether a node of a class occurs in a tree, its root included. \<open>go_joins\<close>, \<open>go_arg\<close> and
  \<open>go_star\<close> count joins, test an argument of the root and look for a star.
\<close>

record 'x guard_ops =
  go_statements :: "string \<Rightarrow> string \<Rightarrow> 'x option list option"
  go_has_class :: "string \<Rightarrow> bool"
  go_contains :: "string \<Rightarrow> 'x \<Rightarrow> bool"
  go_joins :: "'x \<Rightarrow> nat"
  go_arg :: "string \<Rightarrow> 'x \<Rightarrow> bool"
  go_star :: "'x \<Rightarrow> bool"

definition forbidden_nodes :: "'x guard_ops \<Rightarrow> string list" where
  "forbidden_nodes go = filter (go_has_class go)
     [''Insert'', ''Update'', ''Delete'', ''Drop'', ''Alter'', ''Create'', ''Merge'', ''TruncateTable'']"

text \<open>\<open>^\s*([a-zA-Z_]+)\<close>\<close>

definition first_token :: "string \<Rightarrow> string" where
  "first_token query = takeWhile ident_start (dropWhile py_isspace query)"

definition enforce_read_only_sql ::
  "'x guard_ops \<Rightarrow> string \<Rightarrow> bool \<Rightarrow> string \<Rightarrow> (sql_error, unit) result" where
  "enforce_read_only_sql go query allow_dml dialect =
     (if allow_dml then Inr ()
      else case go_statements go (normalize_sql_dialect (Some dialect) ''tsql'') query of
        None \<Rightarrow> Inl Sql_Parse_Failed
      | Some [] \<Rightarrow> Inl Query_Empty
      | Some [statement] \<Rightarrow>
          if py_lower (first_token query) \<notin> {''select'', ''with''} then Inl Not_Read_Only
          else (case statement of
              None \<Rightarrow> if forbidden_nodes go = [] then Inr () else Inl Statement_Missing
            | Some e \<Rightarrow> if list_ex (\<lambda>k. go_contains go k e) (forbidden_nodes go)
                then Inl Not_Read_Only else Inr ())
      | Some _ \<Rightarrow> Inl Not_Single_Statement)"

definition table_key :: "table_expr \<Rightarrow> string option \<times> string" where
  "table_key t = (let schema = py_lower (py_strip (te_db t))
     in (if schema = [] then None else Some schema, py_lower (py_strip (te_name t))))"

text \<open>The references in the order in which they are first seen.\<close>

definition first_seen :: "'a list \<Rightarrow> 'a list" where
  "first_seen xs = foldl (\<lambda>acc x. if x \<in> set acc then acc else acc @ [x]) [] xs"

definition extract_table_references ::
  "'x sql_ops \<Rightarrow> string \<Rightarrow> string \<Rightarrow> (string option \<times> string) list" where
  "extract_table_references so query dialect =
     (case so_parse so (normalize_sql_dialect (Some dialect) ''tsql'') query of
        None \<Rightarrow> []
      | Some e \<Rightarrow> first_seen (filter (\<lambda>r. snd r \<noteq> []) (map table_key (so_tables so e))))"

definition normal_names :: "string list \<Rightarrow> string list" where
  "normal_names xs = map (\<lambda>x. py_lower (py_strip x)) (filter (\<lambda>x. py_strip x \<noteq> []) xs)"

fun check_references ::
  "string list \<Rightarrow> string list \<Rightarrow> (string option \<times> string) list \<Rightarrow> (sql_error, unit) result" where
  "check_references schemas tables [] = Inr ()"
| "check_references schemas tables ((schema, table) # refs) =
     (case schema of
        Some s \<Rightarrow>
          if schemas \<noteq> [] \<and> s \<notin> set schemas then Inl (Schema_Not_Permitted s)
          else if tables \<noteq> [] \<and> s @ ''.'' @ table \<notin> set tables \<and> table \<notin> set tables
          then Inl (Table_Not_Permitted (s @ ''.'' @ table))
          else check_references schemas tables refs
      | None \<Rightarrow>
          if tables \<noteq> [] \<and> table \<notin> set tables then Inl (Table_Not_Permitted table)
          else check_references schemas tables refs)"

definition enforce_table_allowlist ::
  "'x sql_ops \<Rightarrow> string \<Rightarrow> string list \<Rightarrow> string list \<Rightarrow> string \<Rightarrow> (sql_error, unit) result" where
  "enforce_table_allowlist so query allowed_schemas allowed_tables dialect =
     (let schemas = normal_names allowed_schemas; tables = normal_names allowed_tables
      in if schemas = [] \<and> tables = [] then Inr ()
         else check_references schemas tables (extract_table_references so query dialect))"

definition transpile_sql ::
  "'x sql_ops \<Rightarrow> string \<Rightarrow> string \<Rightarrow> string \<Rightarrow> (sql_error, string) result" where
  "transpile_sql so query source_dialect target_dialect =
     (let source = normalize_sql_dialect (Some source_dialect) ''tsql'';
          target = normalize_sql_dialect (Some target_dialect) ''tsql''
      in if source = target then Inr query
         else case so_parse so source query of
           None \<Rightarrow> Inl Sql_Parse_Failed
         | Some e \<Rightarrow> Inr (so_sql so target e))"

section \<open>Fingerprints and risk hints\<close>

definition normalize_blanks :: "string \<Rightarrow> string" where
  "normalize_blanks s = py_join '' '' (py_words s)"

definition fingerprint_query :: "(string \<Rightarrow> string) \<Rightarrow> string \<Rightarrow> string" where
  "fingerprint_query sha256 query = sha256 (normalize_blanks (py_strip query))"

definition whole_word_at :: "string \<Rightarrow> string \<Rightarrow> nat \<Rightarrow> bool" where
  "whole_word_at w s i =
     (prefix w (drop i s) \<and> word_at s i \<noteq> (0 < i \<and> word_at s (i - 1))
      \<and> word_at s (i + length w) \<noteq> (0 < i + length w \<and> word_at s (i + length w - 1)))"

definition has_keyword :: "string \<Rightarrow> string \<Rightarrow> bool" where
  "has_keyword w s = list_ex (whole_word_at w s) [0..<Suc (length s)]"

record risk_hints =
  rk_is_expensive :: bool
  rk_warnings :: "string list"
  rk_dangerous :: "string list"

definition dangerous_statements :: "string \<Rightarrow> string list" where
  "dangerous_statements lowered =
     map snd (filter (\<lambda>(k, u). has_keyword k lowered)
       [(''drop'', ''DROP''), (''truncate'', ''TRUNCATE''), (''delete'', ''DELETE''),
        (''update'', ''UPDATE''), (''insert'', ''INSERT''), (''alter'', ''ALTER''),
        (''create'', ''CREATE''), (''merge'', ''MERGE'')])"

definition detect_sql_risk_hints :: "'x sql_ops \<Rightarrow> 'x guard_ops \<Rightarrow> string \<Rightarrow> risk_hints" where
  "detect_sql_risk_hints so go query =
     (let lowered = py_lower query;
          warnings = (case so_parse so ''tsql'' query of
            None \<Rightarrow>
              (if sublist '' join '' lowered then [''Query contains JOINs and may scan large datasets.''] else [])
              @ (if \<not> sublist '' where '' lowered then [''Query has no WHERE clause.''] else [])
              @ (if \<not> sublist '' top '' lowered \<and> \<not> sublist '' limit '' lowered
                 then [''Query has no explicit row cap.''] else [])
          | Some e \<Rightarrow>
              (if 3 \<le> go_joins go e then [''Query joins 3 or more tables.''] else [])
              @ (if \<not> go_arg go ''where'' e \<and> go_arg go ''from'' e then [''Query has no WHERE clause.''] else [])
              @ (if \<not> go_arg go ''limit'' e then [''Query has no explicit row cap.''] else [])
              @ (if go_star go e then [''SELECT * can increase scan cost and payload size.''] else []))
      in \<lparr>rk_is_expensive = warnings \<noteq> [], rk_warnings = warnings,
          rk_dangerous = dangerous_statements lowered\<rparr>)"

section \<open>Error messages\<close>

definition secret_keyword :: "string \<Rightarrow> string option" where
  "secret_keyword s = find (\<lambda>k. py_lower (take (length k) s) = k)
     [''password'', ''pwd'', ''secret'', ''token'']"

definition secret_char :: "char \<Rightarrow> bool" where
  "secret_char c = (c \<noteq> CHR '';'' \<and> c \<noteq> CHR '','' \<and> \<not> py_isspace c)"

text \<open>The group is the keyword as written and the value that follows the equals sign.\<close>

definition match_secret :: "char option \<Rightarrow> string \<Rightarrow> (nat \<times> string \<times> string) option" where
  "match_secret before s =
     (case secret_keyword s of
        None \<Rightarrow> None
      | Some k \<Rightarrow>
          let n1 = length k; w1 = takeWhile py_isspace (drop n1 s); n2 = n1 + length w1
          in if prefix ''='' (drop n2 s)
             then let w2 = takeWhile py_isspace (drop (Suc n2) s); n3 = Suc n2 + length w2;
                      v = takeWhile secret_char (drop n3 s)
               in if v = [] then None else Some (n3 + length v, take n1 s, v)
             else None)"

definition mask_secrets :: "string \<Rightarrow> string" where
  "mask_secrets s =
     (case scan_sub match_secret (\<lambda>(k, v). Inr (k @ ''=***'') :: (unit, string) result) 0 None s of
        Inl _ \<Rightarrow> [] | Inr t \<Rightarrow> t)"

definition sanitize_sql_error_message :: "string \<Rightarrow> nat \<Rightarrow> string" where
  "sanitize_sql_error_message err max_length =
     (let n = mask_secrets (normalize_blanks err)
      in if length n > max_length then py_rstrip (take max_length n) @ ''...'' else n)"

section \<open>Redaction of results\<close>

datatype 'v cell = Cell_None | Cell_Value 'v | Cell_Text string

type_synonym 'v row = "(string, 'v cell) dict"

definition normalized_rules :: "(string, string) dict \<Rightarrow> (string, string) dict" where
  "normalized_rules rules =
     foldl (\<lambda>m (k, v). if k = [] then m else dict_set m (py_lower k) (py_lower v)) [] rules"

text \<open>\<open>txt\<close> is \<open>str(value)\<close> and \<open>sha256\<close> the digest in hexadecimal.\<close>

definition redact_entry ::
  "('v cell \<Rightarrow> string) \<Rightarrow> (string \<Rightarrow> string) \<Rightarrow> (string, string) dict
   \<Rightarrow> 'v row \<times> bool \<Rightarrow> string \<times> 'v cell \<Rightarrow> 'v row \<times> bool" where
  "redact_entry txt sha256 rules acc entry =
     (case acc of (next_row, applied) \<Rightarrow> case entry of (col, v) \<Rightarrow>
       (case dict_get rules (py_lower col) of
          None \<Rightarrow> (next_row, applied)
        | Some rule \<Rightarrow>
            if v = Cell_None then (next_row, applied)
            else if rule \<in> {''omit'', ''drop'', ''remove''} then (dict_pop next_row col, True)
            else if rule = ''null'' then (dict_set next_row col Cell_None, True)
            else if rule = ''hash'' then (dict_set next_row col (Cell_Text (take 16 (sha256 (txt v)))), True)
            else (dict_set next_row col (Cell_Text ''***''), True)))"

definition redact_row ::
  "('v cell \<Rightarrow> string) \<Rightarrow> (string \<Rightarrow> string) \<Rightarrow> (string, string) dict \<Rightarrow> 'v row \<Rightarrow> 'v row \<times> bool" where
  "redact_row txt sha256 rules row = foldl (redact_entry txt sha256 rules) (row, False) row"

definition apply_result_redaction ::
  "('v cell \<Rightarrow> string) \<Rightarrow> (string \<Rightarrow> string) \<Rightarrow> 'v row list \<Rightarrow> (string, string) dict \<Rightarrow> 'v row list \<times> bool" where
  "apply_result_redaction txt sha256 rows rules =
     (if rows = [] \<or> rules = [] then (rows, False)
      else let nr = normalized_rules rules
        in if nr = [] then (rows, False)
           else (map (\<lambda>r. fst (redact_row txt sha256 nr r)) rows,
                 list_ex (\<lambda>r. snd (redact_row txt sha256 nr r)) rows))"

section \<open>Text literals\<close>


lemma double_quotes_Nil [simp]: "double_quotes [] = []"
  by (simp add: double_quotes_def py_replace.simps)

lemma double_quotes_Cons [simp]:
  "double_quotes (c # s) = (if c = quote then [quote, quote] else [c]) @ double_quotes s"
  unfolding double_quotes_def by (subst py_replace.simps) auto




text \<open>The second pass of parameter substitution also reads the literals that the first pass has
  written: a parameter value that looks like a placeholder is replaced inside its quotes by the
  literal of another parameter, which ends the string early, so that the text of the second
  value is read as SQL.\<close>

theorem parameter_values_are_rescanned:
  "render_sql_with_params ''SELECT {{a}}''
     [(''a'', V_Text '':b''), (''b'', V_Text '' OR 1=1 --'')]
   = Inr (''SELECT '' @ [quote, quote] @ '' OR 1=1 --'' @ [quote, quote])
   \<and> to_sql_literal (V_Text '':b'') = [quote] @ '':b'' @ [quote]"
  by code_simp

section \<open>Allow-lists\<close>

definition reference_permitted :: "string list \<Rightarrow> string list \<Rightarrow> string option \<times> string \<Rightarrow> bool" where
  "reference_permitted schemas tables r =
     (case r of (None, t) \<Rightarrow> tables = [] \<or> t \<in> set tables
      | (Some s, t) \<Rightarrow> (schemas = [] \<or> s \<in> set schemas)
          \<and> (tables = [] \<or> s @ ''.'' @ t \<in> set tables \<or> t \<in> set tables))"

lemma reference_permitted_simps:
  "reference_permitted schemas tables (None, t) \<longleftrightarrow> tables = [] \<or> t \<in> set tables"
  "reference_permitted schemas tables (Some s, t) \<longleftrightarrow> (schemas = [] \<or> s \<in> set schemas)
     \<and> (tables = [] \<or> s @ ''.'' @ t \<in> set tables \<or> t \<in> set tables)"
  by (simp_all add: reference_permitted_def)

lemma check_references_iff:
  "check_references schemas tables refs = Inr () \<longleftrightarrow> list_all (reference_permitted schemas tables) refs"
proof (induction refs)
  case (Cons r refs)
  obtain schema t where "r = (schema, t)" by (cases r)
  with Cons show ?case by (cases schema) (auto simp: reference_permitted_simps)
qed simp

lemma set_first_seen: "set (first_seen xs) = set xs"
proof -
  have "set (foldl (\<lambda>acc x. if x \<in> set acc then acc else acc @ [x]) acc xs) = set acc \<union> set xs" for acc
    by (induction xs arbitrary: acc) auto
  then show ?thesis by (simp add: first_seen_def)
qed

text \<open>The allow-list check accepts a query exactly when no list is given or every table that the
  parsed query names is permitted: its schema is listed if it has one and schemas are listed,
  and it is listed with or without its schema if tables are listed. So a table without a schema
  passes every list of schemas, and a query that cannot be parsed names no table and passes.\<close>

theorem allowlist_accepts_iff:
  "let schemas = normal_names allowed_schemas; tables = normal_names allowed_tables;
       parsed = so_parse so (normalize_sql_dialect (Some dialect) ''tsql'') query
   in enforce_table_allowlist so query allowed_schemas allowed_tables dialect = Inr ()
      \<longleftrightarrow> schemas = [] \<and> tables = []
        \<or> (case parsed of None \<Rightarrow> True
            | Some e \<Rightarrow> list_all (\<lambda>t. snd (table_key t) = [] \<or> reference_permitted schemas tables (table_key t))
                (so_tables so e))"
proof -
  let ?S = "normal_names allowed_schemas" and ?T = "normal_names allowed_tables"
  let ?parsed = "so_parse so (normalize_sql_dialect (Some dialect) ''tsql'') query"
  have refs: "list_all (reference_permitted ?S ?T) (extract_table_references so query dialect)
      \<longleftrightarrow> (case ?parsed of None \<Rightarrow> True
          | Some e \<Rightarrow> list_all (\<lambda>t. snd (table_key t) = [] \<or> reference_permitted ?S ?T (table_key t)) (so_tables so e))"
  proof (cases ?parsed)
    case (Some e)
    then have "extract_table_references so query dialect
        = first_seen (filter (\<lambda>r. snd r \<noteq> []) (map table_key (so_tables so e)))"
      by (simp add: extract_table_references_def)
    then show ?thesis
      unfolding Some option.case list_all_iff by (simp only: set_first_seen set_filter set_map) blast
  qed (simp add: extract_table_references_def)
  have "enforce_table_allowlist so query allowed_schemas allowed_tables dialect = Inr ()
      \<longleftrightarrow> ?S = [] \<and> ?T = [] \<or> list_all (reference_permitted ?S ?T) (extract_table_references so query dialect)"
    unfolding enforce_table_allowlist_def Let_def check_references_iff
    by (cases "?S = [] \<and> ?T = []") (auto simp: check_references_iff)
  then show ?thesis unfolding Let_def refs .
qed

section \<open>What redaction leaves\<close>

definition redacted_cell ::
  "('v cell \<Rightarrow> string) \<Rightarrow> (string \<Rightarrow> string) \<Rightarrow> (string, string) dict \<Rightarrow> string \<times> 'v cell \<Rightarrow> 'v row" where
  "redacted_cell txt sha256 rules entry =
     (case dict_get rules (py_lower (fst entry)) of
        None \<Rightarrow> [entry]
      | Some rule \<Rightarrow>
          if snd entry = Cell_None then [entry]
          else if rule \<in> {''omit'', ''drop'', ''remove''} then []
          else if rule = ''null'' then [(fst entry, Cell_None)]
          else if rule = ''hash'' then [(fst entry, Cell_Text (take 16 (sha256 (txt (snd entry)))))]
          else [(fst entry, Cell_Text ''***'')])"

definition rule_applies :: "(string, string) dict \<Rightarrow> string \<times> 'v cell \<Rightarrow> bool" where
  "rule_applies rules entry = (dict_has rules (py_lower (fst entry)) \<and> snd entry \<noteq> Cell_None)"

lemma dict_set_at:
  "c \<notin> fst ` set xs \<Longrightarrow> dict_set (xs @ (c, v) # ys) c w = xs @ (c, w) # ys"
  unfolding dict_set_def by (induction xs) auto

lemma dict_pop_at:
  "\<lbrakk>c \<notin> fst ` set xs; c \<notin> fst ` set ys\<rbrakk> \<Longrightarrow> dict_pop (xs @ (c, v) # ys) c = xs @ ys"
proof -
  assume a: "c \<notin> fst ` set xs" "c \<notin> fst ` set ys"
  have "c \<notin> fst ` set zs \<Longrightarrow> filter (\<lambda>p. fst p \<noteq> c) zs = zs" for zs :: "('a \<times> 'b) list"
    by (induction zs) auto
  with a show ?thesis by (simp add: dict_pop_def)
qed

lemma redacted_keys: "fst ` set (redacted_cell txt sha rules e) \<subseteq> {fst e}"
  by (auto simp: redacted_cell_def split: option.splits if_splits)

lemma redact_entry_at:
  assumes "fst e \<notin> fst ` set done_part" "fst e \<notin> fst ` set rest"
  shows "redact_entry txt sha rules (done_part @ e # rest, b) e
    = (done_part @ redacted_cell txt sha rules e @ rest, b \<or> rule_applies rules e)"
proof -
  obtain c v where e: "e = (c, v)" by (cases e)
  from assms e have "c \<notin> fst ` set done_part" "c \<notin> fst ` set rest" by simp_all
  note edit = dict_set_at [OF this(1)] dict_pop_at [OF this]
  show ?thesis
    unfolding e redact_entry_def redacted_cell_def rule_applies_def
    by (cases "dict_get rules (py_lower c)") (simp_all add: edit dict_has_iff)
qed

lemma insert_disjoint: "\<lbrakk>A \<subseteq> insert x B; B \<inter> C = {}; x \<notin> C\<rbrakk> \<Longrightarrow> A \<inter> C = {}"
  by blast

lemma redact_row_from:
  assumes "distinct (map fst rest)" "fst ` set done_part \<inter> fst ` set rest = {}"
  shows "foldl (redact_entry txt sha rules) (done_part @ rest, b) rest
    = (done_part @ concat (map (redacted_cell txt sha rules) rest), b \<or> list_ex (rule_applies rules) rest)"
  using assms
proof (induction rest arbitrary: done_part b)
  case (Cons e rest)
  let ?d = "done_part @ redacted_cell txt sha rules e"
  have ne: "fst e \<notin> fst ` set done_part" "fst e \<notin> fst ` set rest" and d: "distinct (map fst rest)"
    using Cons.prems by auto
  have "fst ` set ?d \<subseteq> insert (fst e) (fst ` set done_part)"
    using redacted_keys [of "txt" sha rules e] by (auto simp: image_Un)
  moreover have "fst ` set done_part \<inter> fst ` set rest = {}" using Cons.prems(2) by auto
  ultimately have disj: "fst ` set ?d \<inter> fst ` set rest = {}" by (rule insert_disjoint [OF _ _ ne(2)])
  have "foldl (redact_entry txt sha rules) (done_part @ e # rest, b) (e # rest)
      = foldl (redact_entry txt sha rules) (?d @ rest, b \<or> rule_applies rules e) rest"
    by (simp only: foldl_Cons redact_entry_at [OF ne] append_assoc)
  also have "\<dots> = (?d @ concat (map (redacted_cell txt sha rules) rest),
      (b \<or> rule_applies rules e) \<or> list_ex (rule_applies rules) rest)"
    by (rule Cons.IH [OF d disj])
  finally show ?case by simp
qed simp

lemma redact_row_cells:
  "dict_ok row \<Longrightarrow> redact_row txt sha rules row
     = (concat (map (redacted_cell txt sha rules) row), list_ex (rule_applies rules) row)"
  using redact_row_from [of row "[]" "txt" sha rules False] by (simp add: redact_row_def dict_ok_def)

definition hidden_or_unruled :: "(string, string) dict \<Rightarrow> string \<times> 'v cell \<Rightarrow> bool" where
  "hidden_or_unruled rules entry =
     (dict_has rules (py_lower (fst entry)) \<longrightarrow> (case snd entry of Cell_Value _ \<Rightarrow> False | _ \<Rightarrow> True))"

lemma redacted_cell_hidden:
  "list_all (hidden_or_unruled rules) (redacted_cell txt sha rules (e :: string \<times> 'v cell))"
  by (auto simp: redacted_cell_def hidden_or_unruled_def dict_has_iff split: option.splits)

lemma redact_all_cells:
  assumes "list_all dict_ok rows"
  shows "apply_result_redaction txt sha rows rules =
    (map (\<lambda>row. concat (map (redacted_cell txt sha (normalized_rules rules)) row)) rows,
     list_ex (list_ex (rule_applies (normalized_rules rules))) rows)"
proof -
  have none: "concat (map (redacted_cell txt sha []) row) = row" for row :: "'a row"
    by (induction row) (auto simp: redacted_cell_def)
  have never: "\<not> list_ex (rule_applies []) row" for row :: "'a row"
    by (induction row) (auto simp: rule_applies_def dict_has_iff)
  have empty: "rules = [] \<Longrightarrow> normalized_rules rules = []" by (simp add: normalized_rules_def)
  show ?thesis
  proof (cases "rows = [] \<or> rules = [] \<or> normalized_rules rules = []")
    case True
    with none never empty show ?thesis
      by (auto simp: apply_result_redaction_def Let_def list_ex_iff)
  next
    case False
    then show ?thesis
      using assms by (auto simp: apply_result_redaction_def Let_def list_all_iff list_ex_iff redact_row_cells)
  qed
qed

text \<open>C19: Redaction treats every row column by column: a value under a column with a rule, compared in
  lower case, is left out, set to null, replaced by the first sixteen digits of its digest or by
  three stars, other columns and nulls are kept in place, and the flag tells whether any value
  was changed. So no value of a ruled column is left in the result.\<close>

theorem redaction_hides_ruled_columns:
  assumes "list_all dict_ok rows"
  shows "apply_result_redaction txt sha256 rows rules =
    (map (\<lambda>row. concat (map (redacted_cell txt sha256 (normalized_rules rules)) row)) rows,
     list_ex (list_ex (rule_applies (normalized_rules rules))) rows)
   \<and> list_all (list_all (hidden_or_unruled (normalized_rules rules)))
       (fst (apply_result_redaction txt sha256 rows rules))"
proof -
  have "list_all (hidden_or_unruled r) (concat (map (redacted_cell txt sha256 r) row))" for r and row :: "'a row"
    by (induction row) (simp_all add: redacted_cell_hidden)
  with redact_all_cells [OF assms] show ?thesis by (auto simp: list_all_iff)
qed

theorem redaction_hides_ruled_columns_witness:
  "fst (apply_result_redaction (\<lambda>c. ''7'') (\<lambda>s. s @ s)
     [[(''Email'', Cell_Value (1 :: nat)), (''name'', Cell_Value 2)]] [(''EMAIL'', ''hash'')])
   = [[(''Email'', Cell_Text ''77''), (''name'', Cell_Value 2)]]"
proof -
  have "normalized_rules [(''EMAIL'', ''hash'')] = [(''email'', ''hash'')]"
    "py_lower ''Email'' = ''email''" "py_lower ''name'' = ''name''"
    by code_simp+
  then show ?thesis
    using redaction_hides_ruled_columns [of "[[(''Email'', Cell_Value (1 :: nat)), (''name'', Cell_Value 2)]]"
        "\<lambda>c. ''7''" "\<lambda>s. s @ s" "[(''EMAIL'', ''hash'')]"]
    by (simp add: redacted_cell_def dict_get_def dict_ok_def)
qed

end
