(* ===== verification/Background_Tasks.thy ===== *)
theory Background_Tasks
  imports Sql_Utils Complex_Main
begin

text \<open>
  The background task manager (\<open>runtime/hosting/background.py\<close>): registration, schedules,
  starting and stopping, and the executions under one lock per task name. The event loop is
  single-threaded: what a coroutine does between two suspensions is one step. An execution
  is \<open>created\<close>, holds its lock while its handler runs, and is done. Awaiting the handler is the
  time between \<open>Ev_Begin\<close> and \<open>Ev_Finish\<close>; \<open>stop\<close> awaits the cancelled tasks, so it is two
  steps. Taking a free \<open>asyncio.Lock\<close> does not suspend, so the test and the acquisition are
  one step. The job store is the library's; of it the manager's own jobs are modelled.
  Whether a cron expression is accepted is a parameter. Logging is left out.
\<close>

section \<open>Schedules and definitions\<close>

datatype trigger = Interval_Trigger | Cron_Trigger | Other_Trigger string

record schedule =
  bs_trigger :: trigger
  bs_seconds :: "rat option"
  bs_cron_expression :: "string option"
  bs_timezone :: "string option"

datatype bg_error =
    Interval_Needs_Seconds
  | Interval_With_Cron
  | Cron_Needs_Expression
  | Cron_With_Seconds
  | Unsupported_Trigger string
  | Empty_Task_Name
  | Already_Registered string
  | Already_Running string
  | Bad_Cron_Expression string
  | No_Resources
  | No_Dataset_Ref
  | No_Dataset_Name
  | Cadence_Unsupported string
  | Cadence_Required

definition text_of :: "string option \<Rightarrow> string" where
  "text_of t = (case t of None \<Rightarrow> [] | Some s \<Rightarrow> s)"

definition make_schedule :: "schedule \<Rightarrow> (bg_error, schedule) result" where
  "make_schedule b =
     (case bs_trigger b of
        Interval_Trigger \<Rightarrow>
          (case bs_seconds b of
             None \<Rightarrow> Inl Interval_Needs_Seconds
           | Some x \<Rightarrow> if x \<le> 0 then Inl Interval_Needs_Seconds
               else if bs_cron_expression b \<noteq> None then Inl Interval_With_Cron else Inr b)
      | Cron_Trigger \<Rightarrow>
          if py_strip (text_of (bs_cron_expression b)) = [] then Inl Cron_Needs_Expression
          else if bs_seconds b \<noteq> None then Inl Cron_With_Seconds else Inr b
      | Other_Trigger t \<Rightarrow> Inl (Unsupported_Trigger t))"

definition interval_schedule :: "rat \<Rightarrow> string option \<Rightarrow> (bg_error, schedule) result" where
  "interval_schedule seconds timezone = make_schedule
     \<lparr>bs_trigger = Interval_Trigger, bs_seconds = Some seconds, bs_cron_expression = None,
      bs_timezone = timezone\<rparr>"

definition cron_schedule :: "string \<Rightarrow> string option \<Rightarrow> (bg_error, schedule) result" where
  "cron_schedule expression timezone = make_schedule
     \<lparr>bs_trigger = Cron_Trigger, bs_seconds = None, bs_cron_expression = Some expression,
      bs_timezone = timezone\<rparr>"

datatype task_kind = Kind_Default | Kind_Custom

record 'h task_def =
  td_name :: string
  td_handler :: 'h
  td_kind :: task_kind
  td_schedule :: "schedule option"
  td_run_on_startup :: bool
  td_enabled :: bool
  td_description :: "string option"

definition make_task_def :: "'h task_def \<Rightarrow> (bg_error, 'h task_def) result" where
  "make_task_def d = (if py_strip (td_name d) = [] then Inl Empty_Task_Name else Inr d)"

definition default_task ::
  "string \<Rightarrow> 'h \<Rightarrow> schedule option \<Rightarrow> bool \<Rightarrow> bool \<Rightarrow> string option \<Rightarrow> (bg_error, 'h task_def) result" where
  "default_task name handler sch on_startup enabled description = make_task_def
     \<lparr>td_name = name, td_handler = handler, td_kind = Kind_Default, td_schedule = sch,
      td_run_on_startup = on_startup, td_enabled = enabled, td_description = description\<rparr>"

definition custom_task ::
  "string \<Rightarrow> 'h \<Rightarrow> schedule option \<Rightarrow> bool \<Rightarrow> bool \<Rightarrow> string option \<Rightarrow> (bg_error, 'h task_def) result" where
  "custom_task name handler sch on_startup enabled description = make_task_def
     \<lparr>td_name = name, td_handler = handler, td_kind = Kind_Custom, td_schedule = sch,
      td_run_on_startup = on_startup, td_enabled = enabled, td_description = description\<rparr>"

section \<open>The manager\<close>

datatype phase = Ph_Created | Ph_Running nat | Ph_Done

text \<open>
  An execution has the name of its task, its handler, whether it is one of the asyncio tasks
  that the manager tracks, and its phase, with the lock that it holds while it is running.
\<close>

record 'h execution =
  ex_name :: string
  ex_handler :: 'h
  ex_tracked :: bool
  ex_phase :: phase

text \<open>
  The fields of the class, then what the event loop and the library hold: the scheduler's state
  and its jobs, the executions, the locks that are held, the tasks that a pending \<open>stop\<close>
  waits for, and the next execution and lock.
\<close>

record 'h manager =
  mg_default_tasks :: "(string, 'h task_def) dict"
  mg_custom_tasks :: "(string, 'h task_def) dict"
  mg_active :: "(string, nat) dict"
  mg_locks :: "(string, nat) dict"
  mg_started :: bool
  mg_scheduler_running :: bool
  mg_jobs :: "(string, string \<times> schedule) dict"
  mg_executions :: "(nat, 'h execution) dict"
  mg_held :: "nat list"
  mg_stopping :: "nat list option"
  mg_next_execution :: nat
  mg_next_lock :: nat

type_synonym 'h outcome_state = "'h manager \<times> bg_error option"

definition new_manager :: "'h manager" where
  "new_manager =
     \<lparr>mg_default_tasks = [], mg_custom_tasks = [], mg_active = [], mg_locks = [],
      mg_started = False, mg_scheduler_running = False, mg_jobs = [], mg_executions = [],
      mg_held = [], mg_stopping = None, mg_next_execution = 0, mg_next_lock = 0\<rparr>"

definition list_tasks :: "'h manager \<Rightarrow> 'h task_def list" where
  "list_tasks s = dict_values (mg_default_tasks s) @ dict_values (mg_custom_tasks s)"

definition list_tasks_of :: "'h manager \<Rightarrow> task_kind option \<Rightarrow> 'h task_def list" where
  "list_tasks_of s k = (case k of
     None \<Rightarrow> list_tasks s
   | Some Kind_Default \<Rightarrow> dict_values (mg_default_tasks s)
   | Some Kind_Custom \<Rightarrow> dict_values (mg_custom_tasks s))"

definition is_done :: "'h manager \<Rightarrow> nat \<Rightarrow> bool" where
  "is_done s i = (case dict_get (mg_executions s) i of None \<Rightarrow> True | Some e \<Rightarrow> ex_phase e = Ph_Done)"

definition create_execution :: "'h manager \<Rightarrow> string \<Rightarrow> 'h \<Rightarrow> bool \<Rightarrow> 'h manager" where
  "create_execution s name handler tracked =
     (let i = mg_next_execution s;
          e = \<lparr>ex_name = name, ex_handler = handler, ex_tracked = tracked, ex_phase = Ph_Created\<rparr>
      in s\<lparr>mg_executions := dict_set (mg_executions s) i e, mg_next_execution := Suc i,
           mg_active := (if tracked then dict_set (mg_active s) name i else mg_active s)\<rparr>)"

text \<open>The test that \<open>start_task\<close> and \<open>_run_definition_as_task\<close> share.\<close>

definition still_running :: "'h manager \<Rightarrow> string \<Rightarrow> bool" where
  "still_running s name =
     (case dict_get (mg_active s) name of None \<Rightarrow> False | Some i \<Rightarrow> \<not> is_done s i)"

definition start_task :: "'h manager \<Rightarrow> string \<Rightarrow> 'h \<Rightarrow> 'h outcome_state" where
  "start_task s name handler =
     (let n = py_strip name
      in if n = [] then (s, Some Empty_Task_Name)
         else if still_running s n then (s, Some (Already_Running n))
         else (create_execution s n handler True, None))"

definition run_definition_as_task :: "'h manager \<Rightarrow> 'h task_def \<Rightarrow> 'h outcome_state" where
  "run_definition_as_task s d =
     (if still_running s (td_name d) then (s, Some (Already_Running (td_name d)))
      else (create_execution s (td_name d) (td_handler d) True, None))"

definition job_id :: "string \<Rightarrow> string" where
  "job_id name = ''runtime-background:'' @ name"

definition schedule_definition :: "(string \<Rightarrow> bool) \<Rightarrow> 'h manager \<Rightarrow> 'h task_def \<Rightarrow> 'h outcome_state" where
  "schedule_definition cron_ok s d =
     (let j = job_id (td_name d); s1 = s\<lparr>mg_jobs := dict_pop (mg_jobs s) j\<rparr>;
          add = (\<lambda>b. s1\<lparr>mg_jobs := dict_set (mg_jobs s1) j (td_name d, b)\<rparr>)
      in case td_schedule d of
           None \<Rightarrow> (s1, None)
         | Some b \<Rightarrow>
             (case bs_trigger b of
                Interval_Trigger \<Rightarrow> (add b, None)
              | _ \<Rightarrow> if cron_ok (text_of (bs_cron_expression b)) then (add b, None)
                  else (s1, Some (Bad_Cron_Expression (text_of (bs_cron_expression b))))))"

definition activate_definition :: "(string \<Rightarrow> bool) \<Rightarrow> 'h manager \<Rightarrow> 'h task_def \<Rightarrow> 'h outcome_state" where
  "activate_definition cron_ok s d =
     (case (if td_schedule d \<noteq> None then schedule_definition cron_ok s d else (s, None)) of
        (t, Some e) \<Rightarrow> (t, Some e)
      | (t, None) \<Rightarrow> if td_run_on_startup d then run_definition_as_task t d else (t, None))"

definition store_definition :: "'h manager \<Rightarrow> task_kind \<Rightarrow> 'h task_def \<Rightarrow> 'h manager" where
  "store_definition s kind d =
     (case kind of
        Kind_Default \<Rightarrow> s\<lparr>mg_default_tasks := dict_set (mg_default_tasks s) (td_name d) d\<rparr>
      | Kind_Custom \<Rightarrow> s\<lparr>mg_custom_tasks := dict_set (mg_custom_tasks s) (td_name d) d\<rparr>)"

definition register_definition ::
  "(string \<Rightarrow> bool) \<Rightarrow> 'h manager \<Rightarrow> 'h task_def \<Rightarrow> task_kind \<Rightarrow> 'h outcome_state" where
  "register_definition cron_ok s task kind =
     (let n = py_strip (td_name task)
      in if dict_has (mg_default_tasks s) n \<or> dict_has (mg_custom_tasks s) n
         then (s, Some (Already_Registered n))
         else
           let d = task\<lparr>td_name := n\<rparr>; s1 = store_definition s kind d
           in if mg_started s1 \<and> td_enabled d then activate_definition cron_ok s1 d else (s1, None))"

text \<open>\<open>register\<close> chooses the store by the kind; both ways replace the kind by the store's.\<close>

definition register_task :: "(string \<Rightarrow> bool) \<Rightarrow> 'h manager \<Rightarrow> 'h task_def \<Rightarrow> task_kind \<Rightarrow> 'h outcome_state" where
  "register_task cron_ok s task kind = register_definition cron_ok s (task\<lparr>td_kind := kind\<rparr>) kind"

text \<open>A loop that an exception leaves at once.\<close>

fun each_until_error :: "('s \<Rightarrow> 'a \<Rightarrow> 's \<times> bg_error option) \<Rightarrow> 's \<Rightarrow> 'a list \<Rightarrow> 's \<times> bg_error option" where
  "each_until_error f s [] = (s, None)"
| "each_until_error f s (x # xs) =
     (case f s x of (s', Some e) \<Rightarrow> (s', Some e) | (s', None) \<Rightarrow> each_until_error f s' xs)"

definition start_manager :: "(string \<Rightarrow> bool) \<Rightarrow> 'h manager \<Rightarrow> 'h outcome_state" where
  "start_manager cron_ok s =
     (if mg_started s then (s, None)
      else case each_until_error (schedule_definition cron_ok) s
              (filter (\<lambda>d. td_enabled d \<and> td_schedule d \<noteq> None) (list_tasks s)) of
          (s1, Some e) \<Rightarrow> (s1, Some e)
        | (s1, None) \<Rightarrow>
            let s2 = s1\<lparr>mg_scheduler_running := True, mg_started := True\<rparr>
            in each_until_error run_definition_as_task s2
                 (filter (\<lambda>d. td_enabled d \<and> td_run_on_startup d) (list_tasks s2)))"

text \<open>\<open>stop\<close> up to and after the wait for the cancelled tasks.\<close>

definition stop_begin :: "'h manager \<Rightarrow> 'h manager" where
  "stop_begin s = (if mg_started s then s\<lparr>mg_stopping := Some (dict_values (mg_active s))\<rparr> else s)"

definition stop_end :: "'h manager \<Rightarrow> 'h manager" where
  "stop_end s =
     (let s1 = s\<lparr>mg_active := [], mg_locks := [], mg_started := False, mg_stopping := None\<rparr>
      in if mg_scheduler_running s then s1\<lparr>mg_jobs := [], mg_scheduler_running := False\<rparr> else s1)"

definition find_definition :: "'h manager \<Rightarrow> string \<Rightarrow> 'h task_def option" where
  "find_definition s name =
     (case dict_get (mg_default_tasks s) name of
        Some d \<Rightarrow> Some d
      | None \<Rightarrow> dict_get (mg_custom_tasks s) name)"

text \<open>The scheduler fires a job: the execution is not among the tracked tasks.\<close>

definition execute_definition_by_name :: "'h manager \<Rightarrow> string \<Rightarrow> 'h manager" where
  "execute_definition_by_name s name =
     (case find_definition s name of
        None \<Rightarrow> s
      | Some d \<Rightarrow> create_execution s (td_name d) (td_handler d) False)"

text \<open>The end of an execution; \<open>finally\<close> removes a tracked one under its name.\<close>

definition end_execution :: "'h manager \<Rightarrow> nat \<Rightarrow> 'h execution \<Rightarrow> 'h manager" where
  "end_execution s i e =
     s\<lparr>mg_executions := dict_set (mg_executions s) i (e\<lparr>ex_phase := Ph_Done\<rparr>),
       mg_active := (if ex_tracked e then dict_pop (mg_active s) (ex_name e) else mg_active s)\<rparr>"

definition task_lock :: "'h manager \<Rightarrow> string \<Rightarrow> nat \<times> 'h manager" where
  "task_lock s name =
     (case dict_get (mg_locks s) name of
        Some l \<Rightarrow> (l, s)
      | None \<Rightarrow> (mg_next_lock s, s\<lparr>mg_locks := dict_set (mg_locks s) name (mg_next_lock s),
          mg_next_lock := Suc (mg_next_lock s)\<rparr>))"

definition execute_handler :: "'h manager \<Rightarrow> nat \<Rightarrow> 'h execution \<Rightarrow> 'h manager" where
  "execute_handler s i e =
     (case task_lock s (ex_name e) of (l, s1) \<Rightarrow>
        if l \<in> set (mg_held s1) then end_execution s1 i e
        else s1\<lparr>mg_held := l # mg_held s1,
                mg_executions := dict_set (mg_executions s1) i (e\<lparr>ex_phase := Ph_Running l\<rparr>)\<rparr>)"

definition release_and_end :: "'h manager \<Rightarrow> nat \<Rightarrow> 'h execution \<Rightarrow> nat \<Rightarrow> 'h manager" where
  "release_and_end s i e l = end_execution (s\<lparr>mg_held := filter (\<lambda>x. x \<noteq> l) (mg_held s)\<rparr>) i e"

section \<open>Steps\<close>

datatype 'h event =
    Ev_Register "'h task_def" task_kind
  | Ev_Start
  | Ev_Start_Task string 'h
  | Ev_Fire string
  | Ev_Begin nat
  | Ev_Finish nat
  | Ev_Cancel nat
  | Ev_Stop
  | Ev_Stop_End

text \<open>
  \<open>None\<close>: the event cannot happen in this state. An operation that raises leaves the state that
  it has reached. A task that is cancelled before it begins never enters its \<open>try\<close>; one that
  is running ends as it does when its handler returns. One \<open>stop\<close> is served at a time.
\<close>

fun bg_step :: "(string \<Rightarrow> bool) \<Rightarrow> 'h manager \<Rightarrow> 'h event \<Rightarrow> 'h manager option" where
  "bg_step cron_ok s (Ev_Register d kind) =
     (if py_strip (td_name d) = [] then None else Some (fst (register_task cron_ok s d kind)))"
| "bg_step cron_ok s Ev_Start = Some (fst (start_manager cron_ok s))"
| "bg_step cron_ok s (Ev_Start_Task name handler) = Some (fst (start_task s name handler))"
| "bg_step cron_ok s (Ev_Fire j) =
     (if mg_scheduler_running s
      then map_option (\<lambda>job. execute_definition_by_name s (fst job)) (dict_get (mg_jobs s) j) else None)"
| "bg_step cron_ok s (Ev_Begin i) =
     (case dict_get (mg_executions s) i of
        None \<Rightarrow> None
      | Some e \<Rightarrow> if ex_phase e = Ph_Created then Some (execute_handler s i e) else None)"
| "bg_step cron_ok s (Ev_Finish i) =
     (case dict_get (mg_executions s) i of
        None \<Rightarrow> None
      | Some e \<Rightarrow> (case ex_phase e of Ph_Running l \<Rightarrow> Some (release_and_end s i e l) | _ \<Rightarrow> None))"
| "bg_step cron_ok s (Ev_Cancel i) =
     (case dict_get (mg_executions s) i of
        None \<Rightarrow> None
      | Some e \<Rightarrow> (case ex_phase e of
          Ph_Created \<Rightarrow> Some (s\<lparr>mg_executions := dict_set (mg_executions s) i (e\<lparr>ex_phase := Ph_Done\<rparr>)\<rparr>)
        | Ph_Running l \<Rightarrow> Some (release_and_end s i e l)
        | Ph_Done \<Rightarrow> None))"
| "bg_step cron_ok s Ev_Stop = (if mg_stopping s = None then Some (stop_begin s) else None)"
| "bg_step cron_ok s Ev_Stop_End =
     (case mg_stopping s of
        None \<Rightarrow> None
      | Some ids \<Rightarrow> if list_all (is_done s) ids then Some (stop_end s) else None)"

text \<open>The runs in which every event is allowed in the state in which it happens.\<close>

inductive bg_run ::
  "(string \<Rightarrow> bool) \<Rightarrow> ('h manager \<Rightarrow> 'h event \<Rightarrow> bool) \<Rightarrow> 'h manager \<Rightarrow> 'h event list \<Rightarrow> 'h manager \<Rightarrow> bool"
  for cron_ok allowed s where
  bg_nil: "bg_run cron_ok allowed s [] s"
| bg_snoc: "\<lbrakk>bg_run cron_ok allowed s evs t; allowed t ev; bg_step cron_ok t ev = Some u\<rbrakk>
    \<Longrightarrow> bg_run cron_ok allowed s (evs @ [ev]) u"

fun bg_exec :: "(string \<Rightarrow> bool) \<Rightarrow> 'h manager \<Rightarrow> 'h event list \<Rightarrow> 'h manager option" where
  "bg_exec cron_ok s [] = Some s"
| "bg_exec cron_ok s (ev # evs) = Option.bind (bg_step cron_ok s ev) (\<lambda>t. bg_exec cron_ok t evs)"

section \<open>Cadences and the default tasks\<close>

text \<open>\<open>runtime/scheduling.py\<close>: a number without leading zero and a unit.\<close>

definition cadence_matches :: "string \<Rightarrow> bool" where
  "cadence_matches s = (length s \<ge> 2 \<and> list_all is_digit (butlast s) \<and> hd s \<noteq> CHR ''0''
     \<and> last s \<in> {CHR ''s'', CHR ''m'', CHR ''h'', CHR ''d''})"

definition normalize_dataset_sync_cadence :: "string option \<Rightarrow> (bg_error, string option) result" where
  "normalize_dataset_sync_cadence v =
     (let n = py_lower (py_strip (text_of v))
      in if n = [] then Inr None
         else if \<not> cadence_matches n then Inl (Cadence_Unsupported (text_of v)) else Inr (Some n))"

definition cadence_multiplier :: "char \<Rightarrow> int" where
  "cadence_multiplier c =
     (if c = CHR ''s'' then 1 else if c = CHR ''m'' then 60 else if c = CHR ''h'' then 60 * 60
      else 24 * 60 * 60)"

definition dataset_sync_cadence_to_seconds :: "string \<Rightarrow> (bg_error, int) result" where
  "dataset_sync_cadence_to_seconds v =
     bindR (normalize_dataset_sync_cadence (Some v)) (\<lambda>n. case n of
       None \<Rightarrow> Inl Cadence_Required
     | Some s \<Rightarrow>
         if \<not> cadence_matches s then Inl (Cadence_Unsupported v)
         else (case py_int (butlast s) of
             None \<Rightarrow> Inl (Cadence_Unsupported v)
           | Some k \<Rightarrow> Inr (k * cadence_multiplier (last s))))"

definition schedule_from_dataset_cadence :: "string \<Rightarrow> (bg_error, schedule) result" where
  "schedule_from_dataset_cadence cadence =
     bindR (dataset_sync_cadence_to_seconds cadence) (\<lambda>k. interval_schedule (of_int k) None)"

text \<open>The handlers that the builders close over, and an arbitrary callback.\<close>

datatype 'h handler =
    H_Connector_Sync string "string list" string bool
  | H_Dataset_Sync string string bool
  | H_Vector_Refresh "'h option"
  | H_Callback 'h

definition or_default :: "string option \<Rightarrow> string \<Rightarrow> string" where
  "or_default v d = (case v of Some (c # cs) \<Rightarrow> c # cs | _ \<Rightarrow> d)"

definition build_connector_sync_default_task ::
  "string \<Rightarrow> string list \<Rightarrow> schedule \<Rightarrow> string option \<Rightarrow> string \<Rightarrow> bool \<Rightarrow> bool \<Rightarrow> string option
   \<Rightarrow> (bg_error, 'h handler task_def) result" where
  "build_connector_sync_default_task connector resources sch name mode force on_startup description =
     (let rs = map py_strip (filter (\<lambda>r. py_strip r \<noteq> []) resources)
      in if rs = [] then Inl No_Resources
         else default_task
           (or_default name (''connector-sync:'' @ connector @ '':'' @ py_join '','' rs))
           (H_Connector_Sync connector rs mode force) (Some sch) on_startup True
           (Some (or_default description (''Refresh connector resources for '' @ [CHR 0x27] @ connector @ [CHR 0x27] @ ''.''))))"

definition build_dataset_sync_default_task ::
  "string option \<Rightarrow> string option \<Rightarrow> schedule option \<Rightarrow> string option \<Rightarrow> string \<Rightarrow> bool \<Rightarrow> bool
   \<Rightarrow> string option \<Rightarrow> (bg_error, 'h handler task_def) result" where
  "build_dataset_sync_default_task dataset_ref dataset_name sch name mode force on_startup description =
     (let ref = py_strip (text_of dataset_ref); dn = py_strip (text_of dataset_name)
      in if ref = [] then Inl No_Dataset_Ref
         else if dn = [] then Inl No_Dataset_Name
         else default_task (or_default name (''dataset-sync:'' @ dn)) (H_Dataset_Sync ref mode force) sch
           on_startup True
           (Some (or_default description (''Sync dataset '' @ [CHR 0x27] @ dn @ [CHR 0x27] @ ''.''))))"

definition build_semantic_vector_refresh_default_task ::
  "schedule \<Rightarrow> string \<Rightarrow> bool \<Rightarrow> string option \<Rightarrow> 'h option \<Rightarrow> (bg_error, 'h handler task_def) result" where
  "build_semantic_vector_refresh_default_task sch name on_startup description refresher =
     default_task name (H_Vector_Refresh refresher) (Some sch) on_startup True
       (Some (or_default description ''Refresh semantic vector search state.''))"

text \<open>
  What a handler does with the host: the attributes that the host has, the answer of its
  \<open>can_refresh_semantic_vector_search\<close> if it has one, and the call that is made.
\<close>

record runtime_host =
  rh_attributes :: "string list"
  rh_can_refresh :: "bool option"

datatype 'h host_call =
    Call_Sync_Connector string "string list" string bool
  | Call_Sync_Dataset string string bool
  | Call_Refresh string
  | Call_Callback 'h
  | Call_Nothing
  | Call_Unsupported string

definition refresh_methods :: "string list" where
  "refresh_methods = [''refresh_semantic_vector_search'', ''refresh_semantic_vectors'',
     ''refresh_semantic_search_index'']"

fun handler_call :: "runtime_host \<Rightarrow> 'h handler \<Rightarrow> 'h host_call" where
  "handler_call host (H_Connector_Sync connector resources mode force) =
     (if ''sync_connector_resources'' \<in> set (rh_attributes host)
      then Call_Sync_Connector connector resources mode force
      else Call_Unsupported ''sync_connector_resources'')"
| "handler_call host (H_Dataset_Sync ref mode force) =
     (if ''sync_dataset'' \<in> set (rh_attributes host) then Call_Sync_Dataset ref mode force
      else Call_Unsupported ''sync_dataset'')"
| "handler_call host (H_Vector_Refresh (Some h)) = Call_Callback h"
| "handler_call host (H_Vector_Refresh None) =
     (if rh_can_refresh host = Some False then Call_Nothing
      else case find (\<lambda>m. m \<in> set (rh_attributes host)) refresh_methods of
          Some m \<Rightarrow> Call_Refresh m
        | None \<Rightarrow> Call_Unsupported ''semantic vector refresh'')"
| "handler_call host (H_Callback h) = Call_Callback h"

section \<open>One execution per task name\<close>

definition runs_under :: "'h manager \<Rightarrow> nat \<Rightarrow> string \<Rightarrow> bool" where
  "runs_under s i name =
     (\<exists>e l. dict_get (mg_executions s) i = Some e \<and> ex_name e = name \<and> ex_phase e = Ph_Running l)"

text \<open>What a state keeps: a running execution holds the lock stored under its name, and no two hold one lock.\<close>

definition locks_inv :: "'h manager \<Rightarrow> bool" where
  "locks_inv s \<longleftrightarrow>
     (\<forall>i e l. dict_get (mg_executions s) i = Some e \<and> ex_phase e = Ph_Running l \<longrightarrow>
        dict_get (mg_locks s) (ex_name e) = Some l \<and> l \<in> set (mg_held s)
        \<and> (\<forall>j f. dict_get (mg_executions s) j = Some f \<and> ex_phase f = Ph_Running l \<longrightarrow> j = i))
     \<and> (\<forall>n l. dict_get (mg_locks s) n = Some l \<longrightarrow> l < mg_next_lock s)"

lemma locks_inv_exclusive: "\<lbrakk>locks_inv s; runs_under s i n; runs_under s j n\<rbrakk> \<Longrightarrow> i = j"
  unfolding locks_inv_def runs_under_def by (metis option.inject)

text \<open>Every operation that only adds executions that have not begun keeps it.\<close>

definition adds_created :: "'h manager \<Rightarrow> 'h manager \<Rightarrow> bool" where
  "adds_created s t \<longleftrightarrow> mg_locks t = mg_locks s \<and> mg_held t = mg_held s
     \<and> mg_next_lock t = mg_next_lock s
     \<and> (\<forall>i e l. dict_get (mg_executions t) i = Some e \<and> ex_phase e = Ph_Running l
          \<longrightarrow> dict_get (mg_executions s) i = Some e)"

lemma adds_created_refl [simp, intro]: "adds_created s s"
  by (simp add: adds_created_def)

lemma adds_created_trans: "\<lbrakk>adds_created s t; adds_created t u\<rbrakk> \<Longrightarrow> adds_created s u"
  unfolding adds_created_def by auto

lemma adds_created_inv: "\<lbrakk>adds_created s t; locks_inv s\<rbrakk> \<Longrightarrow> locks_inv t"
  unfolding adds_created_def locks_inv_def by metis

lemma adds_create_execution: "adds_created s (create_execution s n h tracked)"
  by (auto simp: adds_created_def create_execution_def Let_def)

lemma adds_run_definition: "adds_created s (fst (run_definition_as_task s d))"
  by (simp add: run_definition_as_task_def adds_create_execution)

lemma adds_schedule_definition: "adds_created s (fst (schedule_definition c s d))"
  by (auto simp: schedule_definition_def adds_created_def Let_def split: option.split trigger.split)

lemma adds_each:
  "(\<And>s x. adds_created s (fst (f s x))) \<Longrightarrow> adds_created s (fst (each_until_error f s xs))"
proof (induction xs arbitrary: s)
  case (Cons x xs)
  obtain s' r where r: "f s x = (s', r)" by (cases "f s x")
  from Cons.prems [of s x] r have "adds_created s s'" by simp
  moreover have "adds_created s' (fst (each_until_error f s' xs))" by (rule Cons.IH [OF Cons.prems])
  ultimately show ?case using r by (cases r) (auto intro: adds_created_trans)
qed simp

lemma adds_activate: "adds_created s (fst (activate_definition c s d))"
proof -
  let ?r = "if td_schedule d \<noteq> None then schedule_definition c s d else (s, None)"
  obtain t e where r: "?r = (t, e)" by (cases ?r)
  then have t: "adds_created s t"
    using adds_schedule_definition [of s c d] by (auto split: if_splits)
  show ?thesis
    unfolding activate_definition_def r
    by (cases e) (auto intro: adds_created_trans [OF t] adds_run_definition t)
qed

lemma adds_store: "adds_created s (store_definition s k d)"
  by (cases k) (simp_all add: store_definition_def adds_created_def)

lemma adds_register: "adds_created s (fst (register_definition c s d k))"
  by (simp add: register_definition_def Let_def adds_store adds_created_trans [OF adds_store adds_activate])

lemma locks_invI:
  assumes "\<And>i e l. \<lbrakk>dict_get (mg_executions s) i = Some e; ex_phase e = Ph_Running l\<rbrakk>
      \<Longrightarrow> dict_get (mg_locks s) (ex_name e) = Some l \<and> l \<in> set (mg_held s)"
    and "\<And>i e j f l. \<lbrakk>dict_get (mg_executions s) i = Some e; ex_phase e = Ph_Running l;
      dict_get (mg_executions s) j = Some f; ex_phase f = Ph_Running l\<rbrakk> \<Longrightarrow> j = i"
    and "\<And>n l. dict_get (mg_locks s) n = Some l \<Longrightarrow> l < mg_next_lock s"
  shows "locks_inv s"
  using assms unfolding locks_inv_def by blast

lemma one_holder:
  "\<lbrakk>locks_inv s; dict_get (mg_executions s) i = Some e; ex_phase e = Ph_Running l;
    dict_get (mg_executions s) j = Some f; ex_phase f = Ph_Running l\<rbrakk> \<Longrightarrow> j = i"
  unfolding locks_inv_def by blast

lemma locks_below: "\<lbrakk>locks_inv s; dict_get (mg_locks s) n = Some l\<rbrakk> \<Longrightarrow> l < mg_next_lock s"
  unfolding locks_inv_def by blast

lemma running_lock_known:
  assumes "locks_inv s" "dict_get (mg_executions s) i = Some e" "ex_phase e = Ph_Running l"
  shows "dict_get (mg_locks s) (ex_name e) = Some l" "l \<in> set (mg_held s)" "l < mg_next_lock s"
  using assms unfolding locks_inv_def by blast+

lemma end_execution_inv:
  "locks_inv s \<Longrightarrow> locks_inv (end_execution s i e)"
  by (rule adds_created_inv [of s]) (auto simp: adds_created_def end_execution_def split: if_splits)

lemma release_inv:
  assumes inv: "locks_inv s" and i: "dict_get (mg_executions s) i = Some e" "ex_phase e = Ph_Running l"
  shows "locks_inv (release_and_end s i e l)"
proof -
  let ?t = "release_and_end s i e l"
  have t: "mg_locks ?t = mg_locks s" "mg_next_lock ?t = mg_next_lock s"
      "mg_held ?t = filter (\<lambda>x. x \<noteq> l) (mg_held s)"
    by (simp_all add: release_and_end_def end_execution_def)
  have old: "dict_get (mg_executions s) j = Some f \<and> j \<noteq> i"
    if "dict_get (mg_executions ?t) j = Some f" "ex_phase f = Ph_Running k" for j f k
    using that by (auto simp: release_and_end_def end_execution_def split: if_splits)
  have other: "k \<noteq> l" if "dict_get (mg_executions s) j = Some f" "ex_phase f = Ph_Running k" "j \<noteq> i" for j f k
    using one_holder [OF inv i] that by blast
  show ?thesis
  proof (rule locks_invI)
    fix j f k
    assume "dict_get (mg_executions ?t) j = Some f" "ex_phase f = Ph_Running k"
    with old have f: "dict_get (mg_executions s) j = Some f" "ex_phase f = Ph_Running k" "j \<noteq> i" by blast+
    with running_lock_known [OF inv f(1,2)] other [OF f]
    show "dict_get (mg_locks ?t) (ex_name f) = Some k \<and> k \<in> set (mg_held ?t)" by (simp add: t)
  next
    fix j f j' f' k
    assume "dict_get (mg_executions ?t) j = Some f" "ex_phase f = Ph_Running k"
      "dict_get (mg_executions ?t) j' = Some f'" "ex_phase f' = Ph_Running k"
    with old show "j' = j" by (meson inv one_holder)
  next
    fix n k assume "dict_get (mg_locks ?t) n = Some k"
    then show "k < mg_next_lock ?t" by (simp add: t locks_below [OF inv])
  qed
qed

lemma task_lock_inv:
  assumes inv: "locks_inv s" and r: "task_lock s n = (l, t)"
  shows "locks_inv t" "dict_get (mg_locks t) n = Some l" "mg_executions t = mg_executions s"
proof -
  have "locks_inv t \<and> dict_get (mg_locks t) n = Some l \<and> mg_executions t = mg_executions s"
  proof (cases "dict_get (mg_locks s) n")
    case (Some k)
    with inv r show ?thesis by (simp add: task_lock_def)
  next
    case None
    then have t: "l = mg_next_lock s" "t = s\<lparr>mg_locks := dict_set (mg_locks s) n l, mg_next_lock := Suc l\<rparr>"
      using r by (auto simp: task_lock_def)
    have "locks_inv t"
    proof (rule locks_invI)
      fix j f k
      assume f: "dict_get (mg_executions t) j = Some f" "ex_phase f = Ph_Running k"
      then have "dict_get (mg_executions s) j = Some f" by (simp add: t)
      note k = running_lock_known [OF inv this f(2)]
      with None have "ex_name f \<noteq> n" by auto
      with k show "dict_get (mg_locks t) (ex_name f) = Some k \<and> k \<in> set (mg_held t)" by (simp add: t(2))
    next
      fix j f j' f' k
      assume "dict_get (mg_executions t) j = Some f" "ex_phase f = Ph_Running k"
        "dict_get (mg_executions t) j' = Some f'" "ex_phase f' = Ph_Running k"
      moreover have "mg_executions t = mg_executions s" by (simp add: t(2))
      ultimately show "j' = j" by (metis one_holder [OF inv])
    next
      fix m k assume "dict_get (mg_locks t) m = Some k"
      then show "k < mg_next_lock t"
        using locks_below [OF inv, of m k] by (auto simp: t split: if_splits)
    qed
    with t show ?thesis by simp
  qed
  then show "locks_inv t" "dict_get (mg_locks t) n = Some l" "mg_executions t = mg_executions s" by blast+
qed

lemma execute_handler_inv:
  assumes inv: "locks_inv s"
  shows "locks_inv (execute_handler s i e)"
proof -
  obtain l t where r: "task_lock s (ex_name e) = (l, t)" by (cases "task_lock s (ex_name e)")
  note lock = task_lock_inv [OF inv r]
  show ?thesis
  proof (cases "l \<in> set (mg_held t)")
    case True
    with r lock show ?thesis by (simp add: execute_handler_def end_execution_inv)
  next
    case False
    let ?u = "t\<lparr>mg_held := l # mg_held t,
      mg_executions := dict_set (mg_executions t) i (e\<lparr>ex_phase := Ph_Running l\<rparr>)\<rparr>"
    have free: "k \<noteq> l" if "dict_get (mg_executions t) j = Some f" "ex_phase f = Ph_Running k" for j f k
      using running_lock_known(2) [OF lock(1) that] False by blast
    have u: "(j = i \<and> ex_name f = ex_name e \<and> k = l) \<or> (j \<noteq> i \<and> dict_get (mg_executions t) j = Some f \<and> k \<noteq> l)"
      if "dict_get (mg_executions ?u) j = Some f" "ex_phase f = Ph_Running k" for j f k
      using that free by (auto split: if_splits)
    have "locks_inv ?u"
    proof (rule locks_invI)
      fix j f k
      assume f: "dict_get (mg_executions ?u) j = Some f" "ex_phase f = Ph_Running k"
      from u [OF f] show "dict_get (mg_locks ?u) (ex_name f) = Some k \<and> k \<in> set (mg_held ?u)"
        using lock(2) running_lock_known [OF lock(1) _ f(2)] by auto
    next
      fix j f j' f' k
      assume f: "dict_get (mg_executions ?u) j = Some f" "ex_phase f = Ph_Running k"
        and f': "dict_get (mg_executions ?u) j' = Some f'" "ex_phase f' = Ph_Running k"
      from u [OF f] u [OF f'] show "j' = j"
        using one_holder [OF lock(1) _ f(2) _ f'(2)] by blast
    next
      fix n k assume "dict_get (mg_locks ?u) n = Some k"
      then show "k < mg_next_lock ?u" using locks_below [OF lock(1)] by simp
    qed
    with False r show ?thesis by (simp add: execute_handler_def)
  qed
qed

definition calm_stop :: "'h manager \<Rightarrow> 'h event \<Rightarrow> bool" where
  "calm_stop s ev = (case ev of Ev_Stop_End \<Rightarrow> \<forall>i n. \<not> runs_under s i n | _ \<Rightarrow> True)"

lemma bg_step_inv:
  assumes inv: "locks_inv s" and step: "bg_step cron_ok s ev = Some t" and calm: "calm_stop s ev"
  shows "locks_inv t"
proof (cases ev)
  case (Ev_Register d k)
  then show ?thesis
    using step adds_created_inv [OF adds_register inv] by (auto simp: register_task_def split: if_splits)
next
  case Ev_Start
  have "adds_created s (fst (start_manager cron_ok s))"
  proof -
    obtain u r where r: "each_until_error (schedule_definition cron_ok) s
        (filter (\<lambda>d. td_enabled d \<and> td_schedule d \<noteq> None) (list_tasks s)) = (u, r)" by fastforce
    have u: "adds_created s u"
      using adds_each [of "schedule_definition cron_ok", OF adds_schedule_definition] r by (metis fst_conv)
    let ?v = "u\<lparr>mg_scheduler_running := True, mg_started := True\<rparr>"
    have "adds_created u ?v" by (simp add: adds_created_def)
    then have "adds_created s (fst (each_until_error run_definition_as_task ?v xs))" for xs
      using adds_each [of run_definition_as_task, OF adds_run_definition] u
      by (meson adds_created_trans)
    with u r show ?thesis by (cases r) (simp_all add: start_manager_def Let_def)
  qed
  with Ev_Start step inv show ?thesis by (auto intro: adds_created_inv)
next
  case (Ev_Start_Task n h)
  have "adds_created s (fst (start_task s n h))"
    by (simp add: start_task_def Let_def adds_create_execution)
  with Ev_Start_Task step inv show ?thesis by (auto intro: adds_created_inv)
next
  case (Ev_Fire j)
  have "adds_created s (execute_definition_by_name s n)" for n
    by (simp add: execute_definition_by_name_def adds_create_execution split: option.split)
  with Ev_Fire step inv show ?thesis by (auto split: if_splits intro: adds_created_inv)
next
  case (Ev_Begin i)
  with step inv show ?thesis by (auto split: option.splits if_splits intro: execute_handler_inv)
next
  case (Ev_Finish i)
  with step inv show ?thesis by (auto split: option.splits phase.splits intro: release_inv)
next
  case (Ev_Cancel i)
  have "adds_created s (s\<lparr>mg_executions := dict_set (mg_executions s) i (e\<lparr>ex_phase := Ph_Done\<rparr>)\<rparr>)" for e
    by (auto simp: adds_created_def)
  with Ev_Cancel step inv show ?thesis
    by (auto split: option.splits phase.splits intro: release_inv adds_created_inv)
next
  case Ev_Stop
  have "adds_created s (stop_begin s)" by (simp add: stop_begin_def adds_created_def)
  with Ev_Stop step inv show ?thesis by (auto split: if_splits intro: adds_created_inv)
next
  case Ev_Stop_End
  then have t: "t = stop_end s" and idle: "\<And>i n. \<not> runs_under s i n"
    using step calm by (auto simp: calm_stop_def split: option.splits if_splits)
  have "mg_executions t = mg_executions s" "mg_locks t = []"
    by (simp_all add: t stop_end_def Let_def)
  with idle show ?thesis
    unfolding locks_inv_def runs_under_def by auto
qed

lemma bg_run_inv: "bg_run cron_ok calm_stop s evs t \<Longrightarrow> locks_inv s \<Longrightarrow> locks_inv t"
  by (induction rule: bg_run.induct) (auto intro: bg_step_inv)

lemma locks_inv_new: "locks_inv new_manager"
  by (simp add: locks_inv_def new_manager_def)

text \<open>C20: In every run of the event loop from a new manager, with any interleaving of registrations,
  starts, started tasks, fired jobs, beginnings, ends and cancellations, in which a stop is
  completed only while no handler is running, at most one execution of a task name is inside
  its handler at any time.\<close>

theorem one_execution_per_task:
  assumes "bg_run cron_ok calm_stop new_manager evs s"
    and "runs_under s i name" and "runs_under s j name"
  shows "i = j"
  using locks_inv_exclusive [OF bg_run_inv [OF assms(1) locks_inv_new] assms(2,3)] .

lemma bg_exec_snoc:
  "bg_exec c s (evs @ [ev]) = Option.bind (bg_exec c s evs) (\<lambda>t. bg_step c t ev)"
  by (induction evs arbitrary: s) (auto split: Option.bind_splits)

lemma bg_exec_run:
  assumes "bg_exec c s evs = Some t" "\<And>u ev. ev \<in> set evs \<Longrightarrow> allowed u ev"
  shows "bg_run c allowed s evs t"
  using assms
proof (induction evs arbitrary: t rule: rev_induct)
  case (snoc ev evs)
  then obtain u where "bg_exec c s evs = Some u" "bg_step c u ev = Some t"
    by (auto simp: bg_exec_snoc bind_eq_Some_conv)
  with snoc show ?case by (intro bg_snoc [of c allowed s evs u]) auto
qed (simp add: bg_nil)

lemma calm_events: "ev \<noteq> Ev_Stop_End \<Longrightarrow> calm_stop u ev"
  by (cases ev) (simp_all add: calm_stop_def)

definition ex_schedule :: schedule where
  "ex_schedule = \<lparr>bs_trigger = Interval_Trigger, bs_seconds = Some 60, bs_cron_expression = None, bs_timezone = None\<rparr>"

definition ex_task :: "unit task_def" where
  "ex_task = \<lparr>td_name = '' sync '', td_handler = (), td_kind = Kind_Custom, td_schedule = Some ex_schedule,
     td_run_on_startup = False, td_enabled = True, td_description = None\<rparr>"

definition ex_events :: "unit event list" where
  "ex_events = [Ev_Register ex_task Kind_Custom, Ev_Start, Ev_Fire (job_id ''sync''),
     Ev_Start_Task ''sync'' (), Ev_Begin 0, Ev_Begin 1]"

definition ex_state :: "unit manager" where
  "ex_state = (case bg_exec (\<lambda>_. True) new_manager ex_events of Some s \<Rightarrow> s | None \<Rightarrow> new_manager)"

lemma ex_state_reached: "bg_exec (\<lambda>_. True) new_manager ex_events = Some ex_state"
proof -
  have "bg_exec (\<lambda>_. True) new_manager ex_events \<noteq> None" by code_simp
  then show ?thesis by (auto simp: ex_state_def)
qed

lemma ex_state_runs: "runs_under ex_state 0 ''sync''"
proof -
  have "map_option (\<lambda>e. (ex_name e, ex_phase e)) (dict_get (mg_executions ex_state) 0) = Some (''sync'', Ph_Running 0)"
    by code_simp
  then show ?thesis by (auto simp: runs_under_def)
qed

lemma ex_events_calm: "bg_run (\<lambda>_. True) calm_stop new_manager ex_events ex_state"
  by (rule bg_exec_run [OF ex_state_reached]) (auto simp: ex_events_def intro: calm_events)

theorem one_execution_per_task_witness: "runs_under ex_state 0 ''sync'' \<and> {j. runs_under ex_state j ''sync''} = {0}"
  using one_execution_per_task [OF ex_events_calm ex_state_runs] ex_state_runs by auto

text \<open>Completing a stop drops the lock of a scheduled execution that is still running, since only
  tracked tasks are waited for: a task of that name that is started afterwards gets a new lock,
  and two executions of one name are inside their handlers.\<close>

theorem stop_forgets_running_executions:
  "\<exists>s. bg_exec (\<lambda>_. True) (new_manager :: unit manager)
      [Ev_Register ex_task Kind_Custom, Ev_Start, Ev_Fire (job_id ''sync''), Ev_Begin 0,
       Ev_Stop, Ev_Stop_End, Ev_Start_Task ''sync'' (), Ev_Begin 1] = Some s
     \<and> runs_under s 0 ''sync'' \<and> runs_under s 1 ''sync''"
  (is "\<exists>s. ?r = Some s \<and> _ s \<and> _ s")
proof -
  have "map_option (\<lambda>s. map (\<lambda>i. map_option (\<lambda>e. (ex_name e, ex_phase e)) (dict_get (mg_executions s) i)) [0, 1]) ?r
      = Some [Some (''sync'', Ph_Running 0), Some (''sync'', Ph_Running 1)]"
    by code_simp
  then obtain s e f where "?r = Some s" and "dict_get (mg_executions s) 0 = Some e" "dict_get (mg_executions s) 1 = Some f"
      "ex_name e = ''sync''" "ex_phase e = Ph_Running 0" "ex_name f = ''sync''" "ex_phase f = Ph_Running 1"
    by (cases ?r) (auto simp del: bg_exec.simps)
  then show ?thesis unfolding runs_under_def by blast
qed

section \<open>The registry and the jobs\<close>

definition tasks_ok :: "task_kind \<Rightarrow> (string, 'h task_def) dict \<Rightarrow> bool" where
  "tasks_ok kind m \<longleftrightarrow> dict_ok m \<and> (\<forall>n d. dict_get m n = Some d \<longrightarrow>
     td_name d = n \<and> n \<noteq> [] \<and> py_strip n = n \<and> td_kind d = kind)"

definition stores_ok :: "(string, 'h task_def) dict \<Rightarrow> (string, 'h task_def) dict \<Rightarrow> bool" where
  "stores_ok ds cs \<longleftrightarrow> tasks_ok Kind_Default ds \<and> tasks_ok Kind_Custom cs
     \<and> (\<forall>n. dict_get ds n = None \<or> dict_get cs n = None)"

definition jobs_ok :: "(string \<Rightarrow> 'h task_def option) \<Rightarrow> (string, string \<times> schedule) dict \<Rightarrow> bool" where
  "jobs_ok look js \<longleftrightarrow> (\<forall>j n b. dict_get js j = Some (n, b) \<longrightarrow> j = job_id n
     \<and> (\<exists>d. look n = Some d \<and> td_enabled d \<and> td_schedule d = Some b))"

definition registry_ok :: "'h manager \<Rightarrow> bool" where
  "registry_ok s \<longleftrightarrow> stores_ok (mg_default_tasks s) (mg_custom_tasks s) \<and> jobs_ok (find_definition s) (mg_jobs s)"

definition same_stores :: "'h manager \<Rightarrow> 'h manager \<Rightarrow> bool" where
  "same_stores s t \<longleftrightarrow> mg_default_tasks t = mg_default_tasks s \<and> mg_custom_tasks t = mg_custom_tasks s"

lemma same_stores_find: "same_stores s t \<Longrightarrow> find_definition t = find_definition s"
  by (rule ext) (simp add: same_stores_def find_definition_def cong: option.case_cong)

lemma same_registry_ok:
  "\<lbrakk>same_stores s t; jobs_ok (find_definition s) (mg_jobs t); registry_ok s\<rbrakk> \<Longrightarrow> registry_ok t"
  unfolding registry_ok_def by (simp add: same_stores_find) (simp add: same_stores_def)

lemma jobs_ok_Nil [simp]: "jobs_ok look []"
  by (simp add: jobs_ok_def)

lemma jobs_ok_pop: "jobs_ok look js \<Longrightarrow> jobs_ok look (dict_pop js j)"
  by (simp add: jobs_ok_def)

lemma jobs_ok_set:
  "\<lbrakk>jobs_ok look js; look n = Some d; td_enabled d; td_schedule d = Some b\<rbrakk>
     \<Longrightarrow> jobs_ok look (dict_set js (job_id n) (n, b))"
  unfolding jobs_ok_def by auto

lemma jobs_ok_mono: "\<lbrakk>jobs_ok look js; \<And>n d. look n = Some d \<Longrightarrow> look' n = Some d\<rbrakk> \<Longrightarrow> jobs_ok look' js"
  unfolding jobs_ok_def by blast

lemma create_execution_ok: "registry_ok s \<Longrightarrow> registry_ok (create_execution s n h tracked)"
  by (rule same_registry_ok [of s]) (simp_all add: same_stores_def create_execution_def Let_def registry_ok_def)

lemma run_definition_ok:
  "registry_ok s \<Longrightarrow> registry_ok (fst (run_definition_as_task s d))"
  by (simp add: run_definition_as_task_def create_execution_ok)

lemma schedule_definition_stores: "same_stores s (fst (schedule_definition c s d))"
  by (simp add: schedule_definition_def same_stores_def Let_def split: option.split trigger.split)

lemma schedule_definition_ok:
  assumes ok: "registry_ok s" and d: "find_definition s (td_name d) = Some d" "td_enabled d"
  shows "registry_ok (fst (schedule_definition c s d))"
proof -
  have "jobs_ok (find_definition s) (mg_jobs s)" using ok by (simp add: registry_ok_def)
  note pop = jobs_ok_pop [OF this, of "job_id (td_name d)"]
  have "jobs_ok (find_definition s) (mg_jobs (fst (schedule_definition c s d)))"
    using pop jobs_ok_set [OF pop d]
    by (simp add: schedule_definition_def Let_def split: option.split trigger.split)
  then show ?thesis by (rule same_registry_ok [OF schedule_definition_stores _ ok])
qed

lemma find_set_default:
  "dict_get (mg_custom_tasks s) n = None \<Longrightarrow>
     find_definition (s\<lparr>mg_default_tasks := dict_set (mg_default_tasks s) n d\<rparr>)
       = (find_definition s)(n \<mapsto> d)"
  by (rule ext) (simp add: find_definition_def cong: option.case_cong)

lemma find_set_custom:
  "dict_get (mg_default_tasks s) n = None \<Longrightarrow>
     find_definition (s\<lparr>mg_custom_tasks := dict_set (mg_custom_tasks s) n d\<rparr>)
       = (find_definition s)(n \<mapsto> d)"
  by (rule ext) (auto simp: find_definition_def split: option.split)

lemma store_definition_ok:
  assumes ok: "registry_ok s" and d: "td_name d \<noteq> []" "py_strip (td_name d) = td_name d" "td_kind d = k"
    and fresh: "dict_get (mg_default_tasks s) (td_name d) = None" "dict_get (mg_custom_tasks s) (td_name d) = None"
  shows "registry_ok (store_definition s k d) \<and> find_definition (store_definition s k d) (td_name d) = Some d"
proof -
  have look: "find_definition (store_definition s k d) = (find_definition s)(td_name d \<mapsto> d)"
    using fresh by (cases k) (simp_all add: store_definition_def find_set_default find_set_custom)
  have new: "find_definition s (td_name d) = None" using fresh by (simp add: find_definition_def)
  have "jobs_ok (find_definition (store_definition s k d)) (mg_jobs s)"
    by (rule jobs_ok_mono [of "find_definition s"]) (use ok new in \<open>auto simp: registry_ok_def look\<close>)
  moreover have "stores_ok (mg_default_tasks (store_definition s k d)) (mg_custom_tasks (store_definition s k d))"
    using ok d fresh unfolding registry_ok_def stores_ok_def
    by (cases k) (auto simp: store_definition_def tasks_ok_def split: if_splits)
  moreover have "mg_jobs (store_definition s k d) = mg_jobs s" by (cases k) (simp_all add: store_definition_def)
  ultimately show ?thesis by (simp add: registry_ok_def look)
qed

lemma activate_definition_ok:
  assumes "registry_ok s" "find_definition s (td_name d) = Some d" "td_enabled d"
  shows "registry_ok (fst (activate_definition c s d))"
proof -
  let ?r = "if td_schedule d \<noteq> None then schedule_definition c s d else (s, None)"
  obtain t e where r: "?r = (t, e)" by (cases ?r)
  then have "registry_ok t"
    using schedule_definition_ok [OF assms, of c] assms(1) by (auto split: if_splits)
  then show ?thesis
    unfolding activate_definition_def r by (cases e) (simp_all add: run_definition_ok)
qed

lemma register_task_ok:
  assumes ok: "registry_ok s" and n: "py_strip (td_name d) \<noteq> []"
  shows "registry_ok (fst (register_task c s d k))"
proof -
  let ?d = "d\<lparr>td_kind := k, td_name := py_strip (td_name d)\<rparr>"
  let ?n = "py_strip (td_name d)"
  show ?thesis
  proof (cases "dict_has (mg_default_tasks s) ?n \<or> dict_has (mg_custom_tasks s) ?n")
    case True
    with ok show ?thesis by (simp add: register_task_def register_definition_def)
  next
    case False
    then have "dict_get (mg_default_tasks s) (td_name ?d) = None" "dict_get (mg_custom_tasks s) (td_name ?d) = None"
      by (simp_all add: dict_has_iff)
    from store_definition_ok [OF ok _ _ _ this, of k] n
    have "registry_ok (store_definition s k ?d)" "find_definition (store_definition s k ?d) (td_name ?d) = Some ?d"
      by simp_all
    with False activate_definition_ok [OF this] show ?thesis
      by (simp add: register_task_def register_definition_def Let_def)
  qed
qed

lemma each_preserves:
  assumes "\<And>s x. \<lbrakk>P s; x \<in> set xs\<rbrakk> \<Longrightarrow> P (fst (f s x))" "P s"
  shows "P (fst (each_until_error f s xs))"
  using assms
proof (induction xs arbitrary: s)
  case (Cons x xs)
  obtain s' r where r: "f s x = (s', r)" by (cases "f s x")
  with Cons.prems(1) [OF Cons.prems(2), of x] have p: "P s'" by simp
  have "P (fst (each_until_error f s' xs))" by (rule Cons.IH [OF Cons.prems(1) p]) simp_all
  with r p show ?case by (cases r) simp_all
qed simp

lemma listed_found:
  assumes "registry_ok s" "d \<in> set (list_tasks s)"
  shows "find_definition s (td_name d) = Some d"
proof -
  have st: "stores_ok (mg_default_tasks s) (mg_custom_tasks s)" using assms(1) by (simp add: registry_ok_def)
  have "dict_get m (td_name d) = Some d" if m: "tasks_ok k m" "d \<in> set (dict_values m)" for k m
  proof -
    obtain n where "(n, d) \<in> set m" using m(2) by (auto simp: dict_values_def)
    with m(1) have "dict_get m n = Some d" by (simp add: tasks_ok_def dict_ok_in)
    with m(1) show ?thesis by (auto simp: tasks_ok_def)
  qed
  then have "dict_get (mg_default_tasks s) (td_name d) = Some d \<or> dict_get (mg_custom_tasks s) (td_name d) = Some d"
    using assms(2) st unfolding list_tasks_def stores_ok_def by auto
  with st show ?thesis
    unfolding stores_ok_def find_definition_def by (auto split: option.split dest: spec [of _ "td_name d"])
qed

lemma start_manager_ok:
  assumes ok: "registry_ok s"
  shows "registry_ok (fst (start_manager c s))"
proof -
  let ?xs = "filter (\<lambda>d. td_enabled d \<and> td_schedule d \<noteq> None) (list_tasks s)"
  obtain t r where r: "each_until_error (schedule_definition c) s ?xs = (t, r)" by fastforce
  have "registry_ok (fst (each_until_error (schedule_definition c) s ?xs))
      \<and> same_stores s (fst (each_until_error (schedule_definition c) s ?xs))"
  proof (rule each_preserves [where P = "\<lambda>u. registry_ok u \<and> same_stores s u"])
    fix u d assume u: "registry_ok u \<and> same_stores s u" and d: "d \<in> set ?xs"
    then have "find_definition u (td_name d) = Some d"
      using listed_found [OF ok, of d] same_stores_find [of s u] by simp
    with u d show "registry_ok (fst (schedule_definition c u d)) \<and> same_stores s (fst (schedule_definition c u d))"
      using schedule_definition_ok [of u d c] schedule_definition_stores [of u c d] by (simp add: same_stores_def)
  qed (simp add: ok same_stores_def)
  with r have t: "registry_ok t" by simp
  let ?v = "t\<lparr>mg_scheduler_running := True, mg_started := True\<rparr>"
  have v: "registry_ok ?v"
    by (rule same_registry_ok [of t]) (use t in \<open>simp_all add: same_stores_def registry_ok_def\<close>)
  have "registry_ok (fst (each_until_error run_definition_as_task ?v ys))" for ys
    by (rule each_preserves [where P = registry_ok]) (rule run_definition_ok, assumption, rule v)
  with r t ok show ?thesis by (cases r) (simp_all add: start_manager_def Let_def)
qed

lemma bg_step_registry:
  assumes ok: "registry_ok s" and step: "bg_step c s ev = Some t"
  shows "registry_ok t"
proof -
  have same: "registry_ok u" if "same_stores s u" "mg_jobs u = mg_jobs s \<or> mg_jobs u = []" for u
    by (rule same_registry_ok [OF that(1) _ ok]) (use that(2) ok in \<open>auto simp: registry_ok_def\<close>)
  have run: "registry_ok (execute_handler s i e)" "registry_ok (release_and_end s i e l)" for i e l
    by (rule same; simp add: execute_handler_def release_and_end_def end_execution_def task_lock_def
        same_stores_def split: option.split)+
  show ?thesis
  proof (cases ev)
    case (Ev_Register d k)
    with step show ?thesis using register_task_ok [OF ok, of d c k] by (auto split: if_splits)
  next
    case (Ev_Fire j)
    with step show ?thesis
      using ok by (auto simp: execute_definition_by_name_def create_execution_ok split: if_splits option.split)
  next
    case (Ev_Cancel i)
    have "registry_ok (s\<lparr>mg_executions := x\<rparr>)" for x by (rule same) (simp_all add: same_stores_def)
    with Ev_Cancel step run show ?thesis by (auto split: option.splits phase.splits)
  next
    case Ev_Stop_End
    have "registry_ok (stop_end s)" by (rule same) (simp_all add: stop_end_def same_stores_def Let_def)
    with Ev_Stop_End step show ?thesis by (auto split: option.splits if_splits)
  next
    case Ev_Stop
    have "registry_ok (stop_begin s)" by (rule same) (simp_all add: stop_begin_def same_stores_def)
    with Ev_Stop step show ?thesis by (auto split: if_splits)
  qed (use step ok run start_manager_ok [OF ok] in
      \<open>auto simp: start_task_def Let_def create_execution_ok split: option.splits if_splits phase.splits\<close>)
qed

lemma bg_run_registry: "bg_run c allowed s evs t \<Longrightarrow> registry_ok s \<Longrightarrow> registry_ok t"
  by (induction rule: bg_run.induct) (auto intro: bg_step_registry)

lemma registry_ok_new: "registry_ok new_manager"
  by (simp add: registry_ok_def stores_ok_def tasks_ok_def new_manager_def)

text \<open>In every state that a manager can reach, every registered task is stored under its own
  name, which is stripped and not empty and of the store's kind, no name is in both stores, and
  every job belongs to a registered, enabled task and has its schedule: a job that fires always
  finds its definition.\<close>

theorem registry_well_formed:
  assumes "bg_run c allowed new_manager evs s"
  shows "tasks_ok Kind_Default (mg_default_tasks s) \<and> tasks_ok Kind_Custom (mg_custom_tasks s)
    \<and> fst ` set (mg_default_tasks s) \<inter> fst ` set (mg_custom_tasks s) = {}
    \<and> jobs_ok (find_definition s) (mg_jobs s)"
proof -
  have ok: "registry_ok s" by (rule bg_run_registry [OF assms registry_ok_new])
  then have "\<not> (dict_has (mg_default_tasks s) n \<and> dict_has (mg_custom_tasks s) n)" for n
    by (auto simp: registry_ok_def stores_ok_def dict_has_iff)
  then have "fst ` set (mg_default_tasks s) \<inter> fst ` set (mg_custom_tasks s) = {}"
    unfolding dict_has_def by blast
  with ok show ?thesis by (simp add: registry_ok_def stores_ok_def)
qed

theorem registry_well_formed_witness:
  "tasks_ok Kind_Custom (mg_custom_tasks ex_state) \<and> jobs_ok (find_definition ex_state) (mg_jobs ex_state)
   \<and> dict_keys (mg_jobs ex_state) = [job_id ''sync'']"
proof -
  have "dict_keys (mg_jobs ex_state) = [job_id ''sync'']" by code_simp
  with registry_well_formed [OF ex_events_calm] show ?thesis by simp
qed

end
