(* ===== verification/Unified_Model.thy ===== *)
theory Unified_Model
  imports Semantic_Model Plan_Models
begin

text \<open>
  Several semantic models as one (\<open>semantic/unified_query.py\<close> and the relationship of
  \<open>semantic/unified_model.py\<close>): keys of sources, the resolution of fields within a source, the
  merged model with its relationships across sources and its metrics, and the catalogs of a
  workspace. Keys have no backslash, which a replacement text would read as an escape.
  An id is its text with hyphens; \<open>hex\<close> leaves the hyphens out. A metric is its
  expression.
\<close>

record source_model =
  us_model :: semantic_model
  us_connector_id :: "uuid option"
  us_key :: "string option"
  us_alias :: "string option"
  us_name :: "string option"
  us_model_id :: "uuid option"

record resolved_member =
  re_dataset_key :: string
  re_field_name :: string

datatype unify_error =
    No_Source_Models
  | Duplicate_Dataset_Key string
  | Field_Reference_Empty string
  | Field_Ambiguous string string
  | Field_Not_Found string string
  | Model_Not_Available uuid
  | Relationship_Field_Empty
  | Relationship_Type_Unknown string

section \<open>Keys\<close>

definition uuid_hex :: "uuid \<Rightarrow> string" where
  "uuid_hex u = filter (\<lambda>c. c \<noteq> CHR ''-'') u"

definition text_or :: "string option \<Rightarrow> string \<Rightarrow> string" where
  "text_or v d = (case v of Some (c # cs) \<Rightarrow> c # cs | _ \<Rightarrow> d)"

definition source_key :: "source_model \<Rightarrow> string" where
  "source_key s =
     (let explicit = py_strip (text_or (us_key s) (text_or (us_alias s) []));
          nm = py_strip (text_or (us_name s) []);
          normalized = strip_underscores (collapse_symbols False (py_lower nm))
      in if explicit \<noteq> [] then explicit
         else if nm \<noteq> [] \<and> normalized \<noteq> [] then normalized
         else case us_model_id s of Some u \<Rightarrow> ''model_'' @ take 8 (uuid_hex u) | None \<Rightarrow> ''model'')"

definition materialized_dataset_key :: "string \<Rightarrow> string \<Rightarrow> string" where
  "materialized_dataset_key model_key dataset_key = model_key @ ''__'' @ dataset_key"

section \<open>Fields of a source\<close>

definition field_names :: "dataset \<Rightarrow> string list" where
  "field_names d = map dm_name (ds_dimensions d) @ map ms_name (ds_measures d)"

definition source_members :: "source_model \<Rightarrow> resolved_member list" where
  "source_members s = concat (map (\<lambda>(k, d).
     map (\<lambda>f. \<lparr>re_dataset_key = k, re_field_name = f\<rparr>) (field_names d)) (sem_datasets (us_model s)))"

definition qualified_index :: "source_model \<Rightarrow> (string, resolved_member) dict" where
  "qualified_index s = foldl (\<lambda>m r. dict_set m (re_dataset_key r @ ''.'' @ re_field_name r) r) [] (source_members s)"

definition member_matches :: "source_model \<Rightarrow> string \<Rightarrow> resolved_member list" where
  "member_matches s name = filter (\<lambda>r. re_field_name r = name) (source_members s)"

definition resolve_member :: "source_model \<Rightarrow> string \<Rightarrow> (unify_error, resolved_member) result" where
  "resolve_member s member_ref =
     (let n = py_strip member_ref
      in if n = [] then Inl (Field_Reference_Empty (source_key s))
         else case dict_get (qualified_index s) n of
           Some r \<Rightarrow> Inr r
         | None \<Rightarrow> (case member_matches s n of
             [] \<Rightarrow> Inl (Field_Not_Found n (source_key s))
           | [r] \<Rightarrow> Inr r
           | _ \<Rightarrow> Inl (Field_Ambiguous n (source_key s))))"

text \<open>The dictionary of resolvers: of sources with the same key the last one.\<close>

definition source_lookup :: "source_model list \<Rightarrow> (string, source_model) dict" where
  "source_lookup ss = foldl (\<lambda>m s. dict_set m (source_key s) s) [] ss"

definition resolve_in :: "source_model list \<Rightarrow> source_model \<Rightarrow> string \<Rightarrow> (unify_error, resolved_member) result" where
  "resolve_in ss s member_ref =
     (case dict_get (source_lookup ss) (source_key s) of
        Some r \<Rightarrow> resolve_member r member_ref
      | None \<Rightarrow> resolve_member s member_ref)"

definition require_source_model_by_id :: "source_model list \<Rightarrow> uuid \<Rightarrow> (unify_error, source_model) result" where
  "require_source_model_by_id ss i =
     (case find (\<lambda>s. us_model_id s = Some i) ss of None \<Rightarrow> Inl (Model_Not_Available i) | Some s \<Rightarrow> Inr s)"

section \<open>Datasets\<close>

definition dataset_entries :: "source_model \<Rightarrow> (string \<times> uuid option \<times> dataset) list" where
  "dataset_entries s = map (\<lambda>(k, d). (materialized_dataset_key (source_key s) k, us_connector_id s, d))
     (sem_datasets (us_model s))"

type_synonym merged = "(string, dataset) dict \<times> (string, uuid) dict"

fun merge_datasets :: "merged \<Rightarrow> (string \<times> uuid option \<times> dataset) list \<Rightarrow> (unify_error, merged) result" where
  "merge_datasets acc [] = Inr acc"
| "merge_datasets (ds, cs) ((k, c, d) # es) =
     (if dict_has ds k then Inl (Duplicate_Dataset_Key k)
      else merge_datasets (dict_set ds k d, case c of None \<Rightarrow> cs | Some x \<Rightarrow> dict_set cs k x) es)"

section \<open>Relationships\<close>

definition source_relationships :: "source_model \<Rightarrow> relationship list" where
  "source_relationships s = map (\<lambda>r. r
     \<lparr>rl_name := source_key s @ ''__'' @ rl_name r,
      rl_source_dataset := materialized_dataset_key (source_key s) (rl_source_dataset r),
      rl_target_dataset := materialized_dataset_key (source_key s) (rl_target_dataset r)\<rparr>)
     (sem_relationships (us_model s))"

record unified_relationship =
  ur_name :: "string option"
  ur_source_id :: uuid
  ur_source_field :: string
  ur_target_id :: uuid
  ur_target_field :: string
  ur_type :: string
  ur_operator :: string

definition required_text :: "string \<Rightarrow> (unify_error, string) result" where
  "required_text v = (if py_strip v = [] then Inl Relationship_Field_Empty else Inr (py_strip v))"

definition optional_name :: "string option \<Rightarrow> string option" where
  "optional_name v = (case v of None \<Rightarrow> None | Some s \<Rightarrow> if py_strip s = [] then None else Some (py_strip s))"

definition validate_relationship :: "unified_relationship \<Rightarrow> (unify_error, unified_relationship) result" where
  "validate_relationship r =
     bindR (required_text (ur_source_field r)) (\<lambda>sf.
     bindR (required_text (ur_target_field r)) (\<lambda>tf.
     bindR (required_text (ur_type r)) (\<lambda>ty.
     bindR (required_text (ur_operator r)) (\<lambda>oper.
       Inr (r\<lparr>ur_name := optional_name (ur_name r), ur_source_field := sf, ur_target_field := tf,
              ur_type := ty, ur_operator := oper\<rparr>)))))"

definition relationship_types :: "(string, relationship_type) dict" where
  "relationship_types =
     [(''one_to_many'', One_To_Many), (''many_to_one'', Many_To_One), (''one_to_one'', One_To_One),
      (''many_to_many'', Many_To_Many), (''inner'', Rel_Inner), (''left'', Rel_Left),
      (''right'', Rel_Right), (''full'', Rel_Full)]"

definition build_relationship_name ::
  "source_model \<Rightarrow> resolved_member \<Rightarrow> source_model \<Rightarrow> resolved_member \<Rightarrow> string" where
  "build_relationship_name s sr t tr =
     source_key s @ ''__'' @ re_dataset_key sr @ ''_'' @ re_field_name sr @ ''__to__''
     @ source_key t @ ''__'' @ re_dataset_key tr @ ''_'' @ re_field_name tr"

definition link_members ::
  "source_model \<Rightarrow> source_model \<Rightarrow> unified_relationship \<Rightarrow> resolved_member \<Rightarrow> resolved_member
   \<Rightarrow> (unify_error, relationship) result" where
  "link_members s t r sr tr =
     (case dict_get relationship_types (ur_type r) of
        None \<Rightarrow> Inl (Relationship_Type_Unknown (ur_type r))
      | Some ty \<Rightarrow> Inr
          \<lparr>rl_name = (case ur_name r of Some n \<Rightarrow> n | None \<Rightarrow> build_relationship_name s sr t tr),
           rl_source_dataset = materialized_dataset_key (source_key s) (re_dataset_key sr),
           rl_source_field = re_field_name sr,
           rl_target_dataset = materialized_dataset_key (source_key t) (re_dataset_key tr),
           rl_target_field = re_field_name tr,
           rl_operator = ur_operator r, rl_type = ty\<rparr>)"

definition cross_relationship ::
  "source_model list \<Rightarrow> unified_relationship \<Rightarrow> (unify_error, relationship) result" where
  "cross_relationship ss payload =
     bindR (validate_relationship payload) (\<lambda>r.
     bindR (require_source_model_by_id ss (ur_source_id r)) (\<lambda>s.
     bindR (require_source_model_by_id ss (ur_target_id r)) (\<lambda>t.
     bindR (resolve_in ss s (ur_source_field r)) (\<lambda>sr.
     bindR (resolve_in ss t (ur_target_field r)) (link_members s t r sr)))))"

section \<open>Metrics\<close>

text \<open>\<open>\bkey\.\<close>\<close>

definition match_dataset :: "string \<Rightarrow> char option \<Rightarrow> string \<Rightarrow> (nat \<times> unit) option" where
  "match_dataset k before s =
     (if prefix (k @ ''.'') s
         \<and> word_char (hd s) \<noteq> (case before of None \<Rightarrow> False | Some c \<Rightarrow> word_char c)
      then Some (Suc (length k), ()) else None)"

definition rewrite_dataset :: "string \<Rightarrow> string \<Rightarrow> string \<Rightarrow> string" where
  "rewrite_dataset model_key k e =
     (case scan_sub (match_dataset k) (\<lambda>_. Inr (materialized_dataset_key model_key k @ ''.'') :: (unit, string) result)
         0 None e of Inl _ \<Rightarrow> [] | Inr t \<Rightarrow> t)"

definition rewrite_source_metric_expression :: "source_model \<Rightarrow> string \<Rightarrow> string" where
  "rewrite_source_metric_expression s e =
     foldl (\<lambda>acc k. rewrite_dataset (source_key s) k acc) e
       (sort_key (\<lambda>k. - int (length k)) (dict_keys (sem_datasets (us_model s))))"

text \<open>
  \<open>\b model \. member (\. member)? \b\<close>: the optional part is given up when no word ends after it.
  The group is the model, the member and the whole match.
\<close>

definition word_ends :: "string \<Rightarrow> bool" where
  "word_ends s = (s = [] \<or> \<not> word_char (hd s))"

definition match_model_member :: "char option \<Rightarrow> string \<Rightarrow> (nat \<times> string \<times> string \<times> string) option" where
  "match_model_member before s =
     (if (case before of None \<Rightarrow> False | Some c \<Rightarrow> word_char c) then None
      else case match_ident s of
        None \<Rightarrow> None
      | Some m \<Rightarrow>
          let r1 = drop (length m) s in
          if \<not> prefix ''.'' r1 then None
          else case match_ident (tl r1) of
            None \<Rightarrow> None
          | Some f \<Rightarrow>
              let r2 = drop (length f) (tl r1);
                  found = (\<lambda>member. Some (length m + 1 + length member, m, member, m @ ''.'' @ member));
                  short = (if word_ends r2 then found f else None)
              in if prefix ''.'' r2
                 then (case match_ident (tl r2) of
                     None \<Rightarrow> short
                   | Some g \<Rightarrow> if word_ends (drop (length g) (tl r2)) then found (f @ ''.'' @ g) else short)
                 else short)"

definition rewrite_unified_metric_expression ::
  "source_model list \<Rightarrow> string \<Rightarrow> (unify_error, string) result" where
  "rewrite_unified_metric_expression ss e =
     scan_sub match_model_member (\<lambda>(m, member, whole).
       case dict_get (source_lookup ss) m of
         None \<Rightarrow> Inr whole
       | Some s \<Rightarrow> bindR (resolve_member s member) (\<lambda>r.
           Inr (materialized_dataset_key (source_key s) (re_dataset_key r) @ ''.'' @ re_field_name r))) 0 None e"

definition source_metrics :: "source_model \<Rightarrow> (string \<times> string) list" where
  "source_metrics s = map (\<lambda>(k, e). (source_key s @ ''.'' @ k, rewrite_source_metric_expression s e))
     (sem_metrics (us_model s))"

section \<open>The unified model\<close>

definition build_unified_semantic_model ::
  "source_model list \<Rightarrow> unified_relationship list \<Rightarrow> (string \<times> string) list \<Rightarrow> string option
   \<Rightarrow> (unify_error, semantic_model \<times> (string, uuid) dict) result" where
  "build_unified_semantic_model ss rels metrics dialect =
     (if ss = [] then Inl No_Source_Models
      else
        bindR (merge_datasets ([], []) (concat (map dataset_entries ss))) (\<lambda>(ds, cs).
        bindR (mapR (cross_relationship ss) rels) (\<lambda>cross.
        bindR (mapR (\<lambda>(k, e). bindR (rewrite_unified_metric_expression ss e) (\<lambda>e'. Inr (k, e'))) metrics) (\<lambda>ms.
          Inr (\<lparr>sem_dialect = dialect, sem_datasets = ds,
                sem_relationships = concat (map source_relationships ss) @ cross,
                sem_metrics = dict_update (dict_update [] (concat (map source_metrics ss))) ms\<rparr>, cs)))))"

section \<open>Catalogs of a workspace\<close>

definition build_catalog_token :: "uuid \<Rightarrow> uuid \<Rightarrow> string" where
  "build_catalog_token workspace connector =
     ''ws_'' @ take 12 (uuid_hex workspace) @ ''__src_'' @ take 12 (uuid_hex connector)"

definition apply_to_dataset :: "uuid \<Rightarrow> uuid \<Rightarrow> (string, uuid) dict \<Rightarrow> string \<Rightarrow> dataset \<Rightarrow> dataset" where
  "apply_to_dataset workspace connector table_map k d =
     (if text_or (ds_catalog_name d) [] \<noteq> [] then d
      else let schema = py_strip (text_or (ds_schema_name d) [])
        in if CHR ''.'' \<in> set schema
           then d\<lparr>ds_catalog_name := Some (takeWhile (\<lambda>c. c \<noteq> CHR ''.'') schema),
                  ds_schema_name := Some (tl (dropWhile (\<lambda>c. c \<noteq> CHR ''.'') schema))\<rparr>
           else d\<lparr>ds_catalog_name := Some (build_catalog_token workspace
                  (case dict_get table_map k of Some c \<Rightarrow> c | None \<Rightarrow> connector))\<rparr>)"

definition apply_workspace_aware_context ::
  "semantic_model \<Rightarrow> uuid \<Rightarrow> uuid \<Rightarrow> (string, uuid) dict \<Rightarrow> semantic_model" where
  "apply_workspace_aware_context m workspace connector table_map =
     m\<lparr>sem_datasets := map (\<lambda>(k, d). (k, apply_to_dataset workspace connector table_map k d)) (sem_datasets m)\<rparr>"

section \<open>What merging keeps\<close>

lemma dict_set_new: "\<not> dict_has d k \<Longrightarrow> dict_set d k v = d @ [(k, v)]"
  unfolding dict_set_def dict_has_def by (induction d) auto

definition entry_dataset :: "string \<times> uuid option \<times> dataset \<Rightarrow> string \<times> dataset" where
  "entry_dataset e = (fst e, snd (snd e))"

lemma merge_datasets_append:
  "merge_datasets (ds, cs) es = Inr (ds', cs') \<Longrightarrow> dict_ok ds \<Longrightarrow>
     ds' = ds @ map entry_dataset es \<and> dict_ok ds'"
proof (induction es arbitrary: ds cs)
  case (Cons e es)
  obtain k c d where e: "e = (k, c, d)" by (cases e)
  with Cons.prems have new: "\<not> dict_has ds k" by (auto split: if_splits)
  let ?cs = "case c of None \<Rightarrow> cs | Some x \<Rightarrow> dict_set cs k x"
  have "merge_datasets (dict_set ds k d, ?cs) es = Inr (ds', cs')"
    using Cons.prems(1) e new by simp
  from Cons.IH [OF this dict_ok_set [OF Cons.prems(2)]]
  have "ds' = dict_set ds k d @ map entry_dataset es" "dict_ok ds'" by blast+
  then show ?case unfolding e by (auto simp: dict_set_new [OF new] entry_dataset_def)
qed simp

lemma merge_connectors:
  "merge_datasets (ds, cs) es = Inr (ds', cs') \<Longrightarrow>
     dict_get cs' k = (case map_of es k of Some (Some c, d) \<Rightarrow> Some c | _ \<Rightarrow> dict_get cs k)
     \<and> (dict_has ds k \<longrightarrow> map_of es k = None)"
proof (induction es arbitrary: ds cs)
  case (Cons e es)
  obtain j c d where e: "e = (j, c, d)" by (cases e)
  let ?cs = "case c of None \<Rightarrow> cs | Some x \<Rightarrow> dict_set cs j x"
  from Cons.prems e have new: "\<not> dict_has ds j" and
      rest: "merge_datasets (dict_set ds j d, ?cs) es = Inr (ds', cs')"
    by (auto split: if_splits)
  note IH = Cons.IH [OF rest]
  show ?case
  proof (cases "k = j")
    case True
    then have "map_of es k = None" using IH by (simp add: dict_has_iff)
    with True IH e new show ?thesis by (cases c) auto
  next
    case False
    then have "dict_get ?cs k = dict_get cs k" by (cases c) auto
    with IH have "dict_get cs' k = (case map_of es k of Some (Some c, d) \<Rightarrow> Some c | _ \<Rightarrow> dict_get cs k)"
      by (simp only:)
    moreover have "dict_has ds k \<longrightarrow> map_of es k = None" using IH False by (simp add: dict_has_iff)
    ultimately show ?thesis using False e by simp
  qed
qed simp

lemma source_lookup_distinct:
  assumes "distinct (map source_key ss)" "s \<in> set ss"
  shows "dict_get (source_lookup ss) (source_key s) = Some s"
proof -
  have "dict_get (foldl (\<lambda>m s. dict_set m (source_key s) s) acc ss) (source_key s) = Some s"
    if "distinct (map source_key ss)" "s \<in> set ss" for acc ss
    using that
  proof (induction ss arbitrary: acc)
    case (Cons x xs)
    have keep: "dict_get (foldl (\<lambda>m s. dict_set m (source_key s) s) acc ys) k = dict_get acc k"
      if "k \<notin> source_key ` set ys" for acc k ys
      using that by (induction ys arbitrary: acc) auto
    show ?case
    proof (cases "s = x")
      case True
      with Cons.prems keep [of "source_key x" xs "dict_set acc (source_key x) x"] show ?thesis by simp
    next
      case False
      with Cons show ?thesis by simp
    qed
  qed simp
  with assms show ?thesis by (simp add: source_lookup_def)
qed

lemma qualified_index_member:
  assumes "dict_get (qualified_index s) q = Some r"
  shows "r \<in> set (source_members s)"
proof -
  have "dict_get (foldl (\<lambda>m r. dict_set m (re_dataset_key r @ ''.'' @ re_field_name r) r) acc rs) q = Some r
      \<Longrightarrow> r \<in> set rs \<or> dict_get acc q = Some r" for acc rs
    by (induction rs arbitrary: acc) (fastforce split: if_splits)+
  from this [of "[]"] assms show ?thesis by (auto simp: qualified_index_def)
qed

lemma resolve_member_declared:
  assumes "resolve_member s ref = Inr r"
  shows "r \<in> set (source_members s)"
proof (cases "dict_get (qualified_index s) (py_strip ref)")
  case (Some q)
  with assms show ?thesis
    by (auto simp: resolve_member_def Let_def split: if_splits dest: qualified_index_member)
next
  case None
  with assms have "member_matches s (py_strip ref) = [r]"
    by (auto simp: resolve_member_def Let_def split: if_splits list.splits)
  then have "r \<in> set (member_matches s (py_strip ref))" by simp
  then show ?thesis by (simp add: member_matches_def)
qed

text \<open>A dataset of the model declares a field.\<close>

definition declares :: "semantic_model \<Rightarrow> string \<Rightarrow> string \<Rightarrow> bool" where
  "declares m k f = (case dict_get (sem_datasets m) k of None \<Rightarrow> False | Some d \<Rightarrow> f \<in> set (field_names d))"

lemma member_declared:
  assumes ds: "sem_datasets m = map entry_dataset (concat (map dataset_entries ss))" "dict_ok (sem_datasets m)"
    and s: "s \<in> set ss" and r: "r \<in> set (source_members s)"
  shows "declares m (materialized_dataset_key (source_key s) (re_dataset_key r)) (re_field_name r)"
proof -
  obtain k d where d: "(k, d) \<in> set (sem_datasets (us_model s))" "re_dataset_key r = k"
      "re_field_name r \<in> set (field_names d)"
    using r by (auto simp: source_members_def)
  have "(materialized_dataset_key (source_key s) k, us_connector_id s, d) \<in> set (dataset_entries s)"
    using d(1) by (force simp: dataset_entries_def)
  then have "entry_dataset (materialized_dataset_key (source_key s) k, us_connector_id s, d) \<in> set (sem_datasets m)"
    unfolding ds(1) set_map set_concat using s by blast
  then have "dict_get (sem_datasets m) (materialized_dataset_key (source_key s) k) = Some d"
    using ds(2) by (simp add: entry_dataset_def dict_ok_in)
  with d(2,3) show ?thesis by (simp add: declares_def)
qed

definition connects_declared :: "semantic_model \<Rightarrow> relationship \<Rightarrow> bool" where
  "connects_declared m r = (declares m (rl_source_dataset r) (rl_source_field r)
     \<and> declares m (rl_target_dataset r) (rl_target_field r))"

lemma cross_relationship_declared:
  assumes ds: "sem_datasets m = map entry_dataset (concat (map dataset_entries ss))" "dict_ok (sem_datasets m)"
    and keys: "distinct (map source_key ss)" and r: "cross_relationship ss u = Inr r"
  shows "connects_declared m r"
proof -
  obtain v s t sr tr where
      s: "require_source_model_by_id ss (ur_source_id v) = Inr s"
         "require_source_model_by_id ss (ur_target_id v) = Inr t"
      and res: "resolve_in ss s (ur_source_field v) = Inr sr" "resolve_in ss t (ur_target_field v) = Inr tr"
      and link: "link_members s t v sr tr = Inr r"
    using r by (auto simp: cross_relationship_def bindR_eq_Inr)
  have rl: "rl_source_dataset r = materialized_dataset_key (source_key s) (re_dataset_key sr)"
      "rl_source_field r = re_field_name sr"
      "rl_target_dataset r = materialized_dataset_key (source_key t) (re_dataset_key tr)"
      "rl_target_field r = re_field_name tr"
    using link by (auto simp: link_members_def split: option.splits)
  have here: "s \<in> set ss" "t \<in> set ss"
    using s by (auto simp: require_source_model_by_id_def find_Some_iff split: option.splits)
  have "sr \<in> set (source_members s)" "tr \<in> set (source_members t)"
    using res source_lookup_distinct [OF keys] here
    by (auto simp: resolve_in_def intro: resolve_member_declared)
  with member_declared [OF ds] here rl show ?thesis by (simp add: connects_declared_def)
qed

text \<open>C21: When sources with distinct keys are merged, the datasets of the unified model are those of the
  sources, each once, in order and unchanged under its materialized key; the connector of a
  dataset is the connector of its source; and every relationship across sources connects
  datasets of the unified model by fields which these declare.\<close>

theorem unified_model_is_disjoint_union:
  assumes "build_unified_semantic_model ss rels metrics dialect = Inr (m, cs)"
    and "distinct (map source_key ss)"
  shows "sem_datasets m = map entry_dataset (concat (map dataset_entries ss)) \<and> dict_ok (sem_datasets m)
    \<and> (\<forall>k. dict_get cs k = (case map_of (concat (map dataset_entries ss)) k of Some (Some c, d) \<Rightarrow> Some c | _ \<Rightarrow> None))
    \<and> (\<exists>cross. sem_relationships m = concat (map source_relationships ss) @ cross
        \<and> length cross = length rels \<and> list_all (connects_declared m) cross)"
proof -
  obtain ds cross ms where merged: "merge_datasets ([], []) (concat (map dataset_entries ss)) = Inr (ds, cs)"
      and cross: "mapR (cross_relationship ss) rels = Inr cross"
      and m: "sem_datasets m = ds" "sem_relationships m = concat (map source_relationships ss) @ cross"
    using assms(1) by (auto simp: build_unified_semantic_model_def bindR_eq_Inr split: if_splits)
  have ds: "sem_datasets m = map entry_dataset (concat (map dataset_entries ss))" "dict_ok (sem_datasets m)"
    using merge_datasets_append [OF merged dict_ok_Nil] unfolding m(1) append_Nil by blast+
  have "list_all2 (\<lambda>u r. cross_relationship ss u = Inr r) rels cross"
    using cross by (simp add: mapR_Inr_iff)
  then have "list_all (connects_declared m) cross"
    by (induction rule: list_all2_induct) (auto intro: cross_relationship_declared [OF ds assms(2)])
  moreover have "dict_get cs k = (case map_of (concat (map dataset_entries ss)) k of
      Some (Some c, d) \<Rightarrow> Some c | _ \<Rightarrow> None)" for k
    using merge_connectors [OF merged, of k] by (auto split: option.splits)
  ultimately show ?thesis using ds m(2) mapR_length [OF cross] by blast
qed

definition ex_source :: "string \<Rightarrow> source_model" where
  "ex_source k = \<lparr>us_model = \<lparr>sem_dialect = None,
       sem_datasets = [(''t'', \<lparr>ds_dataset_id = None, ds_relation_name = None, ds_schema_name = None,
         ds_catalog_name = None, ds_dimensions = [\<lparr>dm_name = ''id'', dm_expression = None, dm_type = ''int'',
           dm_primary_key = True, dm_alias = None\<rparr>], ds_measures = [], ds_filters = []\<rparr>)],
       sem_relationships = [], sem_metrics = []\<rparr>,
     us_connector_id = Some (''c'' @ k), us_key = Some k, us_alias = None, us_name = None, us_model_id = Some k\<rparr>"

definition ex_cross :: unified_relationship where
  "ex_cross = \<lparr>ur_name = None, ur_source_id = ''a'', ur_source_field = ''t.id'', ur_target_id = ''b'',
     ur_target_field = ''id'', ur_type = ''inner'', ur_operator = ''=''\<rparr>"

lemma ex_unified:
  "case build_unified_semantic_model [ex_source ''a'', ex_source ''b''] [ex_cross] [] None of
     Inl _ \<Rightarrow> False
   | Inr (m, cs) \<Rightarrow> dict_keys (sem_datasets m) = [''a__t'', ''b__t''] \<and> length (sem_relationships m) = 1"
  "distinct (map source_key [ex_source ''a'', ex_source ''b''])"
  by code_simp+

theorem unified_model_is_disjoint_union_witness:
  "\<exists>m cs. build_unified_semantic_model [ex_source ''a'', ex_source ''b''] [ex_cross] [] None = Inr (m, cs)
     \<and> dict_keys (sem_datasets m) = [''a__t'', ''b__t''] \<and> list_all (connects_declared m) (sem_relationships m)"
proof -
  obtain m cs where r: "build_unified_semantic_model [ex_source ''a'', ex_source ''b''] [ex_cross] [] None = Inr (m, cs)"
      and k: "dict_keys (sem_datasets m) = [''a__t'', ''b__t'']"
    using ex_unified(1) by (auto split: sum.splits)
  have "concat (map source_relationships [ex_source ''a'', ex_source ''b'']) = []"
    by (simp add: source_relationships_def ex_source_def)
  with unified_model_is_disjoint_union [OF r ex_unified(2)] have "list_all (connects_declared m) (sem_relationships m)"
    by auto
  with r k show ?thesis by blast
qed

end
