(* ===== verification/Date_Ranges.thy ===== *)
theory Date_Ranges
  imports Sql_Utils
begin

text \<open>
  Literals and date ranges of semantic queries (\<open>semantic/query/tsql.py\<close>). The SQL trees that the
  code builds are a datatype with one constructor per class of nodes used; a column is a value
  of type \<open>'c\<close>. An interval is the text that sqlglot is given to parse. Digits are the ASCII ones,
  which are the only ones below code point 256 that \<open>float\<close> and the patterns accept.
\<close>

datatype 'c expr =
    E_Null
  | E_Boolean bool
  | E_Number string
  | E_Int int
  | E_String string
  | E_Column 'c
  | E_Get_Date
  | E_Current_Date
  | E_Current_Timestamp
  | E_Cast_Date "'c expr"
  | E_Interval string
  | E_Add "'c expr" "'c expr"
  | E_Sub "'c expr" "'c expr"
  | E_Date_Add "'c expr" "'c expr" string
  | E_Date_Diff "'c expr" "'c expr" string
  | E_Date_Trunc "'c expr" string
  | E_LT "'c expr" "'c expr"
  | E_LTE "'c expr" "'c expr"
  | E_GT "'c expr" "'c expr"
  | E_GTE "'c expr" "'c expr"
  | E_EQ "'c expr" "'c expr"
  | E_And "'c expr" "'c expr"

datatype literal_value =
    L_None
  | L_Bool bool
  | L_Int int
  | L_Float string
  | L_Temporal string
  | L_Text string

datatype range_error = Unsupported_Granularity string | Unsupported_Date_Range

section \<open>Identifiers\<close>

definition quote_identifier :: "string \<Rightarrow> string" where
  "quote_identifier v = CHR ''['' # py_replace '']'' '']]'' v @ '']''"

definition quote_compound :: "string \<Rightarrow> string" where
  "quote_compound v = py_join ''.'' (map quote_identifier (filter (\<lambda>p. p \<noteq> []) (py_split (CHR ''.'') v)))"

section \<open>Literals\<close>

text \<open>What \<open>float(text)\<close> accepts: digits with single underscores between them, a point, an exponent.\<close>

fun digits_rest :: "string \<Rightarrow> string" where
  "digits_rest [] = []"
| "digits_rest (c # s) =
     (if is_digit c then digits_rest s
      else if c = CHR ''_'' \<and> s \<noteq> [] \<and> is_digit (hd s) then digits_rest s
      else c # s)"

definition starts_digit :: "string \<Rightarrow> bool" where
  "starts_digit s = (s \<noteq> [] \<and> is_digit (hd s))"

definition fraction_rest :: "string \<Rightarrow> string" where
  "fraction_rest s = (if prefix ''.'' s
     then (if starts_digit (tl s) then digits_rest (tl (tl s)) else tl s) else s)"

definition mantissa_rest :: "string \<Rightarrow> string option" where
  "mantissa_rest s =
     (if starts_digit s then Some (fraction_rest (digits_rest (tl s)))
      else if prefix ''.'' s \<and> starts_digit (tl s) then Some (digits_rest (tl (tl s)))
      else None)"

definition drop_sign :: "string \<Rightarrow> string" where
  "drop_sign s = (if prefix ''+'' s \<or> prefix ''-'' s then tl s else s)"

definition exponent_rest :: "string \<Rightarrow> string option" where
  "exponent_rest s =
     (if prefix ''e'' s
      then (let t = drop_sign (tl s) in if starts_digit t then Some (digits_rest (tl t)) else None)
      else Some s)"

definition is_numeric :: "string \<Rightarrow> bool" where
  "is_numeric v =
     (let s = drop_sign (py_lower (py_strip v))
      in s \<in> {''inf'', ''infinity'', ''nan''}
         \<or> Option.bind (mantissa_rest s) exponent_rest = Some [])"

definition numeric_types :: "string list" where
  "numeric_types = [''integer'', ''int'', ''decimal'', ''numeric'', ''float'', ''double'', ''real'']"

definition boolean_types :: "string list" where
  "boolean_types = [''bool'', ''boolean'']"

definition date_types :: "string list" where
  "date_types = [''date'', ''datetime'', ''timestamp'', ''time'']"

definition dialect_key :: "string \<Rightarrow> string" where
  "dialect_key d = py_lower (if d = [] then ''tsql'' else d)"

definition is_tsql :: "string \<Rightarrow> bool" where
  "is_tsql d = (dialect_key d \<in> {''tsql'', ''sqlserver'', ''mssql''})"

definition is_postgres :: "string \<Rightarrow> bool" where
  "is_postgres d = (dialect_key d \<in> {''duckdb'', ''postgres'', ''postgresql''})"

definition boolean_literal :: "string \<Rightarrow> bool \<Rightarrow> 'c expr" where
  "boolean_literal d b = (if is_tsql d then E_Int (if b then 1 else 0) else E_Boolean b)"

definition normalized_type :: "string option \<Rightarrow> string" where
  "normalized_type t = py_lower (py_strip (case t of None \<Rightarrow> [] | Some s \<Rightarrow> s))"

definition format_literal :: "literal_value \<Rightarrow> string option \<Rightarrow> string \<Rightarrow> 'c expr" where
  "format_literal v data_type d =
     (case v of
        L_None \<Rightarrow> E_Null
      | L_Bool b \<Rightarrow> boolean_literal d b
      | L_Int n \<Rightarrow> E_Int n
      | L_Float f \<Rightarrow> E_Number f
      | L_Temporal stamp \<Rightarrow> E_String stamp
      | L_Text s \<Rightarrow>
          (let ty = normalized_type data_type; l = py_lower s
           in if ty \<in> set boolean_types \<and> l \<in> {''true'', ''1'', ''yes''} then boolean_literal d True
              else if ty \<in> set boolean_types \<and> l \<in> {''false'', ''0'', ''no''} then boolean_literal d False
              else if ty \<in> set numeric_types \<and> is_numeric s then E_Number s
              else E_String s))"

section \<open>Units and shifts\<close>

definition supported_units :: "string list" where
  "supported_units = [''week'', ''month'', ''quarter'', ''year'', ''day'', ''hour'', ''minute'', ''second'']"

definition truncated :: "string \<Rightarrow> 'c expr \<Rightarrow> string \<Rightarrow> 'c expr" where
  "truncated unit col d =
     (if is_postgres d then E_Date_Trunc col unit
      else E_Date_Add (E_Int 0) (E_Date_Diff col (E_Int 0) unit) unit)"

definition date_trunc :: "string \<Rightarrow> 'c expr \<Rightarrow> string \<Rightarrow> (range_error, 'c expr) result" where
  "date_trunc granularity col d =
     (let unit = py_lower (py_strip granularity)
      in if unit \<notin> set supported_units then Inl (Unsupported_Granularity granularity)
         else Inr (truncated unit col d))"

definition upper_unit :: "string \<Rightarrow> string" where
  "upper_unit u = map (\<lambda>c. if 97 \<le> (of_char c :: nat) \<and> (of_char c :: nat) \<le> 122
     then char_of ((of_char c :: nat) - 32) else c) u"

definition interval_literal :: "int \<Rightarrow> string \<Rightarrow> 'c expr" where
  "interval_literal amount unit = E_Interval
     (''INTERVAL '' @ [CHR 0x27] @ py_str_int amount @ '' '' @ upper_unit unit
       @ (if amount \<noteq> 1 then ''S'' else []) @ [CHR 0x27])"

definition shift_datetime :: "'c expr \<Rightarrow> int \<Rightarrow> string \<Rightarrow> string \<Rightarrow> 'c expr" where
  "shift_datetime base amount unit d =
     (if is_postgres d
      then (let i = interval_literal \<bar>amount\<bar> unit in if amount < 0 then E_Sub base i else E_Add base i)
      else E_Date_Add base (E_Int amount) unit)"

section \<open>Relative ranges\<close>

text \<open>The words of the lowered text between blanks, underscores and hyphens.\<close>

definition range_char :: "char \<Rightarrow> bool" where
  "range_char c = (\<not> py_isspace c \<and> c \<noteq> CHR ''_'' \<and> c \<noteq> CHR ''-'')"

definition range_words :: "string \<Rightarrow> string list" where
  "range_words s = char_runs range_char [] (py_lower (py_strip s))"

definition current_date :: "string \<Rightarrow> 'c expr" where
  "current_date d = (if is_tsql d then E_Cast_Date E_Get_Date else E_Current_Date)"

definition current_ts :: "string \<Rightarrow> 'c expr" where
  "current_ts d = (if is_tsql d then E_Get_Date else E_Current_Timestamp)"

definition days_from :: "'c expr \<Rightarrow> int \<Rightarrow> 'c expr" where
  "days_from e n = E_Date_Add e (E_Int n) ''day''"

text \<open>The unit of \<open>(day|week|month|quarter|year)s?\<close>.\<close>

definition unit_word :: "string \<Rightarrow> string option" where
  "unit_word w = find (\<lambda>u. w = u \<or> w = u @ ''s'') [''day'', ''week'', ''month'', ''quarter'', ''year'']"

definition amount_range :: "string \<Rightarrow> string \<Rightarrow> int \<Rightarrow> string \<Rightarrow> 'c expr \<times> 'c expr" where
  "amount_range d direction amount unit =
     (if unit = ''day''
      then (if direction = ''last''
            then (days_from (current_date d) (- max (amount - 1) 0), days_from (current_date d) 1)
            else (current_date d, days_from (current_date d) amount))
      else (if direction = ''last''
            then (E_Date_Add (current_ts d) (E_Int (- amount)) unit, current_ts d)
            else (current_ts d, E_Date_Add (current_ts d) (E_Int amount) unit)))"

definition period_range :: "string \<Rightarrow> string \<Rightarrow> string \<Rightarrow> 'c expr \<times> 'c expr" where
  "period_range d direction unit =
     (if is_postgres d
      then (let start = truncated unit (current_date d) d; shifted = (\<lambda>k. shift_datetime start k unit d)
            in if direction = ''this'' then (start, shifted 1)
               else if direction = ''last'' then (shifted (- 1), start)
               else (shifted 1, shifted 2))
      else (let base = E_Date_Diff (current_ts d) (E_Int 0) unit;
                at_base = (\<lambda>e. E_Date_Add (E_Int 0) e unit)
            in if direction = ''this'' then (at_base base, at_base (E_Add base (E_Int 1)))
               else if direction = ''last'' then (at_base (E_Sub base (E_Int 1)), at_base base)
               else (at_base (E_Add base (E_Int 1)), at_base (E_Add base (E_Int 2)))))"

definition parse_relative_date_range :: "string \<Rightarrow> string \<Rightarrow> ('c expr \<times> 'c expr) option" where
  "parse_relative_date_range range_str d =
     (let ws = range_words range_str; today = current_date d; tomorrow = days_from today 1
      in if ws = [''today''] then Some (today, tomorrow)
         else if ws = [''yesterday''] then Some (days_from today (- 1), today)
         else if ws = [''tomorrow''] then Some (days_from today 1, days_from today 2)
         else if ws = [''last'', ''7'', ''days''] then Some (days_from today (- 6), tomorrow)
         else if ws = [''last'', ''30'', ''days''] then Some (days_from today (- 29), tomorrow)
         else if ws = [''month'', ''to'', ''date''] then Some (truncated ''month'' today d, tomorrow)
         else if ws = [''year'', ''to'', ''date''] then Some (truncated ''year'' today d, tomorrow)
         else (case ws of
             [direction, amount, w] \<Rightarrow>
               if direction \<in> {''last'', ''next''}
               then (case (py_int amount, unit_word w) of
                   (Some n, Some u) \<Rightarrow> Some (amount_range d direction n u)
                 | _ \<Rightarrow> None)
               else None
           | [direction, w] \<Rightarrow>
               if direction \<in> {''this'', ''last'', ''next''} \<and> w \<in> {''week'', ''month'', ''quarter'', ''year''}
               then Some (period_range d direction w) else None
           | _ \<Rightarrow> None))"

section \<open>Conditions\<close>

definition iso_date_only :: "string \<Rightarrow> bool" where
  "iso_date_only s =
     (case py_split (CHR ''-'') s of
        [y, m, dd] \<Rightarrow> length y = 4 \<and> length m = 2 \<and> length dd = 2
          \<and> list_all is_digit (y @ m @ dd)
      | _ \<Rightarrow> False)"

definition cast_date_literal_if_needed :: "'c expr \<Rightarrow> literal_value \<Rightarrow> string option \<Rightarrow> 'c expr" where
  "cast_date_literal_if_needed lit raw data_type =
     (case raw of
        L_Text s \<Rightarrow> if normalized_type data_type \<in> set date_types \<and> iso_date_only (py_strip s)
          then E_Cast_Date lit else lit
      | _ \<Rightarrow> lit)"

text \<open>\<open>^(before|after|on)\s*:\s*(.+)$\<close>; a point does not match a newline.\<close>

definition match_date_operator :: "string \<Rightarrow> (string \<times> string) option" where
  "match_date_operator s =
     (case find (\<lambda>w. py_lower (take (length w) s) = w) [''before'', ''after'', ''on''] of
        None \<Rightarrow> None
      | Some w \<Rightarrow>
          (let r = dropWhile py_isspace (drop (length w) s)
           in if \<not> prefix '':'' r then None
              else let v = dropWhile py_isspace (tl r)
                in if v = [] \<or> char_of (10 :: nat) \<in> set v then None else Some (w, v)))"

definition single_date_operator_condition ::
  "'c expr \<Rightarrow> string \<Rightarrow> string option \<Rightarrow> string \<Rightarrow> 'c expr option" where
  "single_date_operator_condition col date_range data_type d =
     (case match_date_operator (py_strip date_range) of
        None \<Rightarrow> None
      | Some (operator, v) \<Rightarrow>
          let value = py_strip v; lit = format_literal (L_Text value) data_type d
          in if value = [] then None
             else if operator = ''before'' then Some (E_LT col lit)
             else if operator = ''after'' then Some (E_GT col lit)
             else Some (E_And (E_GTE col lit)
               (E_LT col (days_from (cast_date_literal_if_needed lit (L_Text value) data_type) 1))))"

datatype date_range = DR_Values "literal_value list" | DR_Text string | DR_Other

definition both_iso_dates :: "literal_value \<Rightarrow> literal_value \<Rightarrow> bool" where
  "both_iso_dates a b = (case (a, b) of
     (L_Text s, L_Text t) \<Rightarrow> iso_date_only (py_strip s) \<and> iso_date_only (py_strip t)
   | _ \<Rightarrow> False)"

definition build_date_range_condition ::
  "'c expr \<Rightarrow> date_range \<Rightarrow> string option \<Rightarrow> string \<Rightarrow> (range_error, 'c expr) result" where
  "build_date_range_condition col dr data_type d =
     (case dr of
        DR_Values [a, b] \<Rightarrow>
          (let start = format_literal a data_type d; end_lit = format_literal b data_type d
           in if normalized_type data_type \<in> set date_types \<and> both_iso_dates a b
              then Inr (E_And (E_GTE col start)
                (E_LT col (days_from (cast_date_literal_if_needed end_lit b data_type) 1)))
              else Inr (E_And (E_GTE col start) (E_LTE col end_lit)))
      | DR_Text s \<Rightarrow>
          (case single_date_operator_condition col s data_type d of
             Some c \<Rightarrow> Inr c
           | None \<Rightarrow>
               (case parse_relative_date_range s d of
                  Some (start, end_excl) \<Rightarrow> Inr (E_And (E_GTE col start) (E_LT col end_excl))
                | None \<Rightarrow> Inr (E_EQ col (format_literal (L_Text s) data_type d))))
      | _ \<Rightarrow> Inl Unsupported_Date_Range)"

section \<open>What relative ranges mean\<close>

text \<open>The day that a date expression denotes when today is \<open>t\<close>.\<close>

fun eval_day :: "int \<Rightarrow> 'c expr \<Rightarrow> int option" where
  "eval_day t E_Current_Date = Some t"
| "eval_day t (E_Cast_Date E_Get_Date) = Some t"
| "eval_day t (E_Date_Add e (E_Int k) u) =
     (if u = ''day'' then map_option (\<lambda>x. x + k) (eval_day t e) else None)"
| "eval_day t _ = None"

lemma eval_current_date [simp]: "eval_day t (current_date d) = Some t"
  by (simp add: current_date_def)

lemma eval_days_from [simp]: "eval_day t (days_from e k) = map_option (\<lambda>x. x + k) (eval_day t e)"
  by (simp add: days_from_def)

lemma nat_digits_digits: "list_all is_digit (nat_digits n)" "nat_digits n \<noteq> []"
  using nat_digits_back [of n] by blast+

lemma digit_range_char: "is_digit c \<Longrightarrow> range_char c"
  by (auto simp: is_digit_def range_char_def py_isspace_def)

lemma lower_digits: "list_all is_digit s \<Longrightarrow> py_lower s = s"
  by (induction s) (auto simp: py_lower_def py_lower_char_def is_digit_def Let_def)

lemma last_days_words:
  "range_words (''last '' @ py_str_int (int n) @ '' days'') = [''last'', py_str_int (int n), ''days'']"
proof -
  let ?n = "nat_digits n"
  have n: "py_str_int (int n) = ?n" by (simp add: py_str_int_def)
  have strip: "py_strip (''last '' @ ?n @ '' days'') = ''last '' @ ?n @ '' days''"
    by (rule py_strip_keep) (simp_all add: py_isspace_def)
  have lower: "py_lower (''last '' @ ?n @ '' days'') = py_join '' '' [''last'', ?n, ''days'']"
    using lower_digits [OF nat_digits_digits(1), of n] by (simp add: py_lower_def py_lower_char_def Let_def)
  have digits: "list_all range_char ?n"
    using nat_digits_digits(1) [of n] by (auto simp: list_all_iff digit_range_char)
  have "char_runs range_char [] (py_join '' '' [''last'', ?n, ''days'']) = [''last'', ?n, ''days'']"
    by (rule char_runs_join) (simp_all add: range_char_def py_isspace_def digits nat_digits_digits(2))
  then show ?thesis unfolding range_words_def n strip lower .
qed

lemma last_days_range:
  "\<exists>a b. parse_relative_date_range (''last '' @ py_str_int (int n) @ '' days'') d = Some (a, b :: 'c expr)
     \<and> eval_day t a = Some (t - max (int n - 1) 0) \<and> eval_day t b = Some (t + 1)"
proof -
  have num: "py_int (py_str_int (int n)) = Some (int n)" by (rule py_int_str) simp
  have seven: "py_str_int (int n) = ''7'' \<Longrightarrow> int n = 7"
    using num by (simp add: py_int_def is_digit_def)
  have thirty: "py_str_int (int n) = ''30'' \<Longrightarrow> int n = 30"
    using num by (simp add: py_int_def is_digit_def)
  have u: "unit_word ''days'' = Some ''day''" by (simp add: unit_word_def)
  show ?thesis
    unfolding parse_relative_date_range_def Let_def last_days_words
    using seven thirty by (auto simp: num u amount_range_def)
qed

lemma period_words:
  "list_all (\<lambda>u. list_all (\<lambda>w. range_words (w @ '' '' @ u) = [w, u]) [''last'', ''this'', ''next''])
     [''week'', ''month'', ''quarter'', ''year'']"
  by code_simp

lemma parse_period:
  assumes "u \<in> {''week'', ''month'', ''quarter'', ''year''}" "w \<in> {''last'', ''this'', ''next''}"
  shows "parse_relative_date_range (w @ '' '' @ u) d = Some (period_range d w u)"
proof -
  have "range_words (w @ '' '' @ u) = [w, u]"
    using period_words assms by auto
  then show ?thesis
    unfolding parse_relative_date_range_def Let_def using assms by auto
qed

lemma periods_meet:
  "snd (period_range d ''last'' u) = fst (period_range d ''this'' u :: 'c expr \<times> 'c expr)"
  "snd (period_range d ''this'' u) = fst (period_range d ''next'' u :: 'c expr \<times> 'c expr)"
  by (simp_all add: period_range_def Let_def)

definition tiles :: "string \<Rightarrow> string \<Rightarrow> bool" where
  "tiles d u = (case (parse_relative_date_range (''last '' @ u) d, parse_relative_date_range (''this '' @ u) d,
       parse_relative_date_range (''next '' @ u) d) of
     (Some (a, b :: unit expr), Some (b', c), Some (c', e)) \<Rightarrow> b = b' \<and> c = c'
   | _ \<Rightarrow> False)"

lemma tiles_units:
  assumes "u \<in> {''week'', ''month'', ''quarter'', ''year''}"
  shows "tiles d u"
proof -
  have p: "parse_relative_date_range (w @ '' '' @ u) d = Some (period_range d w u :: unit expr \<times> unit expr)"
    if "w \<in> {''last'', ''this'', ''next''}" for w
    by (rule parse_period [OF assms that])
  obtain a b where l: "period_range d ''last'' u = (a, b :: unit expr)" by fastforce
  obtain b' c where t: "period_range d ''this'' u = (b', c :: unit expr)" by fastforce
  obtain c' e where n: "period_range d ''next'' u = (c', e :: unit expr)" by fastforce
  have "b = b'" "c = c'"
    using periods_meet(1) [where 'c = unit, of d u] periods_meet(2) [where 'c = unit, of d u] l t n by simp_all
  then show ?thesis
    using p [of "''last''"] p [of "''this''"] p [of "''next''"] l t n by (simp add: tiles_def)
qed

text \<open>C22: In every dialect the last, this and the next week, month, quarter and year follow one another
  without gap or overlap: each range ends with the very expression that the next one starts
  with. And the range of the last n days, for every n, starts n - 1 days before today (today for
  n = 0) and ends, exclusively, with tomorrow.\<close>

theorem relative_ranges_are_exact:
  "list_all (tiles d) [''week'', ''month'', ''quarter'', ''year'']
   \<and> (\<exists>a b. parse_relative_date_range (''last '' @ py_str_int (int n) @ '' days'') d = Some (a, b :: 'c expr)
        \<and> eval_day t a = Some (t - max (int n - 1) 0) \<and> eval_day t b = Some (t + 1))"
  using last_days_range [of n d t] by (simp add: tiles_units)

end
