(* ===== verification/Query_Translator.thy ===== *)
theory Query_Translator
  imports Semantic_Resolver Join_Planner Date_Ranges
begin

text \<open>
  Translation of semantic queries to SQL (\<open>semantic/query/translator.py\<close> with
  \<open>semantic/query/query_model.py\<close>), over the resolver, the join planner and the date ranges. The
  tree of the SELECT is a record; its scalar terms are columns, casts and aggregates that the
  translator builds, and trees that sqlglot parsed from an expression of the model. Parsing and the
  columns of a parsed tree are parameters, and so is the order in which Python iterates over a
  set of names. Quoting of identifiers is left out.
\<close>

section \<open>Queries\<close>

datatype order_entry = Entry_Dict "(string \<times> string option) list" | Entry_Pair string "string option" | Entry_Other

datatype order_input =
    Order_None
  | Order_Dict "(string \<times> string option) list"
  | Order_List "order_entry list"
  | Order_Other

record time_dimension =
  ti_dimension :: string
  ti_granularity :: "string option"
  ti_range :: "date_range option"

record filter_item =
  fi_member :: "string option"
  fi_dimension :: "string option"
  fi_measure :: "string option"
  fi_time_dimension :: "string option"
  fi_operator :: string
  fi_values :: "string list option"

record semantic_query =
  qy_measures :: "string list"
  qy_dimensions :: "string list"
  qy_time_dimensions :: "time_dimension list"
  qy_filters :: "filter_item list"
  qy_segments :: "string list"
  qy_order :: order_input
  qy_limit :: "int option"
  qy_offset :: "int option"

text \<open>The validators of the query: a filter names a member, a granularity is stripped and lowered.\<close>

definition filter_names_member :: "filter_item \<Rightarrow> bool" where
  "filter_names_member f = (given (fi_member f) \<or> given (fi_dimension f) \<or> given (fi_measure f)
     \<or> given (fi_time_dimension f))"

definition normalize_granularity :: "string option \<Rightarrow> string option" where
  "normalize_granularity g = map_option (\<lambda>s. py_lower (py_strip s)) g"

section \<open>SQL\<close>

text \<open>\<open>T_Column q n\<close> is the column \<open>n\<close> with its table qualifier, \<open>T_Tree\<close> any other parsed expression.\<close>

datatype 'x sterm =
    T_Column "string option" string
  | T_Tree 'x
  | T_Cast string "'x sterm"
  | T_Aggregate string bool "'x sterm"

type_synonym 'x sexpr = "'x sterm expr"

datatype 'x qcond =
    C_Range "'x sexpr"
  | C_Term "'x sterm"
  | C_EQ "'x sterm" "'x sexpr"
  | C_NEQ "'x sterm" "'x sexpr"
  | C_GT "'x sterm" "'x sexpr"
  | C_GTE "'x sterm" "'x sexpr"
  | C_LT "'x sterm" "'x sexpr"
  | C_LTE "'x sterm" "'x sexpr"
  | C_In "'x sterm" "'x sexpr list"
  | C_Like "'x sterm" "'x sexpr"
  | C_Is_Null "'x sterm"
  | C_Not "'x qcond"

record table_source =
  fs_table :: string
  fs_schema :: "string option"
  fs_catalog :: "string option"
  fs_alias :: string

record 'x join_clause =
  jc_source :: table_source
  jc_on :: "'x sterm"
  jc_type :: string

datatype 'x order_key = O_Alias string | O_Expr "'x sexpr"

record 'x select =
  sl_items :: "('x sexpr \<times> string) list"
  sl_from :: table_source
  sl_joins :: "'x join_clause list"
  sl_where :: "'x qcond list"
  sl_group :: "'x sexpr list"
  sl_having :: "'x qcond list"
  sl_order :: "('x order_key \<times> bool) list"
  sl_limit :: "int option"
  sl_offset :: "int option"

text \<open>
  \<open>tq_parse d s\<close> is \<open>parse_one(s, read=d)\<close> with \<open>None\<close> for a \<open>ParseError\<close>; \<open>tq_rename f x\<close> is
  \<open>transform\<close> with the function that requalifies the columns whose qualifier \<open>f\<close> maps;
  \<open>tq_columns\<close> are the columns in a tree; \<open>tq_pick\<close> is \<open>next(iter(s))\<close> of a non-empty set.
\<close>

record 'x tq_ops =
  tq_parse :: "string \<Rightarrow> string \<Rightarrow> 'x sterm option"
  tq_rename :: "(string \<Rightarrow> string option) \<Rightarrow> 'x \<Rightarrow> 'x"
  tq_columns :: "'x \<Rightarrow> (string option \<times> string) list"
  tq_pick :: "string list \<Rightarrow> string"

datatype query_error =
    Resolve_Failed resolve_error
  | Join_Failed join_error
  | Range_Failed range_error
  | Expression_Unparsable string
  | Filter_Without_Member
  | Unsupported_Operator string
  | Missing_Filter_Value
  | No_Tables
  | Empty_Dataset_Set
  | No_Selects
  | No_Aliases_Yet
  | Alias_Missing string
  | Unknown_Dataset string
  | Unsupported_Order
  | Order_Member_Unknown string

definition lift_query :: "('e \<Rightarrow> query_error) \<Rightarrow> ('e, 'a) result \<Rightarrow> (query_error, 'a) result" where
  "lift_query f r = (case r of Inl e \<Rightarrow> Inl (f e) | Inr a \<Rightarrow> Inr a)"

lemma lift_query_simps [simp]: "lift_query f (Inl e) = Inl (f e)" "lift_query f (Inr a) = Inr a"
  "lift_query f r = Inr a \<longleftrightarrow> r = Inr a"
  by (simp_all add: lift_query_def split: sum.split)

type_synonym alias_map = "(string, string) dict"

section \<open>Expressions\<close>

definition ensure_expression :: "'x tq_ops \<Rightarrow> string \<Rightarrow> string \<Rightarrow> (query_error, 'x sterm) result" where
  "ensure_expression tq d s =
     (case tq_parse tq d s of
        Some x \<Rightarrow> Inr x
      | None \<Rightarrow> (case tq_parse tq ''tsql'' s of Some x \<Rightarrow> Inr x | None \<Rightarrow> Inl (Expression_Unparsable s)))"

fun replace_term :: "'x tq_ops \<Rightarrow> alias_map \<Rightarrow> 'x sterm \<Rightarrow> 'x sterm" where
  "replace_term tq am (T_Column q n) =
     (case Option.bind q (dict_get am) of Some a \<Rightarrow> T_Column (Some a) n | None \<Rightarrow> T_Column q n)"
| "replace_term tq am (T_Tree x) = T_Tree (tq_rename tq (dict_get am) x)"
| "replace_term tq am (T_Cast ty t) = T_Cast ty (replace_term tq am t)"
| "replace_term tq am (T_Aggregate f u t) = T_Aggregate f u (replace_term tq am t)"

definition replace_expr :: "'x tq_ops \<Rightarrow> alias_map \<Rightarrow> 'x sexpr \<Rightarrow> 'x sexpr" where
  "replace_expr tq am e = map_expr (replace_term tq am) e"

fun replace_cond :: "'x tq_ops \<Rightarrow> alias_map \<Rightarrow> 'x qcond \<Rightarrow> 'x qcond" where
  "replace_cond tq am (C_Range e) = C_Range (replace_expr tq am e)"
| "replace_cond tq am (C_Term t) = C_Term (replace_term tq am t)"
| "replace_cond tq am (C_EQ t e) = C_EQ (replace_term tq am t) (replace_expr tq am e)"
| "replace_cond tq am (C_NEQ t e) = C_NEQ (replace_term tq am t) (replace_expr tq am e)"
| "replace_cond tq am (C_GT t e) = C_GT (replace_term tq am t) (replace_expr tq am e)"
| "replace_cond tq am (C_GTE t e) = C_GTE (replace_term tq am t) (replace_expr tq am e)"
| "replace_cond tq am (C_LT t e) = C_LT (replace_term tq am t) (replace_expr tq am e)"
| "replace_cond tq am (C_LTE t e) = C_LTE (replace_term tq am t) (replace_expr tq am e)"
| "replace_cond tq am (C_In t es) = C_In (replace_term tq am t) (map (replace_expr tq am) es)"
| "replace_cond tq am (C_Like t e) = C_Like (replace_term tq am t) (replace_expr tq am e)"
| "replace_cond tq am (C_Is_Null t) = C_Is_Null (replace_term tq am t)"
| "replace_cond tq am (C_Not c) = C_Not (replace_cond tq am c)"

text \<open>\<open>_replace_table_refs\<close> of a text\<close>

definition replace_table_refs ::
  "'x tq_ops \<Rightarrow> string \<Rightarrow> alias_map \<Rightarrow> string \<Rightarrow> (query_error, 'x sterm) result" where
  "replace_table_refs tq d am s = bindR (ensure_expression tq d s) (\<lambda>x. Inr (replace_term tq am x))"

definition coerce_column_type :: "string option \<Rightarrow> 'x sterm \<Rightarrow> 'x sterm" where
  "coerce_column_type data_type t =
     (let ty = normalized_type data_type
      in if ty \<notin> set date_types then t
         else T_Cast (if ty \<in> {''datetime'', ''timestamp'', ''time''} then ''TIMESTAMP'' else ''DATE'') t)"

text \<open>An empty alias map stands for the time before aliases exist, when the dataset's key is the qualifier.\<close>

definition column_alias ::
  "alias_map \<Rightarrow> string \<Rightarrow> bool \<Rightarrow> (query_error, string) result" where
  "column_alias am dataset allow_placeholder =
     (if am = [] then (if allow_placeholder then Inr dataset else Inl No_Aliases_Yet)
      else (case dict_get am dataset of Some a \<Rightarrow> Inr a | None \<Rightarrow> Inl (Alias_Missing dataset)))"

definition base_term ::
  "'x tq_ops \<Rightarrow> alias_map \<Rightarrow> string \<Rightarrow> string \<Rightarrow> 'x sterm \<Rightarrow> 'x sterm" where
  "base_term tq am table_alias column x =
     (case x of
        T_Column q n \<Rightarrow>
          if given q then replace_term tq am x
          else T_Column (Some table_alias)
            (let source = py_strip (if n = [] then column else n) in if source = [] then column else source)
      | _ \<Rightarrow> replace_term tq am x)"

definition column_expression ::
  "'x tq_ops \<Rightarrow> string \<Rightarrow> alias_map \<Rightarrow> string \<Rightarrow> string \<Rightarrow> string option \<Rightarrow> bool \<Rightarrow> string option
   \<Rightarrow> (query_error, 'x sterm) result" where
  "column_expression tq d am dataset column expression allow_placeholder data_type =
     bindR (column_alias am dataset allow_placeholder) (\<lambda>a.
     bindR (if given expression
         then bindR (ensure_expression tq d (the expression)) (\<lambda>x. Inr (base_term tq am a column x))
         else Inr (T_Column (Some a) column)) (\<lambda>t.
       Inr (coerce_column_type data_type t)))"

definition upper_text :: "string \<Rightarrow> string" where
  "upper_text s = upper_unit s"

definition measure_aggregation :: "measure_ref \<Rightarrow> string" where
  "measure_aggregation m =
     (let a = py_lower (py_strip (case mr_aggregation m of None \<Rightarrow> [] | Some s \<Rightarrow> s))
      in if a = []
         then (if py_lower (mr_data_type m) \<in> {''integer'', ''decimal'', ''float'', ''number''} then ''sum'' else ''count'')
         else a)"

definition aggregate_term :: "string \<Rightarrow> 'x sterm \<Rightarrow> 'x sterm" where
  "aggregate_term a t =
     (if a \<in> {''count_distinct'', ''countdistinct''} then T_Aggregate ''COUNT'' True t
      else T_Aggregate (upper_text a) False t)"

definition measure_expression ::
  "'x tq_ops \<Rightarrow> string \<Rightarrow> alias_map \<Rightarrow> measure_ref \<Rightarrow> bool \<Rightarrow> (query_error, 'x sterm) result" where
  "measure_expression tq d am m allow_placeholder =
     bindR (column_expression tq d am (mr_dataset m) (mr_column m) (Some (mr_expression m)) allow_placeholder None) (\<lambda>t.
       Inr (aggregate_term (measure_aggregation m) t))"

section \<open>Filters\<close>

datatype target_kind = Dimension_Target | Measure_Target | Metric_Target

record 'x filter_target =
  ft_kind :: target_kind
  ft_condition :: "'x qcond"
  ft_datasets :: "string list"

definition first_value :: "string list \<Rightarrow> (query_error, string) result" where
  "first_value vs = (case vs of [] \<Rightarrow> Inl Missing_Filter_Value | v # _ \<Rightarrow> Inr v)"

definition filter_range :: "string list \<Rightarrow> date_range" where
  "filter_range vs = (case vs of [v] \<Rightarrow> DR_Text v | _ \<Rightarrow> DR_Values (map L_Text vs))"

definition range_condition ::
  "string \<Rightarrow> 'x sterm \<Rightarrow> date_range \<Rightarrow> string option \<Rightarrow> (query_error, 'x qcond) result" where
  "range_condition d t dr data_type =
     bindR (lift_query Range_Failed (build_date_range_condition (E_Column t) dr data_type d)) (\<lambda>e. Inr (C_Range e))"

definition build_filter_expression ::
  "string \<Rightarrow> 'x sterm \<Rightarrow> string \<Rightarrow> string list \<Rightarrow> string option \<Rightarrow> (query_error, 'x qcond) result" where
  "build_filter_expression d t operator vs data_type =
     (let op = py_lower (py_strip operator);
          lit = (\<lambda>v. format_literal (L_Text v) data_type d);
          text_lit = (\<lambda>v. format_literal (L_Text v) None d);
          lits = map lit vs;
          compare = (\<lambda>f. bindR (first_value vs) (\<lambda>v. Inr (f t (lit v))));
          like = (\<lambda>pre post. bindR (first_value vs) (\<lambda>v. Inr (C_Like t (text_lit (pre @ v @ post)))))
      in if op \<in> {''equals'', ''equal'', ''eq''}
         then Inr (case lits of [l] \<Rightarrow> C_EQ t l | _ \<Rightarrow> C_In t lits)
         else if op \<in> {''notequals'', ''not_equals'', ''ne''}
         then Inr (case lits of [l] \<Rightarrow> C_NEQ t l | _ \<Rightarrow> C_Not (C_In t lits))
         else if op = ''contains'' then like ''%'' ''%''
         else if op = ''notcontains'' then bindR (like ''%'' ''%'') (\<lambda>c. Inr (C_Not c))
         else if op = ''startswith'' then like [] ''%''
         else if op = ''endswith'' then like ''%'' []
         else if op \<in> {''gt'', ''greater''} then compare C_GT
         else if op \<in> {''gte'', ''gteq'', ''greater_or_equal''} then compare C_GTE
         else if op \<in> {''lt'', ''less''} then compare C_LT
         else if op \<in> {''lte'', ''lteq'', ''less_or_equal''} then compare C_LTE
         else if op = ''beforedate'' then compare C_LT
         else if op = ''afterdate'' then compare C_GT
         else if op = ''indaterange'' then range_condition d t (filter_range vs) data_type
         else if op = ''notindaterange''
         then bindR (range_condition d t (filter_range vs) data_type) (\<lambda>c. Inr (C_Not c))
         else if op = ''set'' then Inr (C_Not (C_Is_Null t))
         else if op = ''notset'' then Inr (C_Is_Null t)
         else if op = ''in'' then Inr (C_In t lits)
         else if op = ''notin'' then Inr (C_Not (C_In t lits))
         else Inl (Unsupported_Operator operator))"

definition dimension_target ::
  "'x tq_ops \<Rightarrow> string \<Rightarrow> dimension_ref \<Rightarrow> string \<Rightarrow> string list \<Rightarrow> (query_error, 'x filter_target) result" where
  "dimension_target tq d r op vs =
     bindR (column_expression tq d [] (dr_dataset r) (dr_column r) (Some (dr_expression r)) True None) (\<lambda>t.
     bindR (build_filter_expression d t op vs (Some (dr_data_type r))) (\<lambda>c.
       Inr \<lparr>ft_kind = Dimension_Target, ft_condition = c, ft_datasets = [dr_dataset r]\<rparr>))"

definition metric_target ::
  "'x tq_ops \<Rightarrow> string \<Rightarrow> resolver \<Rightarrow> metric_ref \<Rightarrow> string \<Rightarrow> string list \<Rightarrow> (query_error, 'x filter_target) result" where
  "metric_target tq d rv m op vs =
     bindR (ensure_expression tq d (mt_expression m)) (\<lambda>t.
     bindR (build_filter_expression d t op vs None) (\<lambda>c.
       Inr \<lparr>ft_kind = Metric_Target, ft_condition = c,
            ft_datasets = extract_datasets_from_expression rv (mt_expression m)\<rparr>))"

definition measure_target ::
  "'x tq_ops \<Rightarrow> string \<Rightarrow> measure_ref \<Rightarrow> string \<Rightarrow> string list \<Rightarrow> (query_error, 'x filter_target) result" where
  "measure_target tq d m op vs =
     bindR (measure_expression tq d [] m True) (\<lambda>t.
     bindR (build_filter_expression d t op vs (Some (mr_data_type m))) (\<lambda>c.
       Inr \<lparr>ft_kind = Measure_Target, ft_condition = c, ft_datasets = [mr_dataset m]\<rparr>))"

definition measure_or_metric_target ::
  "'x tq_ops \<Rightarrow> string \<Rightarrow> resolver \<Rightarrow> string \<Rightarrow> string \<Rightarrow> string list \<Rightarrow> (query_error, 'x filter_target) result" where
  "measure_or_metric_target tq d rv member op vs =
     bindR (lift_query Resolve_Failed (resolve_measure_or_metric rv member)) (\<lambda>r.
       case r of Inl m \<Rightarrow> measure_target tq d m op vs | Inr m \<Rightarrow> metric_target tq d rv m op vs)"

definition first_given :: "string option list \<Rightarrow> string option" where
  "first_given vs = (case filter given vs of [] \<Rightarrow> None | v # _ \<Rightarrow> v)"

definition resolve_filter_target ::
  "'x tq_ops \<Rightarrow> string \<Rightarrow> resolver \<Rightarrow> filter_item \<Rightarrow> (query_error, 'x filter_target) result" where
  "resolve_filter_target tq d rv f =
     (case first_given [fi_member f, fi_dimension f, fi_measure f, fi_time_dimension f] of
        None \<Rightarrow> Inl Filter_Without_Member
      | Some member \<Rightarrow>
          (let op = py_lower (py_strip (fi_operator f));
               vs = (case fi_values f of None \<Rightarrow> [] | Some xs \<Rightarrow> xs)
           in if given (fi_dimension f) \<or> given (fi_time_dimension f)
              then bindR (lift_query Resolve_Failed (resolve_dimension rv member)) (\<lambda>r. dimension_target tq d r op vs)
              else if given (fi_measure f) then measure_or_metric_target tq d rv member op vs
              else if dict_has (sem_metrics (rv_model rv)) member
              then bindR (lift_query Resolve_Failed (resolve_metric rv member)) (\<lambda>m. metric_target tq d rv m op vs)
              else (case resolve_dimension rv member of
                  Inr r \<Rightarrow> dimension_target tq d r op vs
                | Inl _ \<Rightarrow> measure_or_metric_target tq d rv member op vs)))"

section \<open>Datasets and aliases\<close>

record time_ref =
  tm_dimension :: dimension_ref
  tm_granularity :: "string option"
  tm_range :: "date_range option"

text \<open>The members of a query as they resolve.\<close>

record 'x members =
  mb_dimensions :: "dimension_ref list"
  mb_times :: "time_ref list"
  mb_measures :: "measure_ref list"
  mb_metrics :: "metric_ref list"
  mb_filters :: "'x filter_target list"
  mb_segments :: "segment_ref list"

definition collect_required_datasets :: "resolver \<Rightarrow> 'x members \<Rightarrow> string list" where
  "collect_required_datasets rv m =
     map dr_dataset (mb_dimensions m) @ map (dr_dataset \<circ> tm_dimension) (mb_times m)
     @ map mr_dataset (mb_measures m)
     @ concat (map (extract_datasets_from_expression rv \<circ> mt_expression) (mb_metrics m))
     @ concat (map ft_datasets (mb_filters m)) @ map sr_dataset (mb_segments m)"

text \<open>\<open>re.findall(r"\b([A-Za-z_][A-Za-z0-9_]*)\.", s)\<close>: an identifier that starts at a word boundary and
  is followed by a point.\<close>

fun dataset_prefixes :: "nat \<Rightarrow> bool \<Rightarrow> string \<Rightarrow> string list" where
  "dataset_prefixes (Suc skip) prior (c # s) = dataset_prefixes skip (word_char c) s"
| "dataset_prefixes skip prior [] = []"
| "dataset_prefixes 0 prior (c # s) =
     (let w = takeWhile ident_char (c # s); r = drop (length w) (c # s)
      in if ident_start c \<and> \<not> prior \<and> prefix ''.'' r
         then w # dataset_prefixes (length w) (word_char c) s
         else dataset_prefixes 0 (word_char c) s)"

definition datasets_from_expression :: "string \<Rightarrow> string list" where
  "datasets_from_expression s = dataset_prefixes 0 False s"

text \<open>For metrics the code looks at the key of the first one.\<close>

definition choose_base_dataset :: "'x tq_ops \<Rightarrow> 'x members \<Rightarrow> (query_error, string) result" where
  "choose_base_dataset tq m =
     (case mb_measures m of
        x # _ \<Rightarrow> Inr (mr_dataset x)
      | [] \<Rightarrow>
        (case (case mb_metrics m of [] \<Rightarrow> [] | x # _ \<Rightarrow> datasets_from_expression (mt_key x)) of
           k # _ \<Rightarrow> Inr k
         | [] \<Rightarrow>
           (case mb_times m of
              x # _ \<Rightarrow> Inr (dr_dataset (tm_dimension x))
            | [] \<Rightarrow>
              (case mb_dimensions m of
                 x # _ \<Rightarrow> Inr (dr_dataset x)
               | [] \<Rightarrow>
                 (case mb_filters m of
                    x # _ \<Rightarrow> if ft_datasets x = [] then Inl Empty_Dataset_Set else Inr (tq_pick tq (ft_datasets x))
                  | [] \<Rightarrow>
                    (case mb_segments m of x # _ \<Rightarrow> Inr (sr_dataset x) | [] \<Rightarrow> Inl No_Tables))))))"

definition numbered_alias :: "nat \<Rightarrow> string" where
  "numbered_alias n = ''t'' @ nat_digits n"

definition add_alias :: "string \<Rightarrow> alias_map \<times> nat \<Rightarrow> alias_map \<times> nat" where
  "add_alias dataset = (\<lambda>(am, n). if dict_has am dataset then (am, n)
     else (dict_set am dataset (numbered_alias n), Suc n))"

definition build_alias_map :: "string \<Rightarrow> join_step list \<Rightarrow> alias_map" where
  "build_alias_map base steps =
     fst (foldl (\<lambda>acc s. add_alias (js_left s) (add_alias (js_right s) acc)) ([(base, numbered_alias 0)], 1) steps)"

section \<open>The selected columns\<close>

definition alias_for_member :: "string \<Rightarrow> string" where
  "alias_for_member member = collapse_symbols False (py_replace '' '' ''_'' (py_replace ''.'' ''__'' member))"

definition alias_for_time_dimension :: "string \<Rightarrow> string \<Rightarrow> string option \<Rightarrow> string" where
  "alias_for_time_dimension dataset column granularity =
     (let base = alias_for_member (member_key dataset column)
      in case granularity of Some (c # cs) \<Rightarrow> base @ ''_'' @ c # cs | _ \<Rightarrow> base)"

definition build_member_candidates :: "resolver \<Rightarrow> string \<Rightarrow> string \<Rightarrow> string list" where
  "build_member_candidates rv dataset column =
     (let own = member_key dataset column
      in case dict_get (sem_datasets (rv_model rv)) dataset of
           None \<Rightarrow> [own]
         | Some d \<Rightarrow>
             (let relation = get_relation_name d dataset;
                  schema_relation = py_join ''.'' (filter (\<lambda>p. p \<noteq> [])
                    [case ds_schema_name d of None \<Rightarrow> [] | Some s \<Rightarrow> s, relation])
              in rev (remdups (rev (own # (if relation = [] then [] else [member_key relation column])
                  @ (if schema_relation = [] then []
                     else member_key schema_relation column
                       # (if given (ds_catalog_name d)
                          then [the (ds_catalog_name d) @ ''.'' @ member_key schema_relation column] else []))))))) "

definition register_order_aliases ::
  "resolver \<Rightarrow> string \<Rightarrow> string \<Rightarrow> string \<Rightarrow> string option \<Rightarrow> (string, string) dict \<Rightarrow> (string, string) dict" where
  "register_order_aliases rv a dataset column granularity aliases =
     foldl (\<lambda>m k. let m' = dict_set m k a in
         if given granularity then dict_set m' (k @ ''.'' @ the granularity) a else m')
       (dict_set aliases a a) (build_member_candidates rv dataset column)"

text \<open>Every loop extends the selected items, the grouping and the order aliases.\<close>

record 'x selection =
  se_items :: "('x sexpr \<times> string) list"
  se_group :: "'x sexpr list"
  se_aliases :: "(string, string) dict"

definition granular ::
  "string \<Rightarrow> string option \<Rightarrow> 'x sterm \<Rightarrow> (query_error, 'x sexpr) result" where
  "granular d granularity t =
     (if given granularity then lift_query Range_Failed (date_trunc (the granularity) (E_Column t) d)
      else Inr (E_Column t))"

definition select_dimension ::
  "'x tq_ops \<Rightarrow> string \<Rightarrow> resolver \<Rightarrow> alias_map \<Rightarrow> dimension_ref \<Rightarrow> 'x selection \<Rightarrow> (query_error, 'x selection) result" where
  "select_dimension tq d rv am r sel =
     bindR (column_expression tq d am (dr_dataset r) (dr_column r) (Some (dr_expression r)) False
         (Some (dr_data_type r))) (\<lambda>t.
       let a = alias_for_member (member_key (dr_dataset r) (dr_column r))
       in Inr \<lparr>se_items = se_items sel @ [(E_Column t, a)], se_group = se_group sel @ [E_Column t],
               se_aliases = register_order_aliases rv a (dr_dataset r) (dr_column r) None (se_aliases sel)\<rparr>)"

text \<open>Here the expression of the dimension is not used.\<close>

definition select_time ::
  "'x tq_ops \<Rightarrow> string \<Rightarrow> resolver \<Rightarrow> alias_map \<Rightarrow> time_ref \<Rightarrow> 'x selection \<Rightarrow> (query_error, 'x selection) result" where
  "select_time tq d rv am tr sel =
     (let r = tm_dimension tr in
      bindR (column_expression tq d am (dr_dataset r) (dr_column r) None False (Some (dr_data_type r))) (\<lambda>t.
      bindR (granular d (tm_granularity tr) t) (\<lambda>e.
        let a = alias_for_time_dimension (dr_dataset r) (dr_column r) (tm_granularity tr)
        in Inr \<lparr>se_items = se_items sel @ [(e, a)], se_group = se_group sel @ [e],
                se_aliases = register_order_aliases rv a (dr_dataset r) (dr_column r) (tm_granularity tr)
                  (se_aliases sel)\<rparr>)))"

definition select_measure ::
  "'x tq_ops \<Rightarrow> string \<Rightarrow> resolver \<Rightarrow> alias_map \<Rightarrow> measure_ref \<Rightarrow> 'x selection \<Rightarrow> (query_error, 'x selection) result" where
  "select_measure tq d rv am m sel =
     bindR (measure_expression tq d am m False) (\<lambda>t.
       let a = alias_for_member (member_key (mr_dataset m) (mr_column m))
       in Inr \<lparr>se_items = se_items sel @ [(E_Column t, a)], se_group = se_group sel,
               se_aliases = register_order_aliases rv a (mr_dataset m) (mr_column m) None (se_aliases sel)\<rparr>)"

definition select_metric ::
  "'x tq_ops \<Rightarrow> string \<Rightarrow> alias_map \<Rightarrow> metric_ref \<Rightarrow> 'x selection \<Rightarrow> (query_error, 'x selection) result" where
  "select_metric tq d am m sel =
     bindR (replace_table_refs tq d am (mt_expression m)) (\<lambda>t.
       let a = alias_for_member (mt_key m)
       in Inr \<lparr>se_items = se_items sel @ [(E_Column t, a)], se_group = se_group sel,
               se_aliases = dict_set (dict_set (se_aliases sel) a a) (mt_key m) a\<rparr>)"

fun fold_members :: "('m \<Rightarrow> 'a \<Rightarrow> ('e, 'a) result) \<Rightarrow> 'm list \<Rightarrow> 'a \<Rightarrow> ('e, 'a) result" where
  "fold_members f [] acc = Inr acc"
| "fold_members f (m # ms) acc = bindR (f m acc) (fold_members f ms)"

definition build_selects ::
  "'x tq_ops \<Rightarrow> string \<Rightarrow> resolver \<Rightarrow> alias_map \<Rightarrow> 'x members \<Rightarrow> (query_error, 'x selection) result" where
  "build_selects tq d rv am m =
     bindR (fold_members (select_dimension tq d rv am) (mb_dimensions m) \<lparr>se_items = [], se_group = [], se_aliases = []\<rparr>) (\<lambda>s1.
     bindR (fold_members (select_time tq d rv am) (mb_times m) s1) (\<lambda>s2.
     bindR (fold_members (select_measure tq d rv am) (mb_measures m) s2) (\<lambda>s3.
     bindR (fold_members (select_metric tq d am) (mb_metrics m) s3) (\<lambda>s4.
       if se_items s4 = [] then Inl No_Selects else Inr s4))))"

section \<open>Conditions\<close>

definition real_range :: "date_range option \<Rightarrow> bool" where
  "real_range dr = (case dr of None \<Rightarrow> False | Some (DR_Text s) \<Rightarrow> s \<noteq> [] | Some (DR_Values vs) \<Rightarrow> vs \<noteq> []
     | Some DR_Other \<Rightarrow> True)"

definition time_condition ::
  "'x tq_ops \<Rightarrow> string \<Rightarrow> alias_map \<Rightarrow> time_ref \<Rightarrow> (query_error, 'x qcond) result" where
  "time_condition tq d am tr =
     (let r = tm_dimension tr;
          expression = (if py_strip (dr_expression r) = dr_column r then None else Some (dr_expression r))
      in bindR (column_expression tq d am (dr_dataset r) (dr_column r) expression False (Some (dr_data_type r))) (\<lambda>t.
           range_condition d t (the (tm_range tr)) (Some (dr_data_type r))))"

definition build_where_conditions ::
  "'x tq_ops \<Rightarrow> string \<Rightarrow> alias_map \<Rightarrow> 'x members \<Rightarrow> (query_error, 'x qcond list) result" where
  "build_where_conditions tq d am m =
     bindR (mapR (time_condition tq d am) (filter (\<lambda>t. real_range (tm_range t)) (mb_times m))) (\<lambda>ranges.
     bindR (mapR (\<lambda>s. bindR (replace_table_refs tq d am (sr_condition s)) (\<lambda>t. Inr (C_Term t))) (mb_segments m)) (\<lambda>segments.
       Inr (map (\<lambda>f. replace_cond tq am (ft_condition f)) (filter (\<lambda>f. ft_kind f = Dimension_Target) (mb_filters m))
         @ ranges @ segments)))"

definition build_having_conditions :: "'x tq_ops \<Rightarrow> alias_map \<Rightarrow> 'x members \<Rightarrow> 'x qcond list" where
  "build_having_conditions tq am m =
     map (\<lambda>f. replace_cond tq am (ft_condition f)) (filter (\<lambda>f. ft_kind f \<noteq> Dimension_Target) (mb_filters m))"

section \<open>Order\<close>

definition descending :: "string option \<Rightarrow> bool" where
  "descending v = (py_lower (py_strip (if given v then the v else ''asc'')) = ''desc'')"

definition normalize_order :: "order_input \<Rightarrow> (query_error, (string \<times> bool) list) result" where
  "normalize_order ord =
     (let items = map (\<lambda>(k, v). (k, descending v))
      in case ord of
           Order_None \<Rightarrow> Inr []
         | Order_Dict kvs \<Rightarrow> Inr (items kvs)
         | Order_List es \<Rightarrow> Inr (concat (map (\<lambda>e. case e of
             Entry_Dict kvs \<Rightarrow> items kvs | Entry_Pair k v \<Rightarrow> items [(k, v)] | Entry_Other \<Rightarrow> []) es))
         | Order_Other \<Rightarrow> Inl Unsupported_Order)"

definition time_order_expression ::
  "'x tq_ops \<Rightarrow> string \<Rightarrow> alias_map \<Rightarrow> time_ref \<Rightarrow> (query_error, 'x sexpr) result" where
  "time_order_expression tq d am tr =
     (let r = tm_dimension tr in
      bindR (column_expression tq d am (dr_dataset r) (dr_column r) (Some (dr_expression r)) False None) (\<lambda>t.
        granular d (tm_granularity tr) t))"

definition matching_time :: "resolver \<Rightarrow> string \<Rightarrow> time_ref list \<Rightarrow> time_ref option" where
  "matching_time rv member trefs =
     (case resolve_dimension rv member of
        Inl _ \<Rightarrow> None
      | Inr x \<Rightarrow> find (\<lambda>t. dr_dataset (tm_dimension t) = dr_dataset x \<and> dr_column (tm_dimension t) = dr_column x) trefs)"

definition resolve_order_member ::
  "'x tq_ops \<Rightarrow> string \<Rightarrow> resolver \<Rightarrow> alias_map \<Rightarrow> 'x members \<Rightarrow> string \<Rightarrow> (query_error, 'x sexpr) result" where
  "resolve_order_member tq d rv am m member =
     (case find (\<lambda>t. member = member_key (dr_dataset (tm_dimension t)) (dr_column (tm_dimension t))) (mb_times m) of
        Some t \<Rightarrow> time_order_expression tq d am t
      | None \<Rightarrow>
        (case matching_time rv member (mb_times m) of
           Some t \<Rightarrow> time_order_expression tq d am t
         | None \<Rightarrow>
           (case resolve_dimension rv member of
              Inr r \<Rightarrow> bindR (column_expression tq d am (dr_dataset r) (dr_column r) (Some (dr_expression r)) False None)
                (\<lambda>t. Inr (E_Column t))
            | Inl _ \<Rightarrow>
              (case resolve_measure rv member of
                 Inr x \<Rightarrow> bindR (measure_expression tq d am x False) (\<lambda>t. Inr (E_Column t))
               | Inl _ \<Rightarrow>
                 (case find (\<lambda>x. mt_key x = member) (mb_metrics m) of
                    Some x \<Rightarrow> bindR (replace_table_refs tq d am (mt_expression x)) (\<lambda>t. Inr (E_Column t))
                  | None \<Rightarrow> Inl (Order_Member_Unknown member))))))"

definition order_item ::
  "'x tq_ops \<Rightarrow> string \<Rightarrow> resolver \<Rightarrow> alias_map \<Rightarrow> 'x members \<Rightarrow> (string, string) dict \<Rightarrow> string \<times> bool
   \<Rightarrow> (query_error, 'x order_key \<times> bool) result" where
  "order_item tq d rv am m aliases = (\<lambda>(key, desc).
     case dict_get aliases key of
       Some (c # cs) \<Rightarrow> Inr (O_Alias (c # cs), desc)
     | _ \<Rightarrow> bindR (resolve_order_member tq d rv am m key) (\<lambda>e. Inr (O_Expr e, desc)))"

section \<open>FROM and the whole query\<close>

definition table_source_of :: "semantic_model \<Rightarrow> string \<Rightarrow> string \<Rightarrow> (query_error, table_source) result" where
  "table_source_of model key a =
     (case dict_get (sem_datasets model) key of
        None \<Rightarrow> Inl (Unknown_Dataset key)
      | Some d \<Rightarrow>
          (let catalog = ds_catalog_name d; schema = ds_schema_name d;
               split = (\<not> given catalog \<and> given schema \<and> CHR ''.'' \<in> set (the schema));
               parts = split_first_dot (the schema);
               non_empty = (\<lambda>v. if given v then v else None)
           in Inr \<lparr>fs_table = get_relation_name d key,
                   fs_schema = non_empty (if split then Some (snd parts) else schema),
                   fs_catalog = non_empty (if split then Some (fst parts) else catalog),
                   fs_alias = a\<rparr>))"

definition join_type_text :: "relationship_type \<Rightarrow> string" where
  "join_type_text t =
     (case t of Rel_Left \<Rightarrow> ''left'' | Rel_Right \<Rightarrow> ''right'' | Rel_Full \<Rightarrow> ''full'' | Rel_Inner \<Rightarrow> ''inner''
      | One_To_Many \<Rightarrow> ''left'' | Many_To_One \<Rightarrow> ''left'' | One_To_One \<Rightarrow> ''left'' | Many_To_Many \<Rightarrow> ''inner'')"

definition alias_of :: "alias_map \<Rightarrow> string \<Rightarrow> (query_error, string) result" where
  "alias_of am k = (case dict_get am k of Some a \<Rightarrow> Inr a | None \<Rightarrow> Inl (Alias_Missing k))"

definition join_of ::
  "'x tq_ops \<Rightarrow> string \<Rightarrow> semantic_model \<Rightarrow> alias_map \<Rightarrow> join_step \<Rightarrow> (query_error, 'x join_clause) result" where
  "join_of tq d model am s =
     bindR (alias_of am (js_right s)) (\<lambda>a.
     bindR (table_source_of model (js_right s) a) (\<lambda>src.
     bindR (replace_table_refs tq d am (join_condition (js_relationship s))) (\<lambda>on.
       Inr \<lparr>jc_source = src, jc_on = on, jc_type = join_type_text (rl_type (js_relationship s))\<rparr>)))"

definition limit_of :: "int option \<Rightarrow> int option \<Rightarrow> int option \<times> int option" where
  "limit_of limit offset =
     (if limit = None \<and> offset = None then (None, None)
      else (Some (case limit of Some n \<Rightarrow> n | None \<Rightarrow> 2147483647), Some (case offset of Some n \<Rightarrow> n | None \<Rightarrow> 0)))"

fun split_measures :: "(measure_ref + metric_ref) list \<Rightarrow> measure_ref list \<times> metric_ref list" where
  "split_measures [] = ([], [])"
| "split_measures (Inl x # rs) = (case split_measures rs of (ms, ts) \<Rightarrow> (x # ms, ts))"
| "split_measures (Inr x # rs) = (case split_measures rs of (ms, ts) \<Rightarrow> (ms, x # ts))"

definition resolve_time :: "resolver \<Rightarrow> time_dimension \<Rightarrow> (query_error, time_ref) result" where
  "resolve_time rv t =
     bindR (lift_query Resolve_Failed (resolve_dimension rv (ti_dimension t))) (\<lambda>r.
       Inr \<lparr>tm_dimension = r, tm_granularity = ti_granularity t, tm_range = ti_range t\<rparr>)"

definition resolve_members ::
  "'x tq_ops \<Rightarrow> string \<Rightarrow> resolver \<Rightarrow> semantic_query \<Rightarrow> (query_error, 'x members) result" where
  "resolve_members tq d rv q =
     bindR (mapR (\<lambda>m. lift_query Resolve_Failed (resolve_dimension rv m)) (qy_dimensions q)) (\<lambda>dims.
     bindR (mapR (resolve_time rv) (qy_time_dimensions q)) (\<lambda>trefs.
     bindR (mapR (\<lambda>m. lift_query Resolve_Failed (resolve_measure_or_metric rv m)) (qy_measures q)) (\<lambda>ms.
     bindR (mapR (resolve_filter_target tq d rv) (qy_filters q)) (\<lambda>filters.
     bindR (mapR (\<lambda>s. lift_query Resolve_Failed (resolve_segment rv s)) (qy_segments q)) (\<lambda>segments.
       Inr \<lparr>mb_dimensions = dims, mb_times = trefs, mb_measures = fst (split_measures ms),
            mb_metrics = snd (split_measures ms), mb_filters = filters, mb_segments = segments\<rparr>)))))"

definition translate_dialect :: "string option \<Rightarrow> string" where
  "translate_dialect v = py_lower (if given v then the v else ''tsql'')"

text \<open>The body of \<open>translate\<close> for resolved members.\<close>

definition translate_members ::
  "'x tq_ops \<Rightarrow> string \<Rightarrow> semantic_model \<Rightarrow> resolver \<Rightarrow> semantic_query \<Rightarrow> 'x members
   \<Rightarrow> string \<Rightarrow> join_step list \<Rightarrow> (query_error, 'x select) result" where
  "translate_members tq d model rv q m base steps =
     (let am = build_alias_map base steps in
      bindR (build_selects tq d rv am m) (\<lambda>sel.
      bindR (build_where_conditions tq d am m) (\<lambda>conditions.
      bindR (normalize_order (qy_order q)) (\<lambda>order_items.
      bindR (mapR (order_item tq d rv am m (se_aliases sel)) order_items) (\<lambda>order_clause.
      bindR (alias_of am base) (\<lambda>base_alias.
      bindR (table_source_of model base base_alias) (\<lambda>source.
      bindR (mapR (join_of tq d model am) steps) (\<lambda>joins.
        Inr \<lparr>sl_items = se_items sel, sl_from = source, sl_joins = joins, sl_where = conditions,
             sl_group = se_group sel, sl_having = build_having_conditions tq am m, sl_order = order_clause,
             sl_limit = fst (limit_of (qy_limit q) (qy_offset q)),
             sl_offset = snd (limit_of (qy_limit q) (qy_offset q))\<rparr>))))))))"

definition required_with_base :: "resolver \<Rightarrow> 'x members \<Rightarrow> string \<Rightarrow> string list" where
  "required_with_base rv m base =
     (let required = collect_required_datasets rv m
      in if base \<in> set required then required else required @ [base])"

definition translate ::
  "'x tq_ops \<Rightarrow> semantic_query \<Rightarrow> semantic_model \<Rightarrow> string option \<Rightarrow> (query_error, 'x select) result" where
  "translate tq q model dialect =
     (let d = translate_dialect dialect; rv = build_resolver model in
      bindR (resolve_members tq d rv q) (\<lambda>m.
      bindR (choose_base_dataset tq m) (\<lambda>base.
      bindR (lift_query Join_Failed (plan_joins (sem_relationships model) base (required_with_base rv m base))) (\<lambda>steps.
        translate_members tq d model rv q m base steps))))"

section \<open>Aliases\<close>

lemma nat_digits_inj: "nat_digits m = nat_digits n \<Longrightarrow> m = n"
  by (metis (no_types, lifting) nat_digits_back of_nat_eq_iff)

lemma numbered_alias_inj: "inj numbered_alias"
  by (rule injI) (simp add: numbered_alias_def nat_digits_inj)

lemma numbered_distinct: "distinct (map numbered_alias ns) \<longleftrightarrow> distinct ns"
  using numbered_alias_inj by (simp add: distinct_map inj_on_def inj_def)

lemma add_alias_known: "k \<in> set (dict_keys am) \<Longrightarrow> add_alias k (am, n) = (am, n)"
  by (simp add: add_alias_def dict_has_iff set_dict_keys)

lemma add_alias_new:
  assumes "k \<notin> set (dict_keys am)"
  shows "add_alias k (am, n) = (am @ [(k, numbered_alias n)], Suc n)"
proof -
  have "dict_set am k a = am @ [(k, a)]" for a :: string
    using assms unfolding dict_set_def dict_keys_def by (induction am) auto
  then show ?thesis using assms by (simp add: add_alias_def dict_has_iff set_dict_keys)
qed

lemma alias_fold:
  assumes "join_tree rels A steps" "set (dict_keys am) = A"
  shows "fst (foldl (\<lambda>acc s. add_alias (js_left s) (add_alias (js_right s) acc)) (am, n) steps)
     = am @ zip (map js_right steps) (map numbered_alias [n..<n + length steps])"
  using assms
proof (induction steps arbitrary: A am n)
  case (Cons s steps)
  let ?am = "am @ [(js_right s, numbered_alias n)]"
  have right: "add_alias (js_right s) (am, n) = (?am, Suc n)"
    using Cons.prems by (intro add_alias_new) auto
  have "js_left s \<in> set (dict_keys ?am)" using Cons.prems by (auto simp: dict_keys_def)
  then have left: "add_alias (js_left s) (?am, Suc n) = (?am, Suc n)" by (rule add_alias_known)
  have "set (dict_keys ?am) = insert (js_right s) A" using Cons.prems(2) by (auto simp: dict_keys_def)
  moreover have "[n..<n + length (s # steps)] = n # [Suc n..<Suc n + length steps]"
    by (simp add: upt_conv_Cons del: upt_Suc)
  ultimately show ?case
    using Cons.IH [of "insert (js_right s) A" ?am "Suc n"] Cons.prems(1) by (simp add: right left del: upt_Suc)
qed simp

text \<open>The aliases number the datasets in the order in which they are joined.\<close>

lemma alias_map_numbers:
  assumes "join_tree rels {base} steps"
  shows "build_alias_map base steps =
     zip (base # map js_right steps) (map numbered_alias [0..<Suc (length steps)])"
  using alias_fold [OF assms, of "[(base, numbered_alias 0)]" 1]
  by (simp add: build_alias_map_def dict_keys_def upt_conv_Cons del: upt_Suc)

section \<open>Scope\<close>

text \<open>What is relied on of the library: requalifying a tree requalifies its columns.\<close>

definition requalified :: "(string \<Rightarrow> string option) \<Rightarrow> string option \<times> string \<Rightarrow> string option \<times> string" where
  "requalified f = (\<lambda>(q, n). (case Option.bind q f of Some a \<Rightarrow> Some a | None \<Rightarrow> q, n))"

definition tq_ok :: "'x tq_ops \<Rightarrow> bool" where
  "tq_ok tq \<longleftrightarrow> (\<forall>f x. tq_columns tq (tq_rename tq f x) = map (requalified f) (tq_columns tq x))"

fun term_columns :: "'x tq_ops \<Rightarrow> 'x sterm \<Rightarrow> (string option \<times> string) list" where
  "term_columns tq (T_Column q n) = [(q, n)]"
| "term_columns tq (T_Tree x) = tq_columns tq x"
| "term_columns tq (T_Cast ty t) = term_columns tq t"
| "term_columns tq (T_Aggregate f u t) = term_columns tq t"

fun cond_terms :: "'x qcond \<Rightarrow> 'x sterm set" where
  "cond_terms (C_Range e) = set_expr e"
| "cond_terms (C_Term t) = {t}"
| "cond_terms (C_EQ t e) = insert t (set_expr e)"
| "cond_terms (C_NEQ t e) = insert t (set_expr e)"
| "cond_terms (C_GT t e) = insert t (set_expr e)"
| "cond_terms (C_GTE t e) = insert t (set_expr e)"
| "cond_terms (C_LT t e) = insert t (set_expr e)"
| "cond_terms (C_LTE t e) = insert t (set_expr e)"
| "cond_terms (C_In t es) = insert t (\<Union> (set (map set_expr es)))"
| "cond_terms (C_Like t e) = insert t (set_expr e)"
| "cond_terms (C_Is_Null t) = {t}"
| "cond_terms (C_Not c) = cond_terms c"

fun order_terms :: "'x order_key \<Rightarrow> 'x sterm set" where
  "order_terms (O_Alias a) = {}"
| "order_terms (O_Expr e) = set_expr e"

definition select_terms :: "'x select \<Rightarrow> 'x sterm set" where
  "select_terms s =
     \<Union> (set (map (set_expr \<circ> fst) (sl_items s))) \<union> set (map jc_on (sl_joins s))
     \<union> \<Union> (set (map cond_terms (sl_where s))) \<union> \<Union> (set (map set_expr (sl_group s)))
     \<union> \<Union> (set (map cond_terms (sl_having s))) \<union> \<Union> (set (map (order_terms \<circ> fst) (sl_order s)))"

text \<open>A qualifier that is the name of a joined dataset has been replaced by its alias.\<close>

definition column_in_scope :: "alias_map \<Rightarrow> string option \<times> string \<Rightarrow> bool" where
  "column_in_scope am c = (case fst c of None \<Rightarrow> True | Some t \<Rightarrow> t \<in> snd ` set am \<or> t \<notin> fst ` set am)"

definition term_in_scope :: "'x tq_ops \<Rightarrow> alias_map \<Rightarrow> 'x sterm \<Rightarrow> bool" where
  "term_in_scope tq am t = list_all (column_in_scope am) (term_columns tq t)"

lemma requalified_in_scope: "column_in_scope am (requalified (dict_get am) c)"
proof -
  obtain q n where c: "c = (q, n)" by (cases c)
  show ?thesis
  proof (cases "Option.bind q (dict_get am)")
    case None
    have "t \<notin> fst ` set am" if "q = Some t" for t
      using None that by (simp add: dict_get_def map_of_eq_None_iff)
    with None show ?thesis by (simp add: c column_in_scope_def requalified_def split: option.split)
  next
    case (Some a)
    then obtain t where "q = Some t" "dict_get am t = Some a" by (cases q) auto
    then have "a \<in> snd ` set am" by (force dest: dict_get_in)
    with Some show ?thesis by (simp add: c column_in_scope_def requalified_def)
  qed
qed

lemma replace_columns_requalified:
  assumes "tq_ok tq"
  shows "term_columns tq (replace_term tq am t) = map (requalified (dict_get am)) (term_columns tq t)"
proof (induction t)
  case (T_Column q n)
  then show ?case by (simp add: requalified_def split: option.split)
qed (use assms in \<open>simp_all add: tq_ok_def\<close>)

lemma replaced_in_scope: "tq_ok tq \<Longrightarrow> term_in_scope tq am (replace_term tq am t)"
  by (simp add: term_in_scope_def replace_columns_requalified list_all_iff requalified_in_scope)

lemma cond_terms_replace: "cond_terms (replace_cond tq am c) = replace_term tq am ` cond_terms c"
  by (induction c) (auto simp: replace_expr_def expr.set_map)

lemma alias_in_scope: "dict_get am k = Some a \<Longrightarrow> term_in_scope tq am (T_Column (Some a) n)"
  by (force simp: term_in_scope_def column_in_scope_def dest: dict_get_in)

lemma coerce_in_scope: "term_in_scope tq am (coerce_column_type ty t) = term_in_scope tq am t"
  by (simp add: coerce_column_type_def term_in_scope_def Let_def)

lemma column_expression_in_scope:
  assumes "tq_ok tq" "column_expression tq d am ds col e False ty = Inr t"
  shows "term_in_scope tq am t"
proof -
  obtain a u where a: "column_alias am ds False = Inr a" and t: "t = coerce_column_type ty u"
    and u: "(\<exists>x. u = base_term tq am a col x) \<or> u = T_Column (Some a) col"
    using assms(2) by (auto simp: column_expression_def bindR_eq_Inr split: if_splits)
  have get: "dict_get am ds = Some a"
    using a by (auto simp: column_alias_def split: if_splits option.splits)
  have "term_in_scope tq am (base_term tq am a col x)" for x
    using replaced_in_scope [OF assms(1)] alias_in_scope [OF get, of tq]
    by (cases x) (simp_all add: base_term_def del: replace_term.simps)
  then show ?thesis using u alias_in_scope [OF get, of tq] by (auto simp: t coerce_in_scope)
qed

lemma measure_expression_in_scope:
  "\<lbrakk>tq_ok tq; measure_expression tq d am m False = Inr t\<rbrakk> \<Longrightarrow> term_in_scope tq am t"
  by (auto simp: measure_expression_def bindR_eq_Inr aggregate_term_def term_in_scope_def
    dest!: column_expression_in_scope)

lemma granular_terms: "granular d g t = Inr e \<Longrightarrow> set_expr e \<subseteq> {t}"
  by (auto simp: granular_def date_trunc_def truncated_def Let_def split: if_splits)

text \<open>A list of items is in scope when every term in it is.\<close>

definition all_in_scope :: "'x tq_ops \<Rightarrow> alias_map \<Rightarrow> 'x sterm set \<Rightarrow> bool" where
  "all_in_scope tq am ts = (\<forall>t \<in> ts. term_in_scope tq am t)"

lemma fold_members_invariant:
  assumes "fold_members f ms acc = Inr acc'" "P acc"
    and "\<And>m a a'. \<lbrakk>m \<in> set ms; f m a = Inr a'; P a\<rbrakk> \<Longrightarrow> P a'"
  shows "P acc'"
  using assms by (induction ms arbitrary: acc) (auto simp: bindR_eq_Inr)

definition selection_in_scope :: "'x tq_ops \<Rightarrow> alias_map \<Rightarrow> 'x selection \<Rightarrow> bool" where
  "selection_in_scope tq am sel =
     (all_in_scope tq am (\<Union> (set (map (set_expr \<circ> fst) (se_items sel))))
      \<and> all_in_scope tq am (\<Union> (set (map set_expr (se_group sel)))))"

lemma select_dimension_in_scope:
  assumes "tq_ok tq" "select_dimension tq d rv am r sel = Inr sel'" "selection_in_scope tq am sel"
  shows "selection_in_scope tq am sel'"
proof -
  obtain t where "column_expression tq d am (dr_dataset r) (dr_column r) (Some (dr_expression r)) False
      (Some (dr_data_type r)) = Inr t"
    and sel': "\<exists>a. se_items sel' = se_items sel @ [(E_Column t, a)]" "se_group sel' = se_group sel @ [E_Column t]"
    using assms(2) by (auto simp: select_dimension_def bindR_eq_Inr Let_def)
  from column_expression_in_scope [OF assms(1) this(1)] assms(3) sel' show ?thesis
    by (auto simp: selection_in_scope_def all_in_scope_def)
qed

lemma select_time_in_scope:
  assumes "tq_ok tq" "select_time tq d rv am tr sel = Inr sel'" "selection_in_scope tq am sel"
  shows "selection_in_scope tq am sel'"
proof -
  obtain t e where "column_expression tq d am (dr_dataset (tm_dimension tr)) (dr_column (tm_dimension tr)) None False
      (Some (dr_data_type (tm_dimension tr))) = Inr t" and e: "granular d (tm_granularity tr) t = Inr e"
    and sel': "set (se_items sel') = insert (e, alias_for_time_dimension (dr_dataset (tm_dimension tr))
      (dr_column (tm_dimension tr)) (tm_granularity tr)) (set (se_items sel))" "set (se_group sel') = insert e (set (se_group sel))"
    using assms(2) by (auto simp: select_time_def bindR_eq_Inr Let_def)
  then have "term_in_scope tq am t" using column_expression_in_scope [OF assms(1)] by blast
  then have "all_in_scope tq am (set_expr e)" using granular_terms [OF e] by (auto simp: all_in_scope_def)
  then show ?thesis using assms(3) sel' by (auto simp: selection_in_scope_def all_in_scope_def)
qed

lemma select_measure_in_scope:
  assumes "tq_ok tq" "select_measure tq d rv am m sel = Inr sel'" "selection_in_scope tq am sel"
  shows "selection_in_scope tq am sel'"
proof -
  obtain t a where "measure_expression tq d am m False = Inr t"
    and sel': "se_items sel' = se_items sel @ [(E_Column t, a)]" "se_group sel' = se_group sel"
    using assms(2) by (auto simp: select_measure_def bindR_eq_Inr Let_def)
  from measure_expression_in_scope [OF assms(1) this(1)] assms(3) show ?thesis
    by (auto simp: selection_in_scope_def all_in_scope_def sel')
qed

lemma select_metric_in_scope:
  "\<lbrakk>tq_ok tq; select_metric tq d am m sel = Inr sel'; selection_in_scope tq am sel\<rbrakk> \<Longrightarrow> selection_in_scope tq am sel'"
  by (auto simp: select_metric_def bindR_eq_Inr selection_in_scope_def all_in_scope_def Let_def
    replace_table_refs_def replaced_in_scope)

lemma selects_in_scope:
  assumes "tq_ok tq" "build_selects tq d rv am m = Inr sel"
  shows "selection_in_scope tq am sel"
proof -
  let ?start = "\<lparr>se_items = [], se_group = [], se_aliases = []\<rparr> :: 'a selection"
  obtain s1 s2 s3 where f: "fold_members (select_dimension tq d rv am) (mb_dimensions m) ?start = Inr s1"
      "fold_members (select_time tq d rv am) (mb_times m) s1 = Inr s2"
      "fold_members (select_measure tq d rv am) (mb_measures m) s2 = Inr s3"
      "fold_members (select_metric tq d am) (mb_metrics m) s3 = Inr sel"
    using assms(2) by (auto simp: build_selects_def bindR_eq_Inr split: if_splits)
  have "selection_in_scope tq am ?start" by (simp add: selection_in_scope_def all_in_scope_def)
  then have "selection_in_scope tq am s1"
    by (rule fold_members_invariant [OF f(1)]) (rule select_dimension_in_scope [OF assms(1)])
  then have "selection_in_scope tq am s2"
    by (rule fold_members_invariant [OF f(2)]) (rule select_time_in_scope [OF assms(1)])
  then have "selection_in_scope tq am s3"
    by (rule fold_members_invariant [OF f(3)]) (rule select_measure_in_scope [OF assms(1)])
  then show ?thesis
    by (rule fold_members_invariant [OF f(4)]) (rule select_metric_in_scope [OF assms(1)])
qed

lemma literal_terms [simp]: "set_expr (format_literal v ty d) = {}"
  by (cases v) (simp_all add: format_literal_def boolean_literal_def Let_def)

lemma date_terms [simp]:
  "set_expr (current_date d) = {}" "set_expr (current_ts d) = {}" "set_expr (days_from e n) = set_expr e"
  "set_expr (truncated u e d) = set_expr e" "set_expr (shift_datetime e n u d) = set_expr e"
  by (simp_all add: current_date_def current_ts_def days_from_def truncated_def shift_datetime_def
    interval_literal_def Let_def)

lemma relative_pair_terms:
  "set_expr (fst (amount_range d dir n u)) = {}" "set_expr (snd (amount_range d dir n u)) = {}"
  "set_expr (fst (period_range d dir u)) = {}" "set_expr (snd (period_range d dir u)) = {}"
  by (simp_all add: amount_range_def period_range_def Let_def)

definition no_terms :: "('c expr \<times> 'c expr) option \<Rightarrow> bool" where
  "no_terms r = (case r of None \<Rightarrow> True | Some p \<Rightarrow> set_expr (fst p) = {} \<and> set_expr (snd p) = {})"

lemma no_terms_intros:
  "no_terms None"
  "\<lbrakk>set_expr x = {}; set_expr y = {}\<rbrakk> \<Longrightarrow> no_terms (Some (x, y))"
  "no_terms (Some (amount_range d dir n u))" "no_terms (Some (period_range d dir u))"
  "\<lbrakk>no_terms r; no_terms r'\<rbrakk> \<Longrightarrow> no_terms (if b then r else r')"
  "\<lbrakk>no_terms r; \<And>w ws. no_terms (f w ws)\<rbrakk> \<Longrightarrow> no_terms (case xs of [] \<Rightarrow> r | w # ws \<Rightarrow> f w ws)"
  "\<lbrakk>no_terms r; \<And>v. no_terms (g v)\<rbrakk> \<Longrightarrow> no_terms (case z of None \<Rightarrow> r | Some v \<Rightarrow> g v)"
  "(\<And>u v. no_terms (h u v)) \<Longrightarrow> no_terms (case q of (u, v) \<Rightarrow> h u v)"
proof -
  show "no_terms None" "\<lbrakk>set_expr x = {}; set_expr y = {}\<rbrakk> \<Longrightarrow> no_terms (Some (x, y))"
    "no_terms (Some (amount_range d dir n u))" "no_terms (Some (period_range d dir u))"
    by (simp_all add: no_terms_def relative_pair_terms)
qed (cases b; cases xs; cases z; cases q; simp)+

lemma relative_range_terms:
  fixes p :: "'c expr \<times> 'c expr"
  assumes "parse_relative_date_range s d = Some p"
  shows "set_expr (fst p) = {} \<and> set_expr (snd p) = {}"
proof -
  have "no_terms (parse_relative_date_range s d :: ('c expr \<times> 'c expr) option)"
    unfolding parse_relative_date_range_def Let_def by (intro no_terms_intros) simp_all
  with assms show ?thesis by (simp add: no_terms_def)
qed

lemma cast_literal_terms [simp]: "set_expr (cast_date_literal_if_needed l raw ty) = set_expr l"
  by (auto simp: cast_date_literal_if_needed_def split: literal_value.split)

lemma single_date_terms:
  "single_date_operator_condition col s ty d = Some c \<Longrightarrow> set_expr c \<subseteq> set_expr col"
  by (auto simp: single_date_operator_condition_def Let_def split: option.splits prod.splits if_splits)

lemma range_terms:
  assumes "build_date_range_condition col dr ty d = Inr e"
  shows "set_expr e \<subseteq> set_expr col"
proof (cases dr)
  case (DR_Text s)
  then show ?thesis using assms single_date_terms relative_range_terms
    by (fastforce simp: build_date_range_condition_def split: option.splits prod.splits)
qed (use assms in \<open>auto simp: build_date_range_condition_def Let_def split: list.splits if_splits\<close>)

lemma where_in_scope:
  assumes "tq_ok tq" "build_where_conditions tq d am m = Inr cs" "c \<in> set cs"
  shows "all_in_scope tq am (cond_terms c)"
proof -
  obtain ranges segments where r: "mapR (time_condition tq d am) (filter (\<lambda>t. real_range (tm_range t)) (mb_times m)) = Inr ranges"
    and s: "mapR (\<lambda>s. bindR (replace_table_refs tq d am (sr_condition s)) (\<lambda>t. Inr (C_Term t))) (mb_segments m) = Inr segments"
    and cs: "cs = map (\<lambda>f. replace_cond tq am (ft_condition f)) (filter (\<lambda>f. ft_kind f = Dimension_Target) (mb_filters m))
        @ ranges @ segments"
    using assms(2) by (auto simp: build_where_conditions_def bindR_eq_Inr)
  consider f :: "'a filter_target" where "c = replace_cond tq am (ft_condition f)" | "c \<in> set ranges" | "c \<in> set segments"
    using assms(3) unfolding cs set_append set_map Un_iff by (elim disjE imageE; blast)
  then show ?thesis
  proof cases
    case 1
    then show ?thesis using replaced_in_scope [OF assms(1)] by (auto simp: all_in_scope_def cond_terms_replace)
  next
    case 2
    with mapR_source [OF r] obtain tr where "time_condition tq d am tr = Inr c" by blast
    then obtain t e x where "column_expression tq d am (dr_dataset (tm_dimension tr)) (dr_column (tm_dimension tr)) x False
        (Some (dr_data_type (tm_dimension tr))) = Inr t"
      and e: "build_date_range_condition (E_Column t) (the (tm_range tr)) (Some (dr_data_type (tm_dimension tr))) d = Inr e"
        "c = C_Range e"
      by (auto simp: time_condition_def range_condition_def bindR_eq_Inr Let_def)
    from column_expression_in_scope [OF assms(1) this(1)] range_terms [OF e(1)] e(2) show ?thesis
      by (auto simp: all_in_scope_def)
  next
    case 3
    with mapR_source [OF s] obtain g :: segment_ref where
        "bindR (replace_table_refs tq d am (sr_condition g)) (\<lambda>t. Inr (C_Term t)) = Inr c" by blast
    then show ?thesis
      by (auto simp: replace_table_refs_def bindR_eq_Inr all_in_scope_def replaced_in_scope [OF assms(1)])
  qed
qed

lemma having_in_scope:
  "\<lbrakk>tq_ok tq; c \<in> set (build_having_conditions tq am m)\<rbrakk> \<Longrightarrow> all_in_scope tq am (cond_terms c)"
  by (auto simp: build_having_conditions_def all_in_scope_def cond_terms_replace replaced_in_scope)

lemma time_order_in_scope:
  assumes "tq_ok tq" "time_order_expression tq d am tr = Inr e"
  shows "all_in_scope tq am (set_expr e)"
proof -
  obtain t where "column_expression tq d am (dr_dataset (tm_dimension tr)) (dr_column (tm_dimension tr))
      (Some (dr_expression (tm_dimension tr))) False None = Inr t" and e: "granular d (tm_granularity tr) t = Inr e"
    using assms(2) by (auto simp: time_order_expression_def bindR_eq_Inr Let_def)
  from column_expression_in_scope [OF assms(1) this(1)] granular_terms [OF e] show ?thesis
    by (auto simp: all_in_scope_def)
qed

lemma order_member_in_scope:
  assumes "tq_ok tq" "resolve_order_member tq d rv am m k = Inr e"
  shows "all_in_scope tq am (set_expr e)"
proof -
  from assms(2) consider tr :: time_ref where "time_order_expression tq d am tr = Inr e"
    | r :: dimension_ref and t where "column_expression tq d am (dr_dataset r) (dr_column r) (Some (dr_expression r)) False None = Inr t"
        "e = E_Column t"
    | x :: measure_ref and t where "measure_expression tq d am x False = Inr t" "e = E_Column t"
    | t where "e = E_Column (replace_term tq am t)"
    unfolding resolve_order_member_def replace_table_refs_def
    by (auto simp: bindR_eq_Inr split: option.splits sum.splits)
  then show ?thesis
  proof cases
    case 1
    then show ?thesis by (rule time_order_in_scope [OF assms(1)])
  next
    case 2
    then show ?thesis using column_expression_in_scope [OF assms(1) 2(1)] by (simp add: all_in_scope_def)
  next
    case 3
    then show ?thesis using measure_expression_in_scope [OF assms(1) 3(1)] by (simp add: all_in_scope_def)
  next
    case 4
    then show ?thesis using replaced_in_scope [OF assms(1)] by (simp add: all_in_scope_def)
  qed
qed

lemma order_in_scope:
  assumes "tq_ok tq" "order_item tq d rv am m aliases k = Inr x"
  shows "all_in_scope tq am (order_terms (fst x))"
  using assms(2) order_member_in_scope [OF assms(1)]
  by (auto simp: order_item_def bindR_eq_Inr all_in_scope_def split: prod.splits option.splits list.splits)

lemma source_alias: "table_source_of model k a = Inr src \<Longrightarrow> fs_alias src = a \<and> dict_get (sem_datasets model) k \<noteq> None"
  by (auto simp: table_source_of_def Let_def split: option.splits)

text \<open>The parts of a translated query over its alias map.\<close>

lemma translate_members_parts:
  assumes "tq_ok tq" "translate_members tq d model rv q m base steps = Inr s"
  defines "am \<equiv> build_alias_map base steps"
  shows "\<forall>t \<in> select_terms s. term_in_scope tq am t"
    and "\<exists>a. dict_get am base = Some a \<and> table_source_of model base a = Inr (sl_from s)"
    and "list_all2 (\<lambda>st j. \<exists>a. dict_get am (js_right st) = Some a
          \<and> table_source_of model (js_right st) a = Inr (jc_source j)) steps (sl_joins s)"
    and "\<exists>sel. build_selects tq d rv am m = Inr sel \<and> sl_items s = se_items sel \<and> sl_group s = se_group sel"
proof -
  obtain sel conditions items order_clause base_alias source joins where
      sel: "build_selects tq d rv am m = Inr sel"
    and wh: "build_where_conditions tq d am m = Inr conditions"
    and ord: "mapR (order_item tq d rv am m (se_aliases sel)) items = Inr order_clause"
    and base: "alias_of am base = Inr base_alias" "table_source_of model base base_alias = Inr source"
    and joins: "mapR (join_of tq d model am) steps = Inr joins"
    and s: "s = \<lparr>sl_items = se_items sel, sl_from = source, sl_joins = joins, sl_where = conditions,
             sl_group = se_group sel, sl_having = build_having_conditions tq am m, sl_order = order_clause,
             sl_limit = fst (limit_of (qy_limit q) (qy_offset q)),
             sl_offset = snd (limit_of (qy_limit q) (qy_offset q))\<rparr>"
    using assms(2) by (auto simp: translate_members_def Let_def bindR_eq_Inr am_def)
  show "\<exists>a. dict_get am base = Some a \<and> table_source_of model base a = Inr (sl_from s)"
    using base by (auto simp: s alias_of_def split: option.splits)
  have js: "list_all2 (\<lambda>st j. join_of tq d model am st = Inr j) steps joins" using joins by (simp add: mapR_Inr_iff)
  then show "list_all2 (\<lambda>st j. \<exists>a. dict_get am (js_right st) = Some a
      \<and> table_source_of model (js_right st) a = Inr (jc_source j)) steps (sl_joins s)"
    by (auto simp: s join_of_def bindR_eq_Inr alias_of_def elim!: list_all2_mono split: option.splits)
  show "\<exists>sel. build_selects tq d rv am m = Inr sel \<and> sl_items s = se_items sel \<and> sl_group s = se_group sel"
    using sel by (simp add: s)
  have on: "term_in_scope tq am (jc_on j)" if "j \<in> set joins" for j
  proof -
    from mapR_source [OF joins that] obtain st where "join_of tq d model am st = Inr j" by blast
    then show ?thesis
      using replaced_in_scope [OF assms(1)] by (auto simp: join_of_def bindR_eq_Inr replace_table_refs_def)
  qed
  have ord': "all_in_scope tq am (order_terms (fst x))" if "x \<in> set order_clause" for x
  proof -
    from mapR_source [OF ord that] obtain k where "order_item tq d rv am m (se_aliases sel) k = Inr x" by blast
    then show ?thesis by (rule order_in_scope [OF assms(1)])
  qed
  show "\<forall>t \<in> select_terms s. term_in_scope tq am t"
    using selects_in_scope [OF assms(1) sel] where_in_scope [OF assms(1) wh]
      having_in_scope [OF assms(1), of _ am m] on ord'
    unfolding s select_terms_def selection_in_scope_def all_in_scope_def
    by (simp add: ball_Un)
qed

text \<open>C34: A translated query binds its aliases once and refers to nothing else by them: FROM and the joins
  number distinct datasets of the model, all required ones among them, as t0, t1 and so on, and
  wherever a column was qualified with one of these datasets it now has that dataset's alias.\<close>

theorem translated_query_is_well_scoped:
  assumes "tq_ok tq" "translate tq q model dialect = Inr s"
  shows "\<exists>m datasets. resolve_members tq (translate_dialect dialect) (build_resolver model) q = Inr m
     \<and> distinct datasets \<and> set (collect_required_datasets (build_resolver model) m) \<subseteq> set datasets
     \<and> list_all2 (\<lambda>k src. table_source_of model k (fs_alias src) = Inr src) datasets
         (sl_from s # map jc_source (sl_joins s))
     \<and> map fs_alias (sl_from s # map jc_source (sl_joins s)) = map numbered_alias [0..<length datasets]
     \<and> (\<forall>t \<in> select_terms s. term_in_scope tq (zip datasets (map numbered_alias [0..<length datasets])) t)"
proof -
  let ?d = "translate_dialect dialect" and ?rv = "build_resolver model"
  obtain m base steps where m: "resolve_members tq ?d ?rv q = Inr m"
    and steps: "plan_joins (sem_relationships model) base (required_with_base ?rv m base) = Inr steps"
    and t: "translate_members tq ?d model ?rv q m base steps = Inr s"
    using assms(2) by (auto simp: translate_def Let_def bindR_eq_Inr)
  have tree: "join_tree (sem_relationships model) {base} steps" "distinct (base # map js_right steps)"
      "set (required_with_base ?rv m base) \<subseteq> joined_by {base} steps"
    using plan_joins_tree [where rels = "sem_relationships model" and base = base and required = "required_with_base ?rv m base"] steps by simp_all
  define datasets where "datasets = base # map js_right steps"
  let ?am = "zip datasets (map numbered_alias [0..<length datasets])"
  have am: "build_alias_map base steps = ?am"
    using alias_map_numbers [OF tree(1)] by (simp add: datasets_def del: upt_Suc)
  note parts = translate_members_parts [OF assms(1) t, unfolded am]
  have at: "dict_get ?am (datasets ! i) = Some (numbered_alias i)" if "i < length datasets" for i
    using that tree(2) map_of_zip_nth [of datasets "map numbered_alias [0..<length datasets]" i]
    by (simp add: dict_get_def datasets_def del: upt_Suc)
  have srcs: "list_all2 (\<lambda>k src. \<exists>a. dict_get ?am k = Some a \<and> table_source_of model k a = Inr src) datasets
      (sl_from s # map jc_source (sl_joins s))"
    using parts(2,3) by (simp add: datasets_def list.rel_map del: upt_Suc)
  have one: "list_all2 (\<lambda>k src. table_source_of model k (fs_alias src) = Inr src) datasets
      (sl_from s # map jc_source (sl_joins s))"
    using srcs source_alias by (fastforce elim!: list_all2_mono)
  have two: "map fs_alias (sl_from s # map jc_source (sl_joins s)) = map numbered_alias [0..<length datasets]"
  proof (rule nth_equalityI)
    show "length (map fs_alias (sl_from s # map jc_source (sl_joins s))) = length (map numbered_alias [0..<length datasets])"
      using list_all2_lengthD [OF srcs] by simp
    fix i assume "i < length (map fs_alias (sl_from s # map jc_source (sl_joins s)))"
    then have i: "i < length datasets" using list_all2_lengthD [OF srcs] by simp
    from list_all2_nthD [OF srcs i] at [OF i] source_alias
    have "fs_alias ((sl_from s # map jc_source (sl_joins s)) ! i) = numbered_alias i" by fastforce
    then show "map fs_alias (sl_from s # map jc_source (sl_joins s)) ! i = map numbered_alias [0..<length datasets] ! i"
      using i list_all2_lengthD [OF srcs] by (simp only: nth_map length_map length_upt nth_upt) simp
  qed
  have req: "set (collect_required_datasets ?rv m) \<subseteq> set datasets"
    using tree(3) by (auto simp: required_with_base_def Let_def datasets_def joined_by_def split: if_splits)
  show ?thesis
    using m tree(2) req one two parts(1) by (intro exI [of _ m] exI [of _ datasets]) (simp add: datasets_def)
qed


section \<open>The selected columns of a translated query\<close>













section \<open>Queries over metrics only\<close>

text \<open>A metric's key names no dataset, and the datasets of its expression are not looked at when the
  base is chosen.\<close>

lemma no_point_no_prefix: "CHR ''.'' \<notin> set s \<Longrightarrow> dataset_prefixes n b s = []"
proof (induction n b s rule: dataset_prefixes.induct)
  case (3 prior c s)
  have "\<not> prefix ''.'' (drop n (c # s))" for n
    using 3(3) by (metis prefixE append_Cons in_set_dropD list.set_intros(1))
  with 3 show ?case by (simp add: Let_def)
qed auto

lemma metric_only_queries_are_rejected:
  assumes "resolve_members tq (translate_dialect dialect) (build_resolver model) q = Inr m"
    and "mb_dimensions m = []" "mb_times m = []" "mb_measures m = []" "mb_filters m = []" "mb_segments m = []"
    and "\<forall>x \<in> set (mb_metrics m). CHR ''.'' \<notin> set (mt_key x)"
  shows "translate tq q model dialect = Inl No_Tables"
  by (cases "mb_metrics m") (simp_all add: assms translate_def Let_def choose_base_dataset_def datasets_from_expression_def no_point_no_prefix)


section \<open>What a filter keeps\<close>

text \<open>
  SQL's three truth values for a condition, with the values of terms and literals, the truth of a
  date range or a boolean expression and the relation of LIKE given: an undefined operand makes a
  comparison undefined.
\<close>

record ('x, 'v) sql_row =
  row_term :: "'x sterm \<Rightarrow> 'v option"
  row_expr :: "'x sexpr \<Rightarrow> 'v option"
  row_holds :: "'x sexpr \<Rightarrow> bool option"
  row_like :: "'v \<Rightarrow> 'v \<Rightarrow> bool"

definition compare_values :: "('v \<Rightarrow> 'v \<Rightarrow> bool) \<Rightarrow> 'v option \<Rightarrow> 'v option \<Rightarrow> bool option" where
  "compare_values f a b = Option.bind a (\<lambda>x. map_option (f x) b)"

definition sql_in :: "'v option \<Rightarrow> 'v option list \<Rightarrow> bool option" where
  "sql_in a bs = (if bs = [] then Some False else case a of
     None \<Rightarrow> None
   | Some x \<Rightarrow> if Some x \<in> set bs then Some True else if None \<in> set bs then None else Some False)"

fun condition_value :: "('x, 'v :: linorder) sql_row \<Rightarrow> 'x qcond \<Rightarrow> bool option" where
  "condition_value r (C_Range e) = row_holds r e"
| "condition_value r (C_Term t) = row_holds r (E_Column t)"
| "condition_value r (C_EQ t e) = compare_values (=) (row_term r t) (row_expr r e)"
| "condition_value r (C_NEQ t e) = compare_values (\<noteq>) (row_term r t) (row_expr r e)"
| "condition_value r (C_GT t e) = compare_values (>) (row_term r t) (row_expr r e)"
| "condition_value r (C_GTE t e) = compare_values (\<ge>) (row_term r t) (row_expr r e)"
| "condition_value r (C_LT t e) = compare_values (<) (row_term r t) (row_expr r e)"
| "condition_value r (C_LTE t e) = compare_values (\<le>) (row_term r t) (row_expr r e)"
| "condition_value r (C_In t es) = sql_in (row_term r t) (map (row_expr r) es)"
| "condition_value r (C_Like t e) = compare_values (row_like r) (row_term r t) (row_expr r e)"
| "condition_value r (C_Is_Null t) = Some (row_term r t = None)"
| "condition_value r (C_Not c) = map_option Not (condition_value r c)"

definition opposite_operators :: "(string \<times> string) list" where
  "opposite_operators =
     [(''equals'', ''notequals''), (''contains'', ''notcontains''), (''gt'', ''lte''), (''gte'', ''lt''),
      (''afterdate'', ''lte''), (''beforedate'', ''gte''), (''in'', ''notin''), (''notset'', ''set''),
      (''indaterange'', ''notindaterange'')]"

lemma opposite_comparisons:
  fixes a b :: "'v :: linorder option"
  shows "compare_values (\<noteq>) a b = map_option Not (compare_values (=) a b)"
    "compare_values (\<le>) a b = map_option Not (compare_values (>) a b)"
    "compare_values (\<ge>) a b = map_option Not (compare_values (<) a b)"
    "map_option Not (map_option Not z) = z"
  by (cases a; cases b; cases z; auto simp: compare_values_def fun_eq_iff)+

lemma filter_by_operator:
  fixes t :: "'x sterm"
  assumes "py_lower (py_strip op) = o'"
  shows
    "o' = ''equals'' \<Longrightarrow> build_filter_expression d t op vs ty =
      Inr (case map (\<lambda>v. format_literal (L_Text v) ty d) vs of [l] \<Rightarrow> C_EQ t l | _ \<Rightarrow> C_In t (map (\<lambda>v. format_literal (L_Text v) ty d) vs))"
    "o' = ''notequals'' \<Longrightarrow> build_filter_expression d t op vs ty =
      Inr (case map (\<lambda>v. format_literal (L_Text v) ty d) vs of [l] \<Rightarrow> C_NEQ t l | _ \<Rightarrow> C_Not (C_In t (map (\<lambda>v. format_literal (L_Text v) ty d) vs)))"
    "o' = ''contains'' \<Longrightarrow> build_filter_expression d t op vs ty =
      bindR (first_value vs) (\<lambda>v. Inr (C_Like t (format_literal (L_Text (''%'' @ v @ ''%'')) None d)))"
    "o' = ''notcontains'' \<Longrightarrow> build_filter_expression d t op vs ty =
      bindR (bindR (first_value vs) (\<lambda>v. Inr (C_Like t (format_literal (L_Text (''%'' @ v @ ''%'')) None d)))) (\<lambda>c. Inr (C_Not c))"
    "o' = ''gt'' \<or> o' = ''afterdate'' \<Longrightarrow> build_filter_expression d t op vs ty =
      bindR (first_value vs) (\<lambda>v. Inr (C_GT t (format_literal (L_Text v) ty d)))"
    "o' = ''gte'' \<Longrightarrow> build_filter_expression d t op vs ty = bindR (first_value vs) (\<lambda>v. Inr (C_GTE t (format_literal (L_Text v) ty d)))"
    "o' = ''lt'' \<or> o' = ''beforedate'' \<Longrightarrow> build_filter_expression d t op vs ty =
      bindR (first_value vs) (\<lambda>v. Inr (C_LT t (format_literal (L_Text v) ty d)))"
    "o' = ''lte'' \<Longrightarrow> build_filter_expression d t op vs ty = bindR (first_value vs) (\<lambda>v. Inr (C_LTE t (format_literal (L_Text v) ty d)))"
    "o' = ''in'' \<Longrightarrow> build_filter_expression d t op vs ty = Inr (C_In t (map (\<lambda>v. format_literal (L_Text v) ty d) vs))"
    "o' = ''notin'' \<Longrightarrow> build_filter_expression d t op vs ty = Inr (C_Not (C_In t (map (\<lambda>v. format_literal (L_Text v) ty d) vs)))"
    "o' = ''set'' \<Longrightarrow> build_filter_expression d t op vs ty = Inr (C_Not (C_Is_Null t))"
    "o' = ''notset'' \<Longrightarrow> build_filter_expression d t op vs ty = Inr (C_Is_Null t)"
    "o' = ''indaterange'' \<Longrightarrow> build_filter_expression d t op vs ty = range_condition d t (filter_range vs) ty"
    "o' = ''notindaterange'' \<Longrightarrow> build_filter_expression d t op vs ty =
      bindR (range_condition d t (filter_range vs) ty) (\<lambda>c. Inr (C_Not c))"
  using assms by (auto simp: build_filter_expression_def Let_def )

text \<open>C36: An operator of a filter and its opposite split the rows: whatever the row, the values and the type,
  the two conditions are undefined together, and where they are defined exactly one of them holds.\<close>

theorem opposite_filters_split_rows:
  assumes "(py_lower (py_strip op), py_lower (py_strip op')) \<in> set opposite_operators"
    and "build_filter_expression d t op vs data_type = Inr c"
  shows "\<exists>c'. build_filter_expression d t op' vs data_type = Inr c'
    \<and> (\<forall>r :: ('x, 'v :: linorder) sql_row. condition_value r c' = map_option Not (condition_value r c))"
proof -
  consider
      (c0) "py_lower (py_strip op) = ''equals''" "py_lower (py_strip op') = ''notequals''"
    | (c1) "py_lower (py_strip op) = ''contains''" "py_lower (py_strip op') = ''notcontains''"
    | (c2) "py_lower (py_strip op) = ''gt''" "py_lower (py_strip op') = ''lte''"
    | (c3) "py_lower (py_strip op) = ''gte''" "py_lower (py_strip op') = ''lt''"
    | (c4) "py_lower (py_strip op) = ''afterdate''" "py_lower (py_strip op') = ''lte''"
    | (c5) "py_lower (py_strip op) = ''beforedate''" "py_lower (py_strip op') = ''gte''"
    | (c6) "py_lower (py_strip op) = ''in''" "py_lower (py_strip op') = ''notin''"
    | (c7) "py_lower (py_strip op) = ''notset''" "py_lower (py_strip op') = ''set''"
    | (c8) "py_lower (py_strip op) = ''indaterange''" "py_lower (py_strip op') = ''notindaterange''"
    using assms(1) unfolding opposite_operators_def list.set insert_iff empty_iff prod.inject
    by (elim disjE conjE FalseE; blast)
  then show ?thesis
  proof cases
    case c0
    note f = filter_by_operator(1) [OF c0(1) refl] filter_by_operator(2) [OF c0(2) refl]
    show ?thesis using assms(2) by (auto simp: f opposite_comparisons split: list.split)
  next
    case c1
    note f = filter_by_operator(3) [OF c1(1) refl] filter_by_operator(4) [OF c1(2) refl]
    show ?thesis using assms(2) by (auto simp: f bindR_eq_Inr opposite_comparisons split: list.splits)
  next
    case c2
    note f = filter_by_operator(5) [OF c2(1) disjI1 [OF refl]] filter_by_operator(8) [OF c2(2) refl]
    show ?thesis using assms(2) by (auto simp: f bindR_eq_Inr opposite_comparisons split: list.splits)
  next
    case c3
    note f = filter_by_operator(6) [OF c3(1) refl] filter_by_operator(7) [OF c3(2) disjI1 [OF refl]]
    show ?thesis using assms(2) by (auto simp: f bindR_eq_Inr opposite_comparisons split: list.splits)
  next
    case c4
    note f = filter_by_operator(5) [OF c4(1) disjI2 [OF refl]] filter_by_operator(8) [OF c4(2) refl]
    show ?thesis using assms(2) by (auto simp: f bindR_eq_Inr opposite_comparisons split: list.splits)
  next
    case c5
    note f = filter_by_operator(7) [OF c5(1) disjI2 [OF refl]] filter_by_operator(6) [OF c5(2) refl]
    show ?thesis using assms(2) by (auto simp: f bindR_eq_Inr opposite_comparisons split: list.splits)
  next
    case c6
    note f = filter_by_operator(9) [OF c6(1) refl] filter_by_operator(10) [OF c6(2) refl]
    show ?thesis using assms(2) by (auto simp: f bindR_eq_Inr opposite_comparisons split: list.splits)
  next
    case c7
    note f = filter_by_operator(12) [OF c7(1) refl] filter_by_operator(11) [OF c7(2) refl]
    show ?thesis using assms(2) by (auto simp: f bindR_eq_Inr opposite_comparisons split: list.splits)
  next
    case c8
    note f = filter_by_operator(13) [OF c8(1) refl] filter_by_operator(14) [OF c8(2) refl]
    show ?thesis using assms(2) by (auto simp: f bindR_eq_Inr opposite_comparisons split: list.splits)
  qed
qed


section \<open>Concrete queries\<close>

text \<open>A library for the example: a text with \<open>=\<close> is a comparison of two columns, any other text a column.\<close>

definition demo_column :: "string \<Rightarrow> string option \<times> string" where
  "demo_column s = (case py_split (CHR ''.'') (py_strip s) of [a, b] \<Rightarrow> (Some a, b) | _ \<Rightarrow> (None, py_strip s))"

definition demo_ops :: "(string option \<times> string) list tq_ops" where
  "demo_ops =
     \<lparr>tq_parse = (\<lambda>d s. Some (case py_split (CHR ''='') s of
        [c] \<Rightarrow> T_Column (fst (demo_column c)) (snd (demo_column c)) | cs \<Rightarrow> T_Tree (map demo_column cs))),
      tq_rename = (\<lambda>f. map (requalified f)), tq_columns = (\<lambda>x. x), tq_pick = hd\<rparr>"

definition demo_dimension :: "string \<Rightarrow> string \<Rightarrow> dimension" where
  "demo_dimension n ty = \<lparr>dm_name = n, dm_expression = None, dm_type = ty, dm_primary_key = False, dm_alias = None\<rparr>"

definition demo_model_dataset :: "string \<Rightarrow> dimension list \<Rightarrow> measure list \<Rightarrow> dataset" where
  "demo_model_dataset n ds ms = \<lparr>ds_dataset_id = None, ds_relation_name = Some n, ds_schema_name = Some ''db.app'',
     ds_catalog_name = None, ds_dimensions = ds, ds_measures = ms, ds_filters = []\<rparr>"

definition demo_model :: semantic_model where
  "demo_model =
     \<lparr>sem_dialect = None,
      sem_datasets =
        [(''o'', demo_model_dataset ''orders'' [demo_dimension ''cid'' ''int'', demo_dimension ''day'' ''date'']
            [\<lparr>ms_name = ''amt'', ms_expression = None, ms_type = ''integer'', ms_aggregation = None\<rparr>]),
         (''c'', demo_model_dataset ''customers'' [demo_dimension ''id'' ''int'', demo_dimension ''eu'' ''string''] [])],
      sem_relationships = [\<lparr>rl_name = ''oc'', rl_source_dataset = ''o'', rl_source_field = ''cid'',
         rl_target_dataset = ''c'', rl_target_field = ''id'', rl_operator = ''='', rl_type = Many_To_One\<rparr>],
      sem_metrics = []\<rparr>"

definition demo_query :: semantic_query where
  "demo_query =
     \<lparr>qy_measures = [''o.amt''], qy_dimensions = [''c.eu''],
      qy_time_dimensions = [\<lparr>ti_dimension = ''o.day'', ti_granularity = Some ''month'', ti_range = None\<rparr>],
      qy_filters = [\<lparr>fi_member = Some ''c.eu'', fi_dimension = None, fi_measure = None, fi_time_dimension = None,
         fi_operator = ''Equals'', fi_values = Some [''y'']\<rparr>],
      qy_segments = [], qy_order = Order_Dict [(''o.amt'', Some ''desc'')], qy_limit = Some 5, qy_offset = None\<rparr>"

definition demo_select :: "(string option \<times> string) list select" where
  "demo_select = projr (translate demo_ops demo_query demo_model (Some ''postgres''))"

lemma demo_translated: "translate demo_ops demo_query demo_model (Some ''postgres'') = Inr demo_select"
  by code_simp

lemma demo_ops_ok: "tq_ok demo_ops"
  by (simp add: tq_ok_def demo_ops_def)

theorem translated_query_is_well_scoped_witness:
  "\<exists>m datasets. resolve_members demo_ops (translate_dialect (Some ''postgres'')) (build_resolver demo_model) demo_query = Inr m
     \<and> distinct datasets \<and> set (collect_required_datasets (build_resolver demo_model) m) \<subseteq> set datasets
     \<and> list_all2 (\<lambda>k src. table_source_of demo_model k (fs_alias src) = Inr src) datasets
         (sl_from demo_select # map jc_source (sl_joins demo_select))
     \<and> map fs_alias (sl_from demo_select # map jc_source (sl_joins demo_select))
         = map numbered_alias [0..<length datasets]
     \<and> (\<forall>t \<in> select_terms demo_select.
          term_in_scope demo_ops (zip datasets (map numbered_alias [0..<length datasets])) t)"
  by (rule translated_query_is_well_scoped [OF demo_ops_ok demo_translated])


theorem opposite_filters_split_rows_witness:
  "\<exists>c'. build_filter_expression ''postgres'' (T_Column None ''a'') ''notEquals'' [''x''] None = Inr c'
    \<and> (\<forall>r :: ((string option \<times> string) list, nat) sql_row.
         condition_value r c' = map_option Not (condition_value r (C_EQ (T_Column None ''a'') (E_String ''x''))))"
proof (rule opposite_filters_split_rows [of "''Equals''"])
  show "(py_lower (py_strip ''Equals''), py_lower (py_strip ''notEquals'')) \<in> set opposite_operators" by code_simp
  show "build_filter_expression ''postgres'' (T_Column None ''a'' :: (string option \<times> string) list sterm) ''Equals'' [''x''] None
    = Inr (C_EQ (T_Column None ''a'') (E_String ''x''))"
    by code_simp
qed

lemma metric_only_example:
  "translate demo_ops (demo_query\<lparr>qy_measures := [''avg''], qy_dimensions := [], qy_time_dimensions := [], qy_filters := []\<rparr>)
     (demo_model\<lparr>sem_metrics := [(''avg'', ''o.amt'')]\<rparr>) None = Inl No_Tables"
  by code_simp

end
