(* ===== verification/Resource_Paths.thy ===== *)
theory Resource_Paths
  imports Prelude
begin

text \<open>
  Paths into the nested records of API connectors (\<open>connectors/base/resource_paths.py\<close>): a path
  names a list or an object inside the records of a root resource; its rows are the flat
  columns of the objects found there, with the chosen child objects flattened. Values are JSON;
  a float is the text that Python prints.
\<close>

datatype json =
    J_Null
  | J_Bool bool
  | J_Int int
  | J_Float string
  | J_Str string
  | J_List "json list"
  | J_Obj "(string \<times> json) list"

datatype path_error =
    Empty_Resource_Path
  | Path_Missing string
  | Path_Inconsistent string
  | Cannot_Flatten string
  | Unhashable_Identity

datatype cardinality = One | Many

record child_resource =
  cr_name :: string
  cr_path :: string
  cr_parent_path :: string
  cr_cardinality :: cardinality
  cr_supports_flattening :: bool
  cr_addressable :: bool

type_synonym json_row = "(string, json) dict"

record materialized_rows =
  mr_resource_path :: string
  mr_root_resource :: string
  mr_parent_path :: "string option"
  mr_cardinality :: cardinality
  mr_rows :: "json_row list"
  mr_child_resources :: "child_resource list"

record traversal_node =
  tn_value :: json
  tn_parent_id :: json
  tn_current_id :: json
  tn_child_index :: "nat option"

section \<open>Paths\<close>

definition dot :: char where
  "dot = CHR ''.''"

definition path_segments :: "string \<Rightarrow> string list" where
  "path_segments p = filter (\<lambda>s. s \<noteq> []) (map py_strip (py_split dot p))"

definition normalize_api_resource_path :: "string \<Rightarrow> (path_error, string) result" where
  "normalize_api_resource_path p =
     (if path_segments p = [] then Inl Empty_Resource_Path else Inr (py_join [dot] (path_segments p)))"

definition api_resource_root :: "string \<Rightarrow> (path_error, string) result" where
  "api_resource_root p = bindR (normalize_api_resource_path p) (\<lambda>n. Inr (takeWhile (\<lambda>c. c \<noteq> dot) n))"

definition api_parent_resource_path :: "string \<Rightarrow> (path_error, string option) result" where
  "api_parent_resource_path p = bindR (normalize_api_resource_path p) (\<lambda>n.
     Inr (if dot \<notin> set n then None else Some (py_join [dot] (butlast (py_split dot n)))))"

fun flatten_paths_from :: "string list \<Rightarrow> string list \<Rightarrow> (path_error, string list) result" where
  "flatten_paths_from acc [] = Inr acc"
| "flatten_paths_from acc (p # ps) =
     bindR (normalize_api_resource_path p) (\<lambda>n.
       flatten_paths_from (if n \<in> set acc then acc else acc @ [n]) ps)"

definition normalize_api_flatten_paths :: "string list option \<Rightarrow> (path_error, string list) result" where
  "normalize_api_flatten_paths ps = flatten_paths_from [] (case ps of None \<Rightarrow> [] | Some xs \<Rightarrow> xs)"

section \<open>Child resources\<close>

definition make_child :: "string \<Rightarrow> string \<Rightarrow> cardinality \<Rightarrow> child_resource" where
  "make_child parent name c =
     \<lparr>cr_name = name, cr_path = parent @ dot # name, cr_parent_path = parent, cr_cardinality = c,
      cr_supports_flattening = (c = One), cr_addressable = True\<rparr>"

type_synonym children = "(string, child_resource) dict"

text \<open>The descriptors of a value, of the entries of an object and of the items of a list.\<close>

fun collect_child_resources :: "string \<Rightarrow> json \<Rightarrow> children \<Rightarrow> children"
  and collect_entries :: "string \<Rightarrow> (string \<times> json) list \<Rightarrow> children \<Rightarrow> children"
  and collect_items :: "string \<Rightarrow> json list \<Rightarrow> children \<Rightarrow> children" where
  "collect_child_resources parent (J_Obj kvs) ds = collect_entries parent kvs ds"
| "collect_child_resources parent v ds = ds"
| "collect_entries parent [] ds = ds"
| "collect_entries parent ((k, v) # kvs) ds =
     (let name = py_strip k; path = parent @ dot # name
      in if name = [] then collect_entries parent kvs ds
         else collect_entries parent kvs
           (case v of
              J_List xs \<Rightarrow> collect_items path xs (dict_set ds path (make_child parent name Many))
            | J_Obj _ \<Rightarrow> collect_child_resources path v (dict_set ds path (make_child parent name One))
            | _ \<Rightarrow> ds))"
| "collect_items path [] ds = ds"
| "collect_items path (x # xs) ds = collect_items path xs (collect_child_resources path x ds)"

definition describe_api_child_resources ::
  "string \<Rightarrow> json list \<Rightarrow> (path_error, child_resource list) result" where
  "describe_api_child_resources p records =
     bindR (normalize_api_resource_path p) (\<lambda>n.
       Inr (sort_key cr_path (dict_values (collect_items n records []))))"

section \<open>Descending along a path\<close>

text \<open>\<open>x in {None, ""}\<close> hashes \<open>x\<close>, which raises for lists and objects.\<close>

definition blank_identity :: "json \<Rightarrow> (path_error, bool) result" where
  "blank_identity v =
     (case v of J_List _ \<Rightarrow> Inl Unhashable_Identity | J_Obj _ \<Rightarrow> Inl Unhashable_Identity
      | J_Null \<Rightarrow> Inr True | J_Str s \<Rightarrow> Inr (s = []) | _ \<Rightarrow> Inr False)"

definition json_get :: "(string \<times> json) list \<Rightarrow> string \<Rightarrow> json" where
  "json_get kvs k = (case dict_get kvs k of None \<Rightarrow> J_Null | Some v \<Rightarrow> v)"

fun initial_nodes_from :: "string \<Rightarrow> nat \<Rightarrow> json list \<Rightarrow> (path_error, traversal_node list) result" where
  "initial_nodes_from key n [] = Inr []"
| "initial_nodes_from key n (v # vs) =
     (case v of
        J_Obj kvs \<Rightarrow>
          bindR (blank_identity (json_get kvs key)) (\<lambda>blank.
          bindR (initial_nodes_from key (Suc n) vs) (\<lambda>rest.
            Inr (\<lparr>tn_value = v, tn_parent_id = J_Null,
                  tn_current_id = (if blank then J_Int (int n) else json_get kvs key),
                  tn_child_index = None\<rparr> # rest)))
      | _ \<Rightarrow> initial_nodes_from key (Suc n) vs)"

definition initial_traversal_nodes ::
  "json list \<Rightarrow> string option \<Rightarrow> (path_error, traversal_node list) result" where
  "initial_traversal_nodes records primary_key =
     initial_nodes_from (case primary_key of Some (c # cs) \<Rightarrow> c # cs | _ \<Rightarrow> ''id'') 0 records"

definition coerce_child_identity :: "json \<Rightarrow> json \<Rightarrow> (path_error, json) result" where
  "coerce_child_identity v fallback =
     (case v of
        J_Obj kvs \<Rightarrow> bindR (blank_identity (json_get kvs ''id'')) (\<lambda>blank.
          Inr (if blank then fallback else json_get kvs ''id''))
      | _ \<Rightarrow> Inr fallback)"

definition child_node :: "traversal_node \<Rightarrow> nat option \<Rightarrow> json \<Rightarrow> (path_error, traversal_node) result" where
  "child_node node i v =
     bindR (coerce_child_identity v (tn_current_id node)) (\<lambda>c.
       Inr \<lparr>tn_value = v, tn_parent_id = tn_current_id node, tn_current_id = c, tn_child_index = i\<rparr>)"

text \<open>The nodes below one node, and the cardinality that was seen.\<close>

definition children_of ::
  "string \<Rightarrow> traversal_node \<Rightarrow> (path_error, traversal_node list \<times> cardinality list) result" where
  "children_of segment node =
     (case tn_value node of
        J_Obj kvs \<Rightarrow>
          (case json_get kvs segment of
             J_Null \<Rightarrow> Inr ([], [])
           | J_List xs \<Rightarrow>
               bindR (mapR (\<lambda>(i, x). child_node node (Some i) x) (enumerate 0 xs)) (\<lambda>ns. Inr (ns, [Many]))
           | v \<Rightarrow> bindR (child_node node None v) (\<lambda>n. Inr ([n], [One])))
      | _ \<Rightarrow> Inr ([], []))"

definition descend_traversal_nodes ::
  "traversal_node list \<Rightarrow> string \<Rightarrow> string \<Rightarrow> (path_error, traversal_node list \<times> cardinality) result" where
  "descend_traversal_nodes nodes segment step_path =
     bindR (mapR (children_of segment) nodes) (\<lambda>parts.
       let next_nodes = concat (map fst parts); seen = remdups (concat (map snd parts))
       in if next_nodes = [] \<and> nodes \<noteq> [] then Inl (Path_Missing step_path)
          else if length seen > 1 then Inl (Path_Inconsistent step_path)
          else Inr (next_nodes, case seen of [] \<Rightarrow> One | c # _ \<Rightarrow> c))"

fun descend_path ::
  "string \<Rightarrow> string list \<Rightarrow> traversal_node list \<Rightarrow> cardinality
   \<Rightarrow> (path_error, traversal_node list \<times> cardinality) result" where
  "descend_path done_path [] nodes c = Inr (nodes, c)"
| "descend_path done_path (seg # segs) nodes c =
     (let step_path = done_path @ dot # seg
      in bindR (descend_traversal_nodes nodes seg step_path) (\<lambda>(nodes', c').
           descend_path step_path segs nodes' c'))"

section \<open>Rows\<close>

fun flatten_mapping :: "string \<Rightarrow> (string \<times> json) list \<Rightarrow> json_row \<Rightarrow> (path_error, json_row) result" where
  "flatten_mapping field_prefix [] row = Inr row"
| "flatten_mapping field_prefix ((k, v) # kvs) row =
     (let name = py_strip k; column = field_prefix @ ''__'' @ name
      in if name = [] then flatten_mapping field_prefix kvs row
         else case v of
             J_Obj sub \<Rightarrow> bindR (flatten_mapping column sub row) (flatten_mapping field_prefix kvs)
           | J_List _ \<Rightarrow> Inl (Cannot_Flatten (py_replace ''__'' ''.'' field_prefix))
           | _ \<Rightarrow> flatten_mapping field_prefix kvs (dict_set row column v))"

fun materialize_entries ::
  "string list \<Rightarrow> string \<Rightarrow> (string \<times> json) list \<Rightarrow> json_row \<Rightarrow> (path_error, json_row) result" where
  "materialize_entries flatten selected [] row = Inr row"
| "materialize_entries flatten selected ((k, v) # kvs) row =
     (let name = py_strip k;
          next_selected = (if selected = [] then name else selected @ dot # name);
          field_prefix = (if selected = [] then name else py_replace ''.'' ''__'' selected @ ''__'' @ name)
      in if name = [] then materialize_entries flatten selected kvs row
         else case v of
             J_Obj sub \<Rightarrow>
               if next_selected \<in> set flatten
               then bindR (flatten_mapping field_prefix sub row) (materialize_entries flatten selected kvs)
               else materialize_entries flatten selected kvs row
           | J_List _ \<Rightarrow>
               if next_selected \<in> set flatten then Inl (Cannot_Flatten next_selected)
               else materialize_entries flatten selected kvs row
           | _ \<Rightarrow> materialize_entries flatten selected kvs
               (dict_set row (if selected = [] then name else field_prefix) v))"

definition materialize_value :: "string list \<Rightarrow> string \<Rightarrow> json \<Rightarrow> (path_error, json_row) result" where
  "materialize_value flatten selected v =
     (case v of J_Obj kvs \<Rightarrow> materialize_entries flatten selected kvs [] | _ \<Rightarrow> Inr [(''value'', v)])"

definition materialize_node ::
  "string list \<Rightarrow> bool \<Rightarrow> traversal_node \<Rightarrow> (path_error, json_row) result" where
  "materialize_node flatten relative node =
     bindR (materialize_value flatten [] (tn_value node)) (\<lambda>row.
       Inr (if \<not> relative then row
            else let row1 = dict_set row ''_parent_id'' (tn_parent_id node)
              in case tn_child_index node of None \<Rightarrow> row1
                 | Some i \<Rightarrow> dict_set row1 ''_child_index'' (J_Int (int i))))"

definition is_object :: "json \<Rightarrow> bool" where
  "is_object v = (case v of J_Obj _ \<Rightarrow> True | _ \<Rightarrow> False)"

definition materialize_api_resource_rows ::
  "string \<Rightarrow> json list \<Rightarrow> string option \<Rightarrow> string list option \<Rightarrow> (path_error, materialized_rows) result" where
  "materialize_api_resource_rows p records primary_key flatten =
     bindR (normalize_api_resource_path p) (\<lambda>path.
     bindR (normalize_api_flatten_paths flatten) (\<lambda>flatten_paths.
     bindR (api_resource_root path) (\<lambda>root.
     bindR (api_parent_resource_path path) (\<lambda>parent.
     let segments = tl (py_split dot path) in
     bindR (initial_traversal_nodes records primary_key) (\<lambda>nodes0.
     bindR (descend_path root segments nodes0 Many) (\<lambda>(nodes, c).
     bindR (mapR (materialize_node flatten_paths (segments \<noteq> [])) nodes) (\<lambda>rows.
     bindR (describe_api_child_resources path (filter is_object (map tn_value nodes))) (\<lambda>children.
       Inr \<lparr>mr_resource_path = path, mr_root_resource = root, mr_parent_path = parent,
            mr_cardinality = c, mr_rows = rows, mr_child_resources = children\<rparr>))))))))"

section \<open>Rows are flat\<close>

definition scalar :: "json \<Rightarrow> bool" where
  "scalar v = (case v of J_List _ \<Rightarrow> False | J_Obj _ \<Rightarrow> False | _ \<Rightarrow> True)"

text \<open>Every column but the one that holds a value that is no object is a scalar.\<close>

definition flat_row :: "json_row \<Rightarrow> bool" where
  "flat_row row = list_all (\<lambda>(k, v). k = ''value'' \<or> scalar v) row"

definition all_scalar :: "json_row \<Rightarrow> bool" where
  "all_scalar row = list_all (\<lambda>(k, v). scalar v) row"

lemma all_scalar_set: "\<lbrakk>all_scalar row; scalar v\<rbrakk> \<Longrightarrow> all_scalar (dict_set row k v)"
  by (auto simp: all_scalar_def list_all_iff dest!: in_dict_set_cases)

lemma flat_row_set: "\<lbrakk>flat_row row; scalar v\<rbrakk> \<Longrightarrow> flat_row (dict_set row k v)"
  by (auto simp: flat_row_def list_all_iff dest!: in_dict_set_cases)

lemma all_scalar_flat: "all_scalar row \<Longrightarrow> flat_row row"
  by (auto simp: flat_row_def all_scalar_def list_all_iff)

lemma flatten_mapping_scalar:
  "\<lbrakk>flatten_mapping pre kvs row = Inr row'; all_scalar row\<rbrakk> \<Longrightarrow> all_scalar row'"
proof (induction pre kvs row arbitrary: row' rule: flatten_mapping.induct)
  case (2 pre k v kvs row)
  show ?case
  proof (cases "py_strip k = []")
    case True
    with 2 show ?thesis by simp
  next
    case False
    show ?thesis
    proof (cases v)
      case (J_Obj sub)
      with "2.prems"(1) False obtain r where r: "flatten_mapping (pre @ ''__'' @ py_strip k) sub row = Inr r"
          "flatten_mapping pre kvs r = Inr row'"
        by (auto simp: Let_def bindR_eq_Inr)
      have "all_scalar r" by (rule "2.IH"(7) [OF refl refl False J_Obj r(1) "2.prems"(2)])
      then show ?thesis by (rule "2.IH"(8) [OF refl refl False J_Obj r(2)])
    qed (use 2 False in \<open>simp_all add: all_scalar_set scalar_def\<close>)
  qed
qed simp

lemma materialize_entries_scalar:
  "\<lbrakk>materialize_entries fl sel kvs row = Inr row'; all_scalar row\<rbrakk> \<Longrightarrow> all_scalar row'"
proof (induction kvs arbitrary: row)
  case (Cons kv kvs)
  obtain k v where kv: "kv = (k, v)" by (cases kv)
  show ?case
  proof (cases "py_strip k = []")
    case True
    with Cons kv show ?thesis by simp
  next
    case False
    show ?thesis
    proof (cases v)
      case (J_Obj sub)
      with Cons kv False show ?thesis
        by (auto simp: Let_def bindR_eq_Inr split: if_splits intro: flatten_mapping_scalar)
    qed (use Cons kv False in \<open>auto simp: Let_def all_scalar_set scalar_def split: if_splits\<close>)
  qed
qed simp

lemma materialize_value_flat: "materialize_value fl sel v = Inr row \<Longrightarrow> flat_row row"
proof (cases v)
  case (J_Obj kvs)
  moreover assume "materialize_value fl sel v = Inr row"
  ultimately have "all_scalar row"
    using materialize_entries_scalar [of fl sel kvs "[]" row] by (simp add: materialize_value_def all_scalar_def)
  then show ?thesis by (rule all_scalar_flat)
qed (auto simp: materialize_value_def flat_row_def)

definition scalar_ids :: "traversal_node \<Rightarrow> bool" where
  "scalar_ids n = (scalar (tn_parent_id n) \<and> scalar (tn_current_id n))"

lemma blank_identity_scalar: "blank_identity v = Inr b \<Longrightarrow> scalar v"
  by (cases v) (simp_all add: blank_identity_def scalar_def)

lemma initial_nodes_scalar: "initial_nodes_from key n vs = Inr ns \<Longrightarrow> list_all scalar_ids ns"
proof (induction vs arbitrary: n ns)
  case (Cons v vs)
  show ?case
  proof (cases v)
    case (J_Obj kvs)
    with Cons.prems obtain b rest where b: "blank_identity (json_get kvs key) = Inr b"
        "initial_nodes_from key (Suc n) vs = Inr rest"
        "ns = \<lparr>tn_value = v, tn_parent_id = J_Null, tn_current_id = (if b then J_Int (int n) else json_get kvs key),
            tn_child_index = None\<rparr> # rest"
      by (auto simp: bindR_eq_Inr)
    with Cons.IH [OF b(2)] blank_identity_scalar [OF b(1)] show ?thesis
      by (simp add: scalar_ids_def scalar_def)
  qed (use Cons in simp_all)
qed simp

lemma child_node_scalar: "\<lbrakk>child_node node i v = Inr n; scalar_ids node\<rbrakk> \<Longrightarrow> scalar_ids n"
proof (cases v)
  case (J_Obj kvs)
  moreover assume "child_node node i v = Inr n" "scalar_ids node"
  ultimately show ?thesis
    by (auto simp: child_node_def coerce_child_identity_def scalar_ids_def bindR_eq_Inr
        dest: blank_identity_scalar)
qed (auto simp: child_node_def coerce_child_identity_def scalar_ids_def)

lemma children_of_scalar:
  assumes "children_of seg node = Inr (ns, cs)" "scalar_ids node"
  shows "list_all scalar_ids ns"
proof (cases "tn_value node")
  case (J_Obj kvs)
  show ?thesis
  proof (cases "json_get kvs seg")
    case (J_List xs)
    with assms J_Obj have "mapR (\<lambda>(i, x). child_node node (Some i) x) (enumerate 0 xs) = Inr ns"
      by (auto simp: children_of_def bindR_eq_Inr)
    then have "list_all2 (\<lambda>ix n. child_node node (Some (fst ix)) (snd ix) = Inr n) (enumerate 0 xs) ns"
      by (simp add: mapR_Inr_iff case_prod_unfold)
    then show ?thesis
      using child_node_scalar [OF _ assms(2)]
      by (fastforce simp: list_all_length list_all2_conv_all_nth)
  qed (use assms J_Obj child_node_scalar [OF _ assms(2)] in \<open>auto simp: children_of_def bindR_eq_Inr\<close>)
qed (use assms in \<open>auto simp: children_of_def\<close>)

lemma descend_nodes_scalar:
  assumes "descend_traversal_nodes nodes seg p = Inr (nodes', c)" "list_all scalar_ids nodes"
  shows "list_all scalar_ids nodes'"
proof -
  obtain parts where parts: "mapR (children_of seg) nodes = Inr parts" "nodes' = concat (map fst parts)"
    using assms(1) by (auto simp: descend_traversal_nodes_def Let_def bindR_eq_Inr split: if_splits)
  then have "list_all2 (\<lambda>n p. children_of seg n = Inr p) nodes parts" by (simp add: mapR_Inr_iff)
  then have "list_all (\<lambda>p. list_all scalar_ids (fst p)) parts"
    using assms(2) by (induction rule: list_all2_induct) (auto dest: children_of_scalar)
  with parts(2) show ?thesis by (auto simp: list_all_iff)
qed

lemma descend_path_scalar:
  "\<lbrakk>descend_path pre segs nodes c = Inr (nodes', c'); list_all scalar_ids nodes\<rbrakk> \<Longrightarrow> list_all scalar_ids nodes'"
proof (induction segs arbitrary: pre nodes c)
  case (Cons seg segs)
  then obtain n1 c1 where "descend_traversal_nodes nodes seg (pre @ dot # seg) = Inr (n1, c1)"
      "descend_path (pre @ dot # seg) segs n1 c1 = Inr (nodes', c')"
    by (auto simp: Let_def bindR_eq_Inr)
  with Cons.IH descend_nodes_scalar Cons.prems(2) show ?case by blast
qed simp

lemma materialize_node_flat:
  assumes "materialize_node fl rel node = Inr row" "scalar_ids node"
  shows "flat_row row"
proof -
  obtain r where "materialize_value fl [] (tn_value node) = Inr r"
      "row = (if \<not> rel then r else let row1 = dict_set r ''_parent_id'' (tn_parent_id node)
        in case tn_child_index node of None \<Rightarrow> row1
           | Some i \<Rightarrow> dict_set row1 ''_child_index'' (J_Int (int i)))"
    using assms(1) by (auto simp: materialize_node_def bindR_eq_Inr)
  with assms(2) materialize_value_flat show ?thesis
    by (auto simp: Let_def scalar_ids_def scalar_def intro!: flat_row_set split: option.split)
qed

text \<open>C23: Every row that a resource path yields is flat: all its columns are scalars, identifiers of
  parents included, but for the column that carries a value which is no object. So child objects
  appear only as flattened columns and lists do not appear at all.\<close>

theorem materialized_rows_are_flat:
  assumes "materialize_api_resource_rows p records pk fl = Inr m"
  shows "list_all flat_row (mr_rows m)"
proof -
  obtain path flatten root nodes0 nodes c rows where
      "initial_traversal_nodes records pk = Inr nodes0"
      "descend_path root (tl (py_split dot path)) nodes0 Many = Inr (nodes, c)"
      "mapR (materialize_node flatten (tl (py_split dot path) \<noteq> [])) nodes = Inr rows" "mr_rows m = rows"
    using assms unfolding materialize_api_resource_rows_def Let_def
    by (auto simp: bindR_eq_Inr case_prod_unfold)
  then have "list_all2 (\<lambda>n r. materialize_node flatten (tl (py_split dot path) \<noteq> []) n = Inr r) nodes (mr_rows m)"
      "list_all scalar_ids nodes"
    using descend_path_scalar initial_nodes_scalar
    by (auto simp: mapR_Inr_iff initial_traversal_nodes_def)
  then show ?thesis
    by (induction rule: list_all2_induct) (auto dest: materialize_node_flat)
qed

definition ex_records :: "json list" where
  "ex_records = [J_Obj [(''id'', J_Int 7), (''a'', J_Obj [(''b'', J_Str ''x'')]), (''items'', J_List [])]]"

lemma ex_rows: "case materialize_api_resource_rows ''r'' ex_records None (Some [''a'']) of
    Inl _ \<Rightarrow> False | Inr m \<Rightarrow> mr_rows m = [[(''id'', J_Int 7), (''a__b'', J_Str ''x'')]]"
  by code_simp

theorem materialized_rows_are_flat_witness:
  "flat_row [(''id'', J_Int 7), (''a__b'', J_Str ''x'')]"
proof -
  obtain m where "materialize_api_resource_rows ''r'' ex_records None (Some [''a'']) = Inr m"
      "mr_rows m = [[(''id'', J_Int 7), (''a__b'', J_Str ''x'')]]"
    using ex_rows by (auto split: sum.splits)
  with materialized_rows_are_flat [OF this(1)] show ?thesis by simp
qed

text \<open>A child that is described, since every record has a list for it, is reported as missing when all
  these lists are empty.\<close>

lemma empty_child_lists_are_missing:
  "is_ok (describe_api_child_resources ''r'' ex_records)
   \<and> (case describe_api_child_resources ''r'' ex_records of
        Inl _ \<Rightarrow> False | Inr cs \<Rightarrow> ''r.items'' \<in> set (map cr_path cs))
   \<and> (case materialize_api_resource_rows ''r.items'' ex_records None None of
        Inl e \<Rightarrow> e = Path_Missing ''r.items'' | Inr _ \<Rightarrow> False)"
  by code_simp

end
