(* ===== verification/Sync_Rows.thy ===== *)
theory Sync_Rows
  imports Resource_Paths Sql_Utils
begin

text \<open>
  The rows of a synchronised dataset (\<open>runtime/services/dataset_sync_service.py\<close>): identities of
  rows, merging of stored with new rows, the types of the columns that are written, cursors and
  schema drift. Values are JSON; a value of another Python type that a database driver returns
  is the text that Python prints for it. Arrow is a record of its operations: building a table
  from rows (which may refuse them), its schema and its rows. The conversion of an integer
  to a float is a parameter, since it rounds and may overflow.
\<close>

section \<open>Printing values\<close>

text \<open>\<open>repr\<close> of a text: the quote that the text does not need escaped, and escapes for
  backslashes, that quote and characters that are not printable.\<close>

definition hex_digit :: "nat \<Rightarrow> char" where
  "hex_digit n = (if n < 10 then char_of (n + 48) else char_of (n + 87))"

definition repr_char :: "char \<Rightarrow> char \<Rightarrow> string" where
  "repr_char q c = (let n = (of_char c :: nat); bs = CHR 0x5C in
     if c = q \<or> c = bs then [bs, c]
     else if n = 10 then [bs, CHR ''n''] else if n = 13 then [bs, CHR ''r'']
     else if n = 9 then [bs, CHR ''t'']
     else if n < 32 \<or> (127 \<le> n \<and> n \<le> 160) \<or> n = 173
       then [bs, CHR ''x'', hex_digit (n div 16), hex_digit (n mod 16)]
     else [c])"

definition repr_text :: "string \<Rightarrow> string" where
  "repr_text s =
     (let q = (if CHR 0x27 \<in> set s \<and> CHR 0x22 \<notin> set s then CHR 0x22 else CHR 0x27)
      in q # concat (map (repr_char q) s) @ [q])"

fun py_repr :: "json \<Rightarrow> string" where
  "py_repr J_Null = ''None''"
| "py_repr (J_Bool b) = (if b then ''True'' else ''False'')"
| "py_repr (J_Int n) = py_str_int n"
| "py_repr (J_Float f) = f"
| "py_repr (J_Str s) = repr_text s"
| "py_repr (J_List xs) = ''['' @ py_join '', '' (map py_repr xs) @ '']''"
| "py_repr (J_Obj kvs) = ''{'' @ py_join '', '' (map (\<lambda>(k, v). repr_text k @ '': '' @ py_repr v) kvs) @ ''}''"

definition py_str :: "json \<Rightarrow> string" where
  "py_str v = (case v of J_Str s \<Rightarrow> s | _ \<Rightarrow> py_repr v)"

text \<open>\<open>row.get(column)\<close>\<close>

definition row_get :: "json_row \<Rightarrow> string \<Rightarrow> json" where
  "row_get row c = (case dict_get row c of None \<Rightarrow> J_Null | Some v \<Rightarrow> v)"

section \<open>Identities and keys\<close>

definition row_identity :: "string \<Rightarrow> json_row \<Rightarrow> string option" where
  "row_identity primary_key row =
     (if primary_key = ''_child_identity''
      then (case (row_get row ''_parent_id'', row_get row ''_child_index'') of
          (J_Null, _) \<Rightarrow> None
        | (_, J_Null) \<Rightarrow> None
        | (p, i) \<Rightarrow> Some (py_str p @ '':'' @ py_str i))
      else (case row_get row primary_key of
          J_Null \<Rightarrow> None
        | v \<Rightarrow> if py_strip (py_str v) = [] then None else Some (py_str v)))"

definition child_primary_key :: "json_row list \<Rightarrow> string option" where
  "child_primary_key rows =
     (if list_ex (\<lambda>r. dict_has r ''id'') rows then Some ''id''
      else if list_ex (\<lambda>r. dict_has r ''_parent_id'') rows \<and> list_ex (\<lambda>r. dict_has r ''_child_index'') rows
        then Some ''_child_identity''
      else if list_ex (\<lambda>r. dict_has r ''_parent_id'') rows then Some ''_parent_id''
      else None)"

definition materialization_primary_key ::
  "string \<Rightarrow> string \<Rightarrow> string option \<Rightarrow> json_row list \<Rightarrow> string option" where
  "materialization_primary_key resource_path root_name root_primary_key rows =
     (if resource_path = root_name then root_primary_key else child_primary_key rows)"

section \<open>Merging\<close>

text \<open>One pass of the loops: the rows with an identity, and the others.\<close>

type_synonym merge_state = "(string, json_row) dict \<times> json_row list"

definition merge_row :: "string \<Rightarrow> merge_state \<Rightarrow> json_row \<Rightarrow> merge_state" where
  "merge_row primary_key = (\<lambda>(merged, extras) row.
     case row_identity primary_key row of
       None \<Rightarrow> (merged, extras @ [row])
     | Some k \<Rightarrow> (dict_set merged k row, extras))"

definition merge_rows :: "json_row list \<Rightarrow> json_row list \<Rightarrow> string option \<Rightarrow> bool \<Rightarrow> json_row list" where
  "merge_rows existing_rows new_rows primary_key full_refresh =
     (if full_refresh then new_rows
      else case primary_key of
          Some (c # cs) \<Rightarrow>
            (case foldl (merge_row (c # cs)) ([], []) (existing_rows @ new_rows) of
               (merged, extras) \<Rightarrow> dict_values merged @ extras)
        | _ \<Rightarrow> existing_rows @ new_rows)"

section \<open>Column types\<close>

datatype category = Cat_Int | Cat_Float | Cat_Bool | Cat_String

definition value_category :: "json \<Rightarrow> category option" where
  "value_category v =
     (case v of J_Null \<Rightarrow> None | J_Bool _ \<Rightarrow> Some Cat_Bool | J_Int _ \<Rightarrow> Some Cat_Int
      | J_Float _ \<Rightarrow> Some Cat_Float | _ \<Rightarrow> Some Cat_String)"

datatype sync_row_error = Float_Overflow int | Not_Arrow | Bad_Digits string

definition all_columns :: "json_row list \<Rightarrow> string list" where
  "all_columns rows = py_sorted_set (concat (map dict_keys rows))"

definition categories :: "json_row list \<Rightarrow> string \<Rightarrow> category set" where
  "categories rows c = set (List.map_filter (\<lambda>row. value_category (row_get row c)) rows)"

definition to_float :: "(int \<Rightarrow> string option) \<Rightarrow> json \<Rightarrow> (sync_row_error, json) result" where
  "to_float float_text v =
     (case v of
        J_Int n \<Rightarrow> (case float_text n of None \<Rightarrow> Inl (Float_Overflow n) | Some f \<Rightarrow> Inr (J_Float f))
      | _ \<Rightarrow> Inr v)"

definition normalize_value ::
  "(int \<Rightarrow> string option) \<Rightarrow> category set \<Rightarrow> json \<Rightarrow> (sync_row_error, json) result" where
  "normalize_value float_text cs v =
     (if v = J_Null then Inr J_Null
      else if cs \<subseteq> {Cat_Int} then Inr v
      else if cs \<subseteq> {Cat_Int, Cat_Float} then to_float float_text v
      else if cs \<subseteq> {Cat_Bool} then Inr v
      else Inr (J_Str (py_str v)))"

definition normalize_row ::
  "(int \<Rightarrow> string option) \<Rightarrow> string list \<Rightarrow> (string \<Rightarrow> category set) \<Rightarrow> json_row
   \<Rightarrow> (sync_row_error, json_row) result" where
  "normalize_row float_text columns cats row =
     mapR (\<lambda>c. bindR (normalize_value float_text (cats c) (row_get row c)) (\<lambda>v. Inr (c, v))) columns"

definition normalize_rows_for_arrow ::
  "(int \<Rightarrow> string option) \<Rightarrow> json_row list \<Rightarrow> (sync_row_error, json_row list) result" where
  "normalize_rows_for_arrow float_text rows =
     mapR (normalize_row float_text (all_columns rows) (categories rows)) rows"

record arrow_field =
  af_name :: string
  af_type :: string
  af_nullable :: bool

record 't arrow =
  ar_from_pylist :: "json_row list \<Rightarrow> 't option"
  ar_empty_like :: "arrow_field list \<Rightarrow> 't"
  ar_no_columns :: 't
  ar_schema :: "'t \<Rightarrow> arrow_field list"
  ar_rows :: "'t \<Rightarrow> json_row list"
  ar_float_text :: "int \<Rightarrow> string option"

definition stringified :: "json_row \<Rightarrow> json_row" where
  "stringified row = map (\<lambda>(k, v). (k, if v = J_Null then J_Null else J_Str (py_str v))) row"

definition rows_to_table ::
  "'t arrow \<Rightarrow> json_row list \<Rightarrow> arrow_field list option \<Rightarrow> (sync_row_error, 't) result" where
  "rows_to_table ar rows existing_schema =
     bindR (normalize_rows_for_arrow (ar_float_text ar) rows) (\<lambda>normalized.
       if normalized \<noteq> []
       then (case ar_from_pylist ar normalized of
           Some t \<Rightarrow> Inr t
         | None \<Rightarrow> (case ar_from_pylist ar (map stringified normalized) of
             Some t \<Rightarrow> Inr t | None \<Rightarrow> Inl Not_Arrow))
       else (case existing_schema of
           Some fs \<Rightarrow> Inr (ar_empty_like ar fs)
         | None \<Rightarrow> Inr (ar_no_columns ar)))"

section \<open>Schema drift\<close>

record schema_drift =
  sd_added :: "string list"
  sd_removed :: "string list"
  sd_changes :: "(string \<times> string \<times> string) list"

definition field_types :: "arrow_field list \<Rightarrow> (string, string) dict" where
  "field_types fs = foldl (\<lambda>m f. dict_set m (af_name f) (af_type f)) [] fs"

definition describe_schema_drift ::
  "arrow_field list option \<Rightarrow> arrow_field list \<Rightarrow> schema_drift option" where
  "describe_schema_drift existing_schema next_schema =
     (case existing_schema of
        None \<Rightarrow> None
      | Some fs \<Rightarrow>
          (let previous = field_types fs; next_fields = field_types next_schema;
               added = sort (filter (\<lambda>n. \<not> dict_has previous n) (dict_keys next_fields));
               removed = sort (filter (\<lambda>n. \<not> dict_has next_fields n) (dict_keys previous));
               common = sort (filter (dict_has next_fields) (dict_keys previous));
               before = (\<lambda>n. the (dict_get previous n)); after = (\<lambda>n. the (dict_get next_fields n));
               changes = map (\<lambda>n. (n, before n, after n)) (filter (\<lambda>n. before n \<noteq> after n) common)
           in if added = [] \<and> removed = [] \<and> changes = [] then None
              else Some \<lparr>sd_added = added, sd_removed = removed, sd_changes = changes\<rparr>))"

section \<open>Cursors\<close>

text \<open>\<open>str.isdigit\<close> also accepts the three superscript digits below code point 256, which \<open>int\<close>
  refuses.\<close>

definition py_isdigit :: "string \<Rightarrow> bool" where
  "py_isdigit s = (s \<noteq> [] \<and> list_all (\<lambda>c. is_digit c \<or> (of_char c :: nat) \<in> {178, 179, 185}) s)"

definition pick_newer_cursor ::
  "string option \<Rightarrow> string option \<Rightarrow> (sync_row_error, string option) result" where
  "pick_newer_cursor current candidate =
     (case candidate of
        None \<Rightarrow> Inr current
      | Some [] \<Rightarrow> Inr current
      | Some b \<Rightarrow>
          (case current of
             None \<Rightarrow> Inr (Some b)
           | Some [] \<Rightarrow> Inr (Some b)
           | Some a \<Rightarrow>
               if py_isdigit a \<and> py_isdigit b
               then (case (py_int a, py_int b) of
                   (None, _) \<Rightarrow> Inl (Bad_Digits a)
                 | (_, None) \<Rightarrow> Inl (Bad_Digits b)
                 | (Some m, Some n) \<Rightarrow> Inr (Some (py_str_int (max m n))))
               else Inr (Some (max a b))))"

datatype sync_mode = Incremental | Full_Refresh | Webhook_Assisted

fun next_cursor_over ::
  "string \<Rightarrow> string option \<Rightarrow> json_row list \<Rightarrow> (sync_row_error, string option) result" where
  "next_cursor_over f cursor [] = Inr cursor"
| "next_cursor_over f cursor (row # rows) =
     (let v = row_get row f
      in if v = J_Null \<or> py_strip (py_str v) = [] then next_cursor_over f cursor rows
         else bindR (pick_newer_cursor cursor (Some (py_str v))) (\<lambda>c. next_cursor_over f c rows))"

definition resolve_next_sql_cursor ::
  "json_row list \<Rightarrow> string option \<Rightarrow> string option \<Rightarrow> sync_mode
   \<Rightarrow> (sync_row_error, string option) result" where
  "resolve_next_sql_cursor rows cursor_field current_cursor mode =
     (case cursor_field of
        Some (c # cs) \<Rightarrow> if mode = Incremental then next_cursor_over (c # cs) current_cursor rows
          else Inr current_cursor
      | _ \<Rightarrow> Inr current_cursor)"

section \<open>Merging is an upsert\<close>

definition with_identity :: "string \<Rightarrow> string option \<Rightarrow> json_row list \<Rightarrow> json_row list" where
  "with_identity pk k rows = filter (\<lambda>r. row_identity pk r = k) rows"

definition last_only :: "'a list \<Rightarrow> 'a list" where
  "last_only xs = (if xs = [] then [] else [last xs])"

lemma merge_row_step:
  "merge_row pk (m, x) row = (case row_identity pk row of
     None \<Rightarrow> (m, x @ [row]) | Some k \<Rightarrow> (dict_set m k row, x))"
  by (simp add: merge_row_def)

lemma merged_extras:
  "snd (foldl (merge_row pk) (m, x) rows) = x @ with_identity pk None rows"
  by (induction rows arbitrary: m x) (auto simp: merge_row_step with_identity_def split: option.splits)

lemma merged_get:
  "dict_get (fst (foldl (merge_row pk) (m, x) rows)) k =
     (case with_identity pk (Some k) rows of [] \<Rightarrow> dict_get m k | r # rs \<Rightarrow> Some (last (r # rs)))"
proof (induction rows arbitrary: m x)
  case (Cons r rows)
  show ?case
    by (cases "row_identity pk r") (auto simp: merge_row_step Cons.IH with_identity_def split: list.split)
qed (simp add: with_identity_def)

definition keyed_rows :: "string \<Rightarrow> (string, json_row) dict \<Rightarrow> bool" where
  "keyed_rows pk m = (dict_ok m \<and> (\<forall>(k, r) \<in> set m. row_identity pk r = Some k))"

lemma keyed_rows_merge: "keyed_rows pk m \<Longrightarrow> keyed_rows pk (fst (foldl (merge_row pk) (m, x) rows))"
proof (induction rows arbitrary: m x)
  case (Cons r rows)
  have "keyed_rows pk (fst (merge_row pk (m, x) r))"
    using Cons.prems by (auto simp: merge_row_step keyed_rows_def split: option.split dest!: in_dict_set_cases)
  then show ?case using Cons.IH [of "fst (merge_row pk (m, x) r)" "snd (merge_row pk (m, x) r)"] by simp
qed simp

lemma keyed_values_filter:
  assumes "keyed_rows pk m"
  shows "with_identity pk (Some k) (dict_values m) = (case dict_get m k of None \<Rightarrow> [] | Some r \<Rightarrow> [r])"
    and "with_identity pk None (dict_values m) = []"
proof -
  have *: "distinct (map fst m) \<Longrightarrow> \<forall>(k, r) \<in> set m. row_identity pk r = Some k \<Longrightarrow>
    filter (\<lambda>r. row_identity pk r = Some k) (map snd m) = (case map_of m k of None \<Rightarrow> [] | Some r \<Rightarrow> [r])"
  proof (induction m)
    case (Cons b m)
    then have "fst b = k \<Longrightarrow> map_of m k = None" by (auto simp: map_of_eq_None_iff)
    with Cons show ?case by (cases b) auto
  qed simp
  then show "with_identity pk (Some k) (dict_values m) = (case dict_get m k of None \<Rightarrow> [] | Some r \<Rightarrow> [r])"
    using assms by (simp add: keyed_rows_def with_identity_def dict_values_def dict_get_def dict_ok_def)
  show "with_identity pk None (dict_values m) = []"
    using assms by (auto simp: keyed_rows_def with_identity_def dict_values_def filter_empty_conv)
qed

lemma merge_rows_keyed:
  "merge_rows e n (Some (c # cs)) False =
     dict_values (fst (foldl (merge_row (c # cs)) ([], []) (e @ n))) @ with_identity (c # cs) None (e @ n)"
  using merged_extras [of "c # cs" "[]" "[]" "e @ n"]
  by (cases "foldl (merge_row (c # cs)) ([], []) (e @ n)") (simp add: merge_rows_def)

text \<open>C38: Incremental merging is an upsert by identity: of the rows with one identity, stored and new
  together, exactly the last survives, and rows without an identity all survive in their order. A
  full refresh keeps exactly the new rows, and without a key the new rows are appended.\<close>

theorem merge_is_upsert:
  "with_identity (c # cs) k (merge_rows e n (Some (c # cs)) False) =
     (case k of None \<Rightarrow> with_identity (c # cs) None (e @ n)
      | Some _ \<Rightarrow> last_only (with_identity (c # cs) k (e @ n)))
   \<and> merge_rows e n pk True = n
   \<and> merge_rows e n None False = e @ n"
proof (intro conjI)
  let ?pk = "c # cs" and ?m = "fst (foldl (merge_row (c # cs)) ([], []) (e @ n))"
  have ok: "keyed_rows ?pk ?m" by (rule keyed_rows_merge) (simp add: keyed_rows_def)
  have rest: "with_identity ?pk (Some i) (with_identity ?pk None (e @ n)) = []" for i
    by (auto simp: with_identity_def filter_empty_conv)
  have none: "with_identity ?pk None (with_identity ?pk None (e @ n)) = with_identity ?pk None (e @ n)"
    by (simp add: with_identity_def)
  have app: "with_identity ?pk k (xs @ ys) = with_identity ?pk k xs @ with_identity ?pk k ys" for xs ys
    by (simp add: with_identity_def)
  show "with_identity ?pk k (merge_rows e n (Some ?pk) False) =
     (case k of None \<Rightarrow> with_identity ?pk None (e @ n)
      | Some _ \<Rightarrow> last_only (with_identity ?pk k (e @ n)))"
  proof (cases k)
    case None
    then show ?thesis unfolding merge_rows_keyed app by (simp add: keyed_values_filter [OF ok] none del: foldl_append)
  next
    case (Some i)
    then show ?thesis
      unfolding merge_rows_keyed app Some app [unfolded Some] keyed_values_filter(1) [OF ok] merged_get
      using rest [of i] by (simp add: last_only_def del: foldl_append split: list.split)
  qed
qed (simp_all add: merge_rows_def)

section \<open>Columns of one type\<close>

text \<open>The category of a written column.\<close>

definition column_class :: "category set \<Rightarrow> category" where
  "column_class cs =
     (if cs \<subseteq> {Cat_Int} then Cat_Int else if cs \<subseteq> {Cat_Int, Cat_Float} then Cat_Float
      else if cs \<subseteq> {Cat_Bool} then Cat_Bool else Cat_String)"

lemma normalize_value_class:
  "normalize_value ft cs v =
     (if v = J_Null then Inr J_Null else case column_class cs of
        Cat_Float \<Rightarrow> to_float ft v | Cat_String \<Rightarrow> Inr (J_Str (py_str v)) | _ \<Rightarrow> Inr v)"
  by (simp add: normalize_value_def column_class_def)


lemma column_class_absorb:
  assumes "as \<noteq> {}"
  shows "column_class (insert (column_class (as \<union> bs)) bs) = column_class (as \<union> bs)"
proof -
  have *: "cs \<subseteq> {Cat_Int} \<longleftrightarrow> Cat_Float \<notin> cs \<and> Cat_Bool \<notin> cs \<and> Cat_String \<notin> cs"
      "cs \<subseteq> {Cat_Int, Cat_Float} \<longleftrightarrow> Cat_Bool \<notin> cs \<and> Cat_String \<notin> cs"
      "cs \<subseteq> {Cat_Bool} \<longleftrightarrow> Cat_Int \<notin> cs \<and> Cat_Float \<notin> cs \<and> Cat_String \<notin> cs" for cs
    by (auto, (metis category.exhaust)+)
  have "Cat_Int \<in> as \<or> Cat_Float \<in> as \<or> Cat_Bool \<in> as \<or> Cat_String \<in> as"
    using assms by (metis category.exhaust ex_in_conv)
  then show ?thesis
    unfolding column_class_def * by simp
qed

lemma value_category_iff [simp]: "value_category v = None \<longleftrightarrow> v = J_Null"
  by (cases v) (simp_all add: value_category_def)

lemma value_category_Null [simp]: "value_category J_Null = None"
  by simp

lemma value_category_Some: "value_category v = Some k \<Longrightarrow> v \<noteq> J_Null"
  by auto

lemma normalized_value:
  assumes "normalize_value ft cs v = Inr w" "v \<noteq> J_Null \<Longrightarrow> the (value_category v) \<in> cs"
  shows "w = J_Null \<longleftrightarrow> v = J_Null"
    and "v \<noteq> J_Null \<Longrightarrow> value_category w = Some (column_class cs)"
proof -
  have "v \<noteq> J_Null \<Longrightarrow> w \<noteq> J_Null \<and> value_category w = Some (column_class cs)"
    using assms by (cases v) (auto simp: normalize_value_def to_float_def column_class_def value_category_def
      split: if_splits option.splits)
  moreover have "v = J_Null \<Longrightarrow> w = J_Null" using assms by (simp add: normalize_value_def)
  ultimately show "w = J_Null \<longleftrightarrow> v = J_Null" "v \<noteq> J_Null \<Longrightarrow> value_category w = Some (column_class cs)"
    by blast+
qed

lemma normalized_again:
  assumes "normalize_value ft cs v = Inr w" "v \<noteq> J_Null \<Longrightarrow> the (value_category v) \<in> cs"
    and "column_class cs' = column_class cs"
  shows "normalize_value ft cs' w = Inr w"
  using assms by (cases v) (auto simp: normalize_value_class to_float_def py_str_def value_category_def
    column_class_def split: category.splits option.splits if_splits)

lemma row_by_columns:
  assumes "distinct (map fst r)"
  shows "r = map (\<lambda>c. (c, row_get r c)) (map fst r)"
proof -
  have "map (\<lambda>p. (fst p, row_get r (fst p))) r = r"
    using assms by (intro map_idI) (auto simp: row_get_def dict_get_def)
  then show ?thesis by (simp add: comp_def)
qed

lemma normalize_row_iff:
  assumes "distinct C"
  shows "normalize_row ft C cats row = Inr r \<longleftrightarrow>
     map fst r = C \<and> (\<forall>c \<in> set C. normalize_value ft (cats c) (row_get row c) = Inr (row_get r c))"
    (is "?l \<longleftrightarrow> ?r")
proof
  assume ?l
  then have all: "list_all2 (\<lambda>c p. bindR (normalize_value ft (cats c) (row_get row c)) (\<lambda>v. Inr (c, v)) = Inr p) C r"
    by (simp add: normalize_row_def mapR_Inr_iff)
  then have keys: "map fst r = C"
    by (induction rule: list_all2_induct) (auto simp: bindR_eq_Inr)
  have vals: "\<forall>p \<in> set r. normalize_value ft (cats (fst p)) (row_get row (fst p)) = Inr (snd p)"
    using all by (induction rule: list_all2_induct) (auto simp: bindR_eq_Inr)
  have "normalize_value ft (cats c) (row_get row c) = Inr (row_get r c)" if "c \<in> set C" for c
  proof -
    have "c \<in> fst ` set r" using that keys by (metis set_map)
    then obtain v where v: "(c, v) \<in> set r" by auto
    then have "row_get r c = v" using assms keys by (simp add: row_get_def dict_get_def)
    then show ?thesis using vals v by force
  qed
  then show ?r using keys by blast
next
  assume r: ?r
  then have eq: "r = map (\<lambda>c. (c, row_get r c)) C" using row_by_columns assms by metis
  have "normalize_row ft C cats row = Inr (map (\<lambda>c. (c, row_get r c)) C)"
    unfolding normalize_row_def by (rule mapR_total) (use r in auto)
  then show ?l using eq by simp
qed

lemma normalize_rows_iff:
  "normalize_rows_for_arrow ft rows = Inr out \<longleftrightarrow>
     list_all2 (\<lambda>row r. map fst r = all_columns rows
       \<and> (\<forall>c \<in> set (all_columns rows). normalize_value ft (categories rows c) (row_get row c) = Inr (row_get r c)))
       rows out"
  by (simp add: normalize_rows_for_arrow_def mapR_Inr_iff normalize_row_iff all_columns_def)

lemma categories_iff:
  "k \<in> categories rows c \<longleftrightarrow> (\<exists>row \<in> set rows. value_category (row_get row c) = Some k)"
  unfolding categories_def by (induction rows) (auto simp: List.map_filter_simps split: option.split)

lemma in_categories: "\<lbrakk>row \<in> set rows; row_get row c \<noteq> J_Null\<rbrakk> \<Longrightarrow> the (value_category (row_get row c)) \<in> categories rows c"
  using value_category_iff [of "row_get row c"] by (force simp: categories_iff simp del: value_category_iff)

lemma categories_map:
  "k \<in> categories (map f zs) c \<longleftrightarrow> (\<exists>z \<in> set zs. value_category (row_get (f z) c) = Some k)"
  by (simp add: categories_iff)

lemma mapR_Inl: "mapR f xs = Inl e \<Longrightarrow> \<exists>x \<in> set xs. f x = Inl e"
  by (induction xs) (auto simp: bindR_eq_Inl)

lemma class_of_mixed:
  assumes z: "\<And>r s. (r, s) \<in> set zs \<Longrightarrow>
      normalize_value ft (categories (map fst zs) c) (row_get r c) = Inr (row_get s c)"
  shows "column_class (categories (map (\<lambda>(r, s). if P r then r else s) zs) c)
     = column_class (categories (map fst zs) c)"
proof -
  let ?cs = "categories (map fst zs) c"
  define stays turns where "stays = {k. \<exists>(r, s) \<in> set zs. P r \<and> value_category (row_get r c) = Some k}"
    and "turns = {k. \<exists>(r, s) \<in> set zs. \<not> P r \<and> value_category (row_get r c) = Some k}"
  have cs: "?cs = turns \<union> stays"
    unfolding set_eq_iff categories_map stays_def turns_def Un_iff mem_Collect_eq by force
  have val: "value_category (row_get s c) = (if row_get r c = J_Null then None else Some (column_class ?cs))"
    if "(r, s) \<in> set zs" for r s
  proof -
    have "r \<in> set (map fst zs)" using that by force
    then have mem: "row_get r c \<noteq> J_Null \<Longrightarrow> the (value_category (row_get r c)) \<in> ?cs" by (rule in_categories)
    show ?thesis using normalized_value [OF z [OF that] mem] by auto
  qed
  have "categories (map (\<lambda>(r, s). if P r then r else s) zs) c
      = (if turns = {} then {} else {column_class ?cs}) \<union> stays" (is "?l = ?r")
  proof (rule set_eqI)
    fix k
    show "k \<in> ?l \<longleftrightarrow> k \<in> ?r"
    proof
      assume "k \<in> ?l"
      then obtain r s where rs: "(r, s) \<in> set zs"
          "value_category (row_get (if P r then r else s) c) = Some k" by (auto simp: categories_map)
      show "k \<in> ?r"
      proof (cases "P r")
        case True
        then show ?thesis using rs by (force simp: stays_def)
      next
        case False
        then have "row_get r c \<noteq> J_Null" "k = column_class ?cs"
          using rs(2) val [OF rs(1)] by (simp_all split: if_splits)
        moreover from this(1) obtain k' where "value_category (row_get r c) = Some k'"
          by (cases "value_category (row_get r c)") auto
        ultimately show ?thesis using False rs(1) by (force simp: turns_def)
      qed
    next
      assume "k \<in> ?r"
      then consider "k \<in> stays" | "turns \<noteq> {}" "k = column_class ?cs" by (auto split: if_splits)
      then show "k \<in> ?l"
      proof cases
        case 1
        then show ?thesis by (force simp: categories_map stays_def)
      next
        case 2
        then obtain r s x where "(r, s) \<in> set zs" "\<not> P r" "value_category (row_get r c) = Some x"
          by (auto simp: turns_def)
        from this(1, 2) value_category_Some [OF this(3)]
        have "(r, s) \<in> set zs" "\<not> P r" "row_get r c \<noteq> J_Null" .
        with val [OF this(1)] 2 show ?thesis by (force simp: categories_map)
      qed
    qed
  qed
  then show ?thesis unfolding cs using column_class_absorb [of turns stays] by simp
qed

text \<open>The rows that are written have all the same columns, sorted by name, and every column holds
  values of one type besides nulls: integers, floats, booleans or texts. Writing them again
  changes nothing, and writing fails only when an integer is too large for a float.\<close>

theorem written_columns_are_uniform:
  "case normalize_rows_for_arrow ft rows of
     Inl e \<Rightarrow> \<exists>n. e = Float_Overflow n \<and> ft n = None
   | Inr out \<Rightarrow> length out = length rows
       \<and> list_all (\<lambda>r. dict_keys r = all_columns rows) out
       \<and> (\<forall>c. categories out c \<subseteq> {column_class (categories rows c)})
       \<and> normalize_rows_for_arrow ft out = Inr out"
proof (cases "normalize_rows_for_arrow ft rows")
  case (Inl e)
  then obtain row c where "normalize_value ft (categories rows c) (row_get row c) = Inl e"
    unfolding normalize_rows_for_arrow_def normalize_row_def by (auto dest!: mapR_Inl simp: bindR_eq_Inl)
  then show ?thesis using Inl
    by (auto simp: normalize_value_def to_float_def split: if_splits json.splits option.splits)
next
  case (Inr out)
  define zs where "zs = zip rows out"
  have len: "length out = length rows" and
    z: "(row, r) \<in> set zs \<Longrightarrow> map fst r = all_columns rows \<and>
      (\<forall>c \<in> set (all_columns rows). normalize_value ft (categories rows c) (row_get row c) = Inr (row_get r c))" for row r
    using Inr by (auto simp: normalize_rows_iff list_all2_iff zs_def)
  have fsts: "map fst zs = rows" and snds: "map snd zs = out" using len by (simp_all add: zs_def)
  have source: "\<exists>row. (row, r) \<in> set zs" if "r \<in> set out" for r
  proof -
    have "r \<in> snd ` set zs" using that snds by (metis set_map)
    then show ?thesis by auto
  qed
  have out_of: "row_get r c = J_Null" "row_get row c = J_Null"
    if "(row, r) \<in> set zs" "c \<notin> set (all_columns rows)" for row r c
  proof -
    show "row_get r c = J_Null" using z [OF that(1)] that(2)
      by (metis (mono_tags) dict_get_def map_of_eq_None_iff option.simps(4) row_get_def set_map)
    have "row \<in> set rows" using that(1) fsts by force
    then show "row_get row c = J_Null" using that(2)
      by (auto simp: all_columns_def row_get_def set_dict_keys split: option.split)
  qed
  have norm: "normalize_value ft (categories rows c) (row_get row c) = Inr (row_get r c)"
    if "(row, r) \<in> set zs" for row r c
    using z [OF that] out_of [OF that] by (cases "c \<in> set (all_columns rows)") (auto simp: normalize_value_def)
  have keys: "list_all (\<lambda>r. dict_keys r = all_columns rows) out"
    using z by (auto simp: list_all_iff dict_keys_def simp flip: snds)
  have cls: "column_class (categories out c) = column_class (categories rows c)" for c
    using class_of_mixed [of zs ft c "\<lambda>_. False"] norm fsts snds by (simp add: case_prod_unfold)
  have cols: "all_columns out = all_columns rows" if "out \<noteq> []"
  proof -
    have "\<Union> (set ` dict_keys ` set out) = set (all_columns rows)"
      using keys that by (cases out) (auto simp: list_all_iff)
    then have "set (concat (map dict_keys out)) = set (concat (map dict_keys rows))"
      by (simp add: all_columns_def)
    then show ?thesis unfolding all_columns_def by (rule py_sorted_set_cong)
  qed
  have mem: "row_get row c \<noteq> J_Null \<Longrightarrow> the (value_category (row_get row c)) \<in> categories rows c"
    if "(row, r) \<in> set zs" for row r c
    by (rule in_categories) (use that fsts in \<open>force\<close>)+
  have "categories out c \<subseteq> {column_class (categories rows c)}" for c
  proof
    fix k assume "k \<in> categories out c"
    then obtain r where r: "r \<in> set out" "value_category (row_get r c) = Some k" by (auto simp: categories_iff)
    from source [OF this(1)] obtain row where row: "(row, r) \<in> set zs" ..
    have "row_get r c \<noteq> J_Null" using r(2) by (rule value_category_Some)
    then show "k \<in> {column_class (categories rows c)}"
      using normalized_value [OF norm [OF row] mem [OF row]] r(2) by auto
  qed
  moreover have "normalize_rows_for_arrow ft out = Inr out"
  proof (cases "out = []")
    case False
    have "map fst r = all_columns out \<and>
        (\<forall>c \<in> set (all_columns out). normalize_value ft (categories out c) (row_get r c) = Inr (row_get r c))"
      if "r \<in> set out" for r
    proof -
      from source [OF that] obtain row where row: "(row, r) \<in> set zs" ..
      show ?thesis using z [OF row] cols [OF False] normalized_again [OF norm [OF row] mem [OF row] cls] by simp
    qed
    then show ?thesis by (auto simp: normalize_rows_iff list.rel_refl_strong)
  qed (simp add: normalize_rows_for_arrow_def)
  ultimately show ?thesis using Inr len keys by simp
qed

section \<open>Synchronising again\<close>











definition ex_row :: "json \<Rightarrow> string \<Rightarrow> json_row" where
  "ex_row i v = [(''id'', i), (''v'', J_Str v)]"






text \<open>When the key column mixes integers with floats, the stored integers become floats and the same
  row delivered again is a second row.\<close>

lemma mixed_keys_duplicate_rows:
  "(case normalize_rows_for_arrow (\<lambda>n. Some (py_str_int n @ ''.0''))
      (merge_rows [ex_row (J_Float ''2.5'') ''a''] [ex_row (J_Int 1) ''b''] (Some ''id'') False) of
      Inl _ \<Rightarrow> False
    | Inr stored \<Rightarrow> stored = [ex_row (J_Float ''2.5'') ''a'', ex_row (J_Float ''1.0'') ''b'']
        \<and> merge_rows stored [ex_row (J_Int 1) ''b''] (Some ''id'') False = stored @ [ex_row (J_Int 1) ''b''])"
  by code_simp

section \<open>The cursor never falls behind\<close>

lemma py_isdigit_nat: "py_isdigit (py_str_int (int n))"
  using nat_digits_back [of n] by (auto simp: py_isdigit_def py_str_int_def list_all_iff)

lemma py_str_int_nonempty: "py_str_int (int n) \<noteq> []"
  using nat_digits_back [of n] by (simp add: py_str_int_def)

lemma pick_newer_numbers:
  "pick_newer_cursor (Some (py_str_int (int m))) (Some (py_str_int (int n))) = Inr (Some (py_str_int (int (max m n))))"
proof -
  have "a \<noteq> [] \<Longrightarrow> b \<noteq> [] \<Longrightarrow> py_isdigit a \<Longrightarrow> py_isdigit b \<Longrightarrow> py_int a = Some i \<Longrightarrow> py_int b = Some j
      \<Longrightarrow> pick_newer_cursor (Some a) (Some b) = Inr (Some (py_str_int (max i j)))" for a b i j
    by (cases a; cases b) (simp_all add: pick_newer_cursor_def)
  then show ?thesis by (simp add: py_str_int_nonempty py_isdigit_nat py_int_str of_nat_max)
qed

lemma str_int_strip: "py_strip (py_str_int (int n)) \<noteq> []"
proof -
  have d: "list_all is_digit (nat_digits n)" "nat_digits n \<noteq> []" using nat_digits_back [of n] by auto
  have "\<not> py_isspace c" if "is_digit c" for c
    using that by (auto simp: py_isspace_def is_digit_def)
  then have "py_strip (nat_digits n) = nat_digits n"
    using d by (intro py_strip_keep) (auto simp: list_all_iff)
  then show ?thesis using d by (simp add: py_str_int_def)
qed

text \<open>For numeric cursors the cursor after a run over a table is the greatest of the cursor before
  and the values of the cursor column, whatever the order of the rows; a full refresh keeps it.\<close>

theorem numeric_cursor_is_maximum:
  "resolve_next_sql_cursor (map (\<lambda>n. dict_set (r n) (c # cs) (J_Int (int n))) ns) (Some (c # cs))
     (Some (py_str_int (int k))) mode
   = Inr (Some (py_str_int (int (if mode = Incremental then Max (set (k # ns)) else k))))"
proof -
  have step: "next_cursor_over f (Some (py_str_int (int k))) (map (\<lambda>n. dict_set (r n) f (J_Int (int n))) ns)
      = Inr (Some (py_str_int (int (foldl max k ns))))" for f
    by (induction ns arbitrary: k)
      (simp_all add: row_get_def py_str_def str_int_strip pick_newer_numbers Let_def)
  have "foldl max k ns = Max (set (k # ns))"
  proof -
    have "(\<lambda>x s. max s x) = (max :: nat \<Rightarrow> _)" by (simp add: fun_eq_iff max.commute)
    then show ?thesis by (simp only: foldl_conv_fold Max.set_eq_fold)
  qed
  then show ?thesis by (simp add: resolve_next_sql_cursor_def step)
qed

text \<open>Cursors that are not all digits are compared as texts, so that the order is not transitive.\<close>

lemma cursor_order_is_cyclic:
  "pick_newer_cursor (Some ''9'') (Some ''10'') = Inr (Some ''10'')
   \<and> pick_newer_cursor (Some ''10'') (Some ''1a'') = Inr (Some ''1a'')
   \<and> pick_newer_cursor (Some ''1a'') (Some ''9'') = Inr (Some ''9'')"
  by code_simp

end
