(* ===== verification/Dataset_Descriptors.thy ===== *)
theory Dataset_Descriptors
  imports Plan_Models
begin

text \<open>
  What the runtime derives for a dataset from its kinds and names (\<open>runtime/utils/datasets.py\<close>,
  \<open>runtime/utils/lineage.py\<close>): the identity of its relation, its execution capabilities, and
  the identifiers of lineage nodes. A stored payload is given as what its validation yields:
  \<open>None\<close> for an absent, empty or invalid one. Identifiers are UUIDs already. The digest of a
  storage location is a parameter.
\<close>

datatype source_kind = SK_Database | SK_Saas | SK_Api | SK_File | SK_Virtual

datatype storage_kind = ST_Table | ST_Memory | ST_Parquet | ST_Csv | ST_Json | ST_View | ST_Virtual

fun source_kind_value :: "source_kind \<Rightarrow> string" where
  "source_kind_value SK_Database = ''database''"
| "source_kind_value SK_Saas = ''saas''"
| "source_kind_value SK_Api = ''api''"
| "source_kind_value SK_File = ''file''"
| "source_kind_value SK_Virtual = ''virtual''"

fun storage_kind_value :: "storage_kind \<Rightarrow> string" where
  "storage_kind_value ST_Table = ''table''"
| "storage_kind_value ST_Memory = ''memory''"
| "storage_kind_value ST_Parquet = ''parquet''"
| "storage_kind_value ST_Csv = ''csv''"
| "storage_kind_value ST_Json = ''json''"
| "storage_kind_value ST_View = ''view''"
| "storage_kind_value ST_Virtual = ''virtual''"

definition source_kind_of :: "string \<Rightarrow> source_kind option" where
  "source_kind_of s = find (\<lambda>k. source_kind_value k = s) [SK_Database, SK_Saas, SK_Api, SK_File, SK_Virtual]"

definition storage_kind_of :: "string \<Rightarrow> storage_kind option" where
  "storage_kind_of s = find (\<lambda>k. storage_kind_value k = s)
     [ST_Table, ST_Memory, ST_Parquet, ST_Csv, ST_Json, ST_View, ST_Virtual]"

datatype descriptor_error = Kind_Not_Set | Kind_Unknown string

definition text_value :: "string option \<Rightarrow> string" where
  "text_value v = py_strip (case v of None \<Rightarrow> [] | Some s \<Rightarrow> s)"

definition optional_text :: "string option \<Rightarrow> string option" where
  "optional_text v = (if text_value v = [] then None else Some (text_value v))"

definition normalize_kind_text :: "string option \<Rightarrow> string option" where
  "normalize_kind_text v = (let n = py_lower (text_value v) in if n = [] then None else Some n)"

definition resolve_source_kind :: "string option \<Rightarrow> (descriptor_error, source_kind) result" where
  "resolve_source_kind explicit =
     (case normalize_kind_text explicit of
        None \<Rightarrow> Inl Kind_Not_Set
      | Some n \<Rightarrow> (case source_kind_of n of None \<Rightarrow> Inl (Kind_Unknown n) | Some k \<Rightarrow> Inr k))"

definition resolve_storage_kind :: "string option \<Rightarrow> (descriptor_error, storage_kind) result" where
  "resolve_storage_kind explicit =
     (case normalize_kind_text explicit of
        None \<Rightarrow> Inl Kind_Not_Set
      | Some n \<Rightarrow> (case storage_kind_of n of None \<Rightarrow> Inl (Kind_Unknown n) | Some k \<Rightarrow> Inr k))"

definition resolve_connector_kind :: "string option \<Rightarrow> string option" where
  "resolve_connector_kind explicit = normalize_kind_text explicit"

section \<open>Names from paths\<close>

text \<open>\<open>Path(s).name\<close>, \<open>.suffix\<close> and \<open>.stem\<close>: the last component that is neither empty nor a single
  point; a suffix starts at its last point, which is neither its first nor its last character.\<close>

definition path_name :: "string \<Rightarrow> string" where
  "path_name s = (case filter (\<lambda>p. p \<noteq> [] \<and> p \<noteq> ''.'') (py_split (CHR ''/'') s) of
     [] \<Rightarrow> [] | ps \<Rightarrow> last ps)"

definition path_suffix :: "string \<Rightarrow> string" where
  "path_suffix s =
     (let n = path_name s; ext = takeWhile (\<lambda>c. c \<noteq> CHR ''.'') (rev n)
      in if CHR ''.'' \<notin> set n \<or> ext = [] \<or> length ext + 1 = length n then [] else CHR ''.'' # rev ext)"

definition path_stem :: "string \<Rightarrow> string" where
  "path_stem s = (let n = path_name s in take (length n - length (path_suffix s)) n)"

definition infer_file_storage_kind :: "string option \<Rightarrow> string option \<Rightarrow> storage_kind" where
  "infer_file_storage_kind configured storage_uri =
     (let suffix = py_lower (py_strip (path_suffix (case storage_uri of None \<Rightarrow> [] | Some s \<Rightarrow> s)))
      in case normalize_kind_text configured of
           Some n \<Rightarrow> if n = ''csv'' then ST_Csv else if n = ''parquet'' then ST_Parquet
             else if n = ''json'' then ST_Json
             else if suffix = ''.parquet'' then ST_Parquet else if suffix = ''.json'' then ST_Json else ST_Csv
         | None \<Rightarrow> if suffix = ''.parquet'' then ST_Parquet
             else if suffix = ''.json'' then ST_Json else ST_Csv)"

section \<open>The identity of a relation\<close>

record relation_identity =
  ri_canonical_reference :: string
  ri_relation_name :: string
  ri_qualified_name :: "string option"
  ri_catalog_name :: "string option"
  ri_schema_name :: "string option"
  ri_table_name :: "string option"
  ri_storage_uri :: "string option"
  ri_dataset_id :: "uuid option"
  ri_connector_id :: "uuid option"
  ri_source_kind :: source_kind
  ri_storage_kind :: storage_kind

definition suppress_synthetic_schema :: "storage_kind \<Rightarrow> string option \<Rightarrow> bool" where
  "suppress_synthetic_schema st schema =
     (st \<in> {ST_Csv, ST_Parquet, ST_Json} \<and> py_lower (text_value schema) = ''api_connector'')"

definition normalized_relation_name :: "string option \<Rightarrow> string option \<Rightarrow> string" where
  "normalized_relation_name dataset_name storage_uri =
     (let given = text_value dataset_name;
          nm = (if given = [] then (case storage_uri of Some (c # cs) \<Rightarrow> path_stem (c # cs) | _ \<Rightarrow> []) else given);
          cleaned = py_lower (strip_underscores (collapse_symbols False nm))
      in if cleaned = [] then ''dataset'' else cleaned)"

definition qualified_relation_name :: "string option list \<Rightarrow> string option" where
  "qualified_relation_name vs =
     (let ps = filter (\<lambda>p. p \<noteq> []) (map text_value vs) in if ps = [] then None else Some (py_join ''.'' ps))"

text \<open>\<open>a or b\<close> for texts\<close>

definition or_else :: "string option \<Rightarrow> string option \<Rightarrow> string option" where
  "or_else a b = (case a of Some (c # cs) \<Rightarrow> Some (c # cs) | _ \<Rightarrow> b)"

definition fresh_relation_identity ::
  "uuid option \<Rightarrow> uuid option \<Rightarrow> string option \<Rightarrow> string option \<Rightarrow> string option \<Rightarrow> string option
   \<Rightarrow> string option \<Rightarrow> source_kind \<Rightarrow> storage_kind \<Rightarrow> relation_identity" where
  "fresh_relation_identity dataset_id connector_id dataset_name catalog schema table storage_uri sk st =
     (let schema' = (if suppress_synthetic_schema st schema then None else schema);
          table' = (if text_value table = [] then normalized_relation_name dataset_name storage_uri
            else text_value table);
          qualified = qualified_relation_name [catalog, schema', or_else table (Some table')];
          reference = (case dataset_id of Some i \<Rightarrow> ''dataset:'' @ i
            | None \<Rightarrow> (case storage_uri of
                Some (c # cs) \<Rightarrow> ''storage:'' @ py_strip (c # cs)
              | _ \<Rightarrow> (case qualified of Some q \<Rightarrow> ''relation:'' @ q | None \<Rightarrow> ''relation:'' @ table')))
      in \<lparr>ri_canonical_reference = reference, ri_relation_name = table', ri_qualified_name = qualified,
          ri_catalog_name = optional_text catalog, ri_schema_name = optional_text schema',
          ri_table_name = optional_text (or_else table (Some table')),
          ri_storage_uri = optional_text storage_uri, ri_dataset_id = dataset_id,
          ri_connector_id = connector_id, ri_source_kind = sk, ri_storage_kind = st\<rparr>)"

definition build_dataset_relation_identity ::
  "uuid option \<Rightarrow> uuid option \<Rightarrow> string option \<Rightarrow> string option \<Rightarrow> string option \<Rightarrow> string option
   \<Rightarrow> string option \<Rightarrow> source_kind \<Rightarrow> storage_kind \<Rightarrow> relation_identity option \<Rightarrow> relation_identity" where
  "build_dataset_relation_identity dataset_id connector_id dataset_name catalog schema table storage_uri sk st existing =
     (case existing of
        Some ri \<Rightarrow>
          if suppress_synthetic_schema st (ri_schema_name ri)
          then ri\<lparr>ri_qualified_name := or_else (ri_table_name ri) (Some (ri_relation_name ri)),
                  ri_catalog_name := None, ri_schema_name := None\<rparr>
          else ri
      | None \<Rightarrow>
          fresh_relation_identity dataset_id connector_id dataset_name catalog schema table storage_uri sk st)"

section \<open>Execution capabilities\<close>

record capabilities =
  ec_structured_scan :: bool
  ec_sql_federation :: bool
  ec_filter_pushdown :: bool
  ec_projection_pushdown :: bool
  ec_aggregation_pushdown :: bool
  ec_join_pushdown :: bool
  ec_materialization :: bool
  ec_semantic_modeling :: bool

definition build_dataset_execution_capabilities ::
  "source_kind \<Rightarrow> storage_kind \<Rightarrow> capabilities option \<Rightarrow> capabilities" where
  "build_dataset_execution_capabilities sk st existing =
     (case existing of
        Some c \<Rightarrow> c
      | None \<Rightarrow>
          let capable = \<lparr>ec_structured_scan = True, ec_sql_federation = True, ec_filter_pushdown = True,
            ec_projection_pushdown = True, ec_aggregation_pushdown = True, ec_join_pushdown = False,
            ec_materialization = True, ec_semantic_modeling = True\<rparr>
          in if st \<in> {ST_Table, ST_View, ST_Memory} then capable
             else if st \<in> {ST_Csv, ST_Parquet} then capable
             else if st = ST_Virtual then capable\<lparr>ec_aggregation_pushdown := False\<rparr>
             else \<lparr>ec_structured_scan = False, ec_sql_federation = False, ec_filter_pushdown = False,
               ec_projection_pushdown = False, ec_aggregation_pushdown = False, ec_join_pushdown = False,
               ec_materialization = (sk \<in> {SK_Api, SK_File, SK_Saas}), ec_semantic_modeling = False\<rparr>)"

text \<open>Kinds default to files of comma-separated values; an unknown kind raises.\<close>

definition dataset_supports_structured_federation ::
  "string option \<Rightarrow> string option \<Rightarrow> capabilities option \<Rightarrow> (descriptor_error, bool) result" where
  "dataset_supports_structured_federation sk st existing =
     (let s = py_lower (case or_else sk (Some ''file'') of Some x \<Rightarrow> x | None \<Rightarrow> []);
          t = py_lower (case or_else st (Some ''csv'') of Some x \<Rightarrow> x | None \<Rightarrow> [])
      in case source_kind_of s of
           None \<Rightarrow> Inl (Kind_Unknown s)
         | Some sk' \<Rightarrow> (case storage_kind_of t of
             None \<Rightarrow> Inl (Kind_Unknown t)
           | Some st' \<Rightarrow>
               let c = build_dataset_execution_capabilities sk' st' existing
               in Inr (ec_structured_scan c \<and> ec_sql_federation c)))"

section \<open>Lineage nodes\<close>

definition build_source_table_resource_id ::
  "uuid \<Rightarrow> string option \<Rightarrow> string option \<Rightarrow> string \<Rightarrow> string" where
  "build_source_table_resource_id connection catalog schema table =
     connection @ '':'' @ py_join ''.'' (filter (\<lambda>p. p \<noteq> []) (map text_value [catalog, schema, Some table]))"

definition build_file_resource_id :: "(string \<Rightarrow> string) \<Rightarrow> string \<Rightarrow> string" where
  "build_file_resource_id digest uri = ''file:'' @ digest (py_strip uri)"

definition build_api_resource_id :: "uuid \<Rightarrow> string \<Rightarrow> string" where
  "build_api_resource_id connection resource_name = connection @ '':api:'' @ py_lower (py_strip resource_name)"

section \<open>What the derivations guarantee\<close>

lemma kind_values [simp]:
  "source_kind_of (source_kind_value k) = Some k" "storage_kind_of (storage_kind_value t) = Some t"
  by (cases k; simp add: source_kind_of_def) (cases t; simp add: storage_kind_of_def)

text \<open>A dataset takes part in structured federation unless it is stored as JSON.\<close>

lemma kind_values_lower [simp]:
  "py_lower (source_kind_value k) = source_kind_value k"
  "py_lower (storage_kind_value t) = storage_kind_value t"
  by (cases k; simp only: source_kind_value.simps; code_simp)
    (cases t; simp only: storage_kind_value.simps; code_simp)

lemma kind_values_given [simp]:
  "or_else (Some (source_kind_value k)) x = Some (source_kind_value k)"
  "or_else (Some (storage_kind_value t)) x = Some (storage_kind_value t)"
  by (cases k; simp add: or_else_def) (cases t; simp add: or_else_def)

lemma federation_by_storage:
  "dataset_supports_structured_federation (Some (source_kind_value sk)) (Some (storage_kind_value st)) None
     = Inr (st \<noteq> ST_Json)"
  by (cases st) (simp_all add: dataset_supports_structured_federation_def
    build_dataset_execution_capabilities_def del: source_kind_value.simps storage_kind_value.simps)

text \<open>The identity names the dataset, and its relation name is never empty.\<close>

lemma relation_name_nonempty:
  "ri_relation_name (fresh_relation_identity i c n cat sch tab uri sk st) \<noteq> []"
  by (simp add: fresh_relation_identity_def normalized_relation_name_def Let_def)

end
