(* ===== verification/Dataset_Sync.thy ===== *)
theory Dataset_Sync
  imports Sync_Rows Dataset_Descriptors In_Memory_Store
begin

text \<open>
  Synchronisation of datasets from connectors (\<open>runtime/services/dataset_sync_service.py\<close>) and the
  application's operation around it (\<open>runtime/application/datasets.py\<close>), over the in-memory
  repositories of theory \<open>In_Memory_Store\<close>, whose records are extended with the fields that a run
  reads and writes. Connectors, Arrow, hashes and the rendering of a file's URI are parameters;
  a connector answers by functions of its arguments and may fail with a message. A file is known by
  the components of its path. A clock reading and the identifiers that a run draws are
  parameters of the run. Where a run fails, the state that it leaves behind is returned with
  the error. The dataset that a run is given is a value: that a repository may hand out the object it
  stores, which a failing run has then changed already, is not modelled.
\<close>

section \<open>Sources, states, datasets\<close>

record dataset_source =
  src_table :: "string option"
  src_resource :: "string option"
  src_flatten :: "string list option"
  src_sql :: "string option"
  src_storage_uri :: "string option"

definition stripped :: "string option \<Rightarrow> string" where
  "stripped v = py_strip (case v of None \<Rightarrow> [] | Some s \<Rightarrow> s)"

definition count_true :: "bool list \<Rightarrow> nat" where
  "count_true bs = length (filter id bs)"

text \<open>\<open>DatasetSource._validate_source\<close>\<close>

definition source_valid :: "dataset_source \<Rightarrow> bool" where
  "source_valid s =
     (count_true (map (\<lambda>v. stripped v \<noteq> []) [src_table s, src_resource s, src_sql s, src_storage_uri s]) = 1
      \<and> (case src_flatten s of Some (p # ps) \<Rightarrow> stripped (src_resource s) \<noteq> [] | _ \<Rightarrow> True))"

datatype sync_strategy = SY_Full_Refresh | SY_Incremental | SY_Windowed | SY_Manual

record sync_config =
  sc_source :: dataset_source
  sc_strategy :: sync_strategy
  sc_cadence :: "string option"
  sc_cursor_field :: "string option"
  sc_sync_on_start :: bool

datatype sync_status = Never_Synced | Running | Succeeded | Failed

datatype sync_details =
    No_Details
  | Api_Details nat string string uuid string cardinality "schema_drift option" "child_resource list" time
  | Sql_Details string nat string "schema_drift option" uuid string time

record sync_info =
  si_id :: uuid
  si_connector_type :: string
  si_source_kind :: "source_kind option"
  si_source :: "dataset_source option"
  si_mode :: sync_mode
  si_last_cursor :: "string option"
  si_last_sync_at :: "time option"
  si_status :: sync_status
  si_error :: "string option"
  si_records :: nat
  si_bytes :: "nat option"
  si_details :: sync_details

datatype dataset_status = DS_Published | DS_Pending_Sync

record dataset_info =
  dx_source :: "dataset_source option"
  dx_sync :: "sync_config option"
  dx_source_kind :: "source_kind option"
  dx_connector_kind :: "string option"
  dx_storage_kind :: "storage_kind option"
  dx_dialect :: "string option"
  dx_catalog_name :: "string option"
  dx_schema_name :: "string option"
  dx_storage_uri :: "string option"
  dx_file_format :: "(string \<times> bool) option"
  dx_status :: dataset_status
  dx_row_count :: "nat option"
  dx_bytes :: "nat option"
  dx_identity :: "relation_identity option"
  dx_capabilities :: "capabilities option"
  dx_updated_by :: "uuid option"
  dx_revision_id :: "uuid option"

record column_info =
  cx_name :: string
  cx_type :: string
  cx_nullable :: bool
  cx_allowed :: bool
  cx_computed :: bool

record policy_info =
  px_max_rows_preview :: int
  px_max_export_rows :: int
  px_redaction_rules :: "(string, string) dict"
  px_row_filters :: "string list"
  px_allow_dml :: bool
  px_updated_at :: "time option"

datatype source_binding =
    Contract_Binding dataset_info
  | Connection_Binding uuid
  | Sync_Binding string dataset_source string sync_strategy "string option" "string option"
  | File_Binding string "(string \<times> bool) option"

record revision_info =
  rx_id :: uuid
  rx_summary :: string
  rx_dataset :: "dataset_info dataset_metadata"
  rx_columns :: "column_info column_metadata list"
  rx_policy :: "policy_info policy_metadata"
  rx_bindings :: "source_binding list"
  rx_created_by :: uuid

record edge_info =
  ei_source_type :: string
  ei_source_id :: string
  ei_edge_type :: string

type_synonym dataset_record = "dataset_info dataset_metadata"
type_synonym sync_record = "sync_info sync_state"

record 't sync_world =
  sw_files :: "(string list, 't) dict"
  sw_states :: "sync_info sync_repo"
  sw_datasets :: "dataset_info dataset_repo"
  sw_columns :: "column_info column_repo"
  sw_policies :: "(uuid, policy_info policy_metadata) dict"
  sw_revisions :: "revision_info revision_repo"
  sw_edges :: "edge_info lineage_edge list"

datatype sync_error =
    Missing_Connector_Type string
  | Missing_Sync_Source string
  | Bad_Sync_Source
  | Resource_Not_Found string
  | Unsupported_Source string
  | Missing_Contract string
  | Missing_Connector_Kind
  | Empty_Table_Source
  | Connector_Raised string
  | Path_Failed path_error
  | Rows_Failed sync_row_error

section \<open>Connectors and the environment\<close>

record api_resource =
  rs_name :: string
  rs_primary_key :: "string option"
  rs_supports_incremental :: bool

record extract_result =
  xr_records :: "json list"
  xr_next_cursor :: "string option"
  xr_checkpoint :: "string option"

text \<open>\<open>ac_resolve\<close> is \<open>None\<close> where the connector has no such method or it returns no resource.\<close>

record api_connector =
  ac_test :: "(string, unit) result"
  ac_discover :: "(string, api_resource list) result"
  ac_resolve :: "string \<Rightarrow> (string, api_resource option) result"
  ac_extract :: "string \<Rightarrow> string option \<Rightarrow> string option \<Rightarrow> (string, extract_result) result"

record query_result =
  qr_columns :: "string list"
  qr_rows :: "json list list"
  qr_sql :: string

text \<open>The columns of a table are their names and whether they are its primary key.\<close>

record sql_connector =
  qc_test :: "(string, unit) result"
  qc_execute :: "string \<Rightarrow> (string, query_result) result"
  qc_fetch_columns :: "string \<Rightarrow> string \<Rightarrow> (string, (string \<times> bool) list) result"

record connector_record =
  cn_id :: uuid
  cn_name :: string
  cn_type :: "string option"

record 't sync_env =
  se_api :: "connector_record \<Rightarrow> (string, api_connector) result"
  se_sql :: "connector_record \<Rightarrow> (string, sql_connector) result"
  se_arrow :: "'t arrow"
  se_bytes :: "'t \<Rightarrow> nat"
  se_uri :: "string list \<Rightarrow> string"
  se_hash :: "string \<Rightarrow> string"
  se_digest :: "string \<Rightarrow> string"
  se_base_dir :: "string list"
  se_now :: time
  se_state_id :: uuid
  se_revision_id :: uuid

definition lift_error :: "('e \<Rightarrow> 'f) \<Rightarrow> ('e, 'a) result \<Rightarrow> ('f, 'a) result" where
  "lift_error f r = (case r of Inl e \<Rightarrow> Inl (f e) | Inr a \<Rightarrow> Inr a)"

lemma lift_error_simps [simp]: "lift_error f (Inl e) = Inl (f e)" "lift_error f (Inr a) = Inr a"
  by (simp_all add: lift_error_def)

lemma lift_error_eq_Inr [simp]: "lift_error f r = Inr a \<longleftrightarrow> r = Inr a"
  by (cases r) simp_all

section \<open>The source of a dataset\<close>

definition sync_source :: "dataset_record \<Rightarrow> (sync_error, dataset_source) result" where
  "sync_source d =
     (case dx_sync (dt_rest d) of
        None \<Rightarrow> Inl (Missing_Sync_Source (dt_name d))
      | Some c \<Rightarrow> if source_valid (sc_source c) then Inr (sc_source c) else Inl Bad_Sync_Source)"

definition sync_source_key :: "(string \<Rightarrow> string) \<Rightarrow> dataset_source \<Rightarrow> (sync_error, string) result" where
  "sync_source_key hash s =
     (if given (src_resource s) then Inr (''resource:'' @ stripped (src_resource s))
      else if given (src_table s) then Inr (''table:'' @ stripped (src_table s))
      else if given (src_sql s) then Inr (''sql:'' @ hash (stripped (src_sql s)))
      else if given (src_storage_uri s) then Inr (''storage:'' @ stripped (src_storage_uri s))
      else Inl Bad_Sync_Source)"

definition sync_source_kind :: "dataset_source \<Rightarrow> (sync_error, source_kind) result" where
  "sync_source_kind s =
     (if given (src_resource s) then Inr SK_Api
      else if given (src_table s) \<or> given (src_sql s) then Inr SK_Database
      else if given (src_storage_uri s) then Inr SK_File
      else Inl Bad_Sync_Source)"

definition quoted :: "string \<Rightarrow> string" where
  "quoted s = CHR 0x27 # s @ [CHR 0x27]"

definition sync_source_label :: "dataset_source \<Rightarrow> string" where
  "sync_source_label s =
     (if given (src_resource s) then ''resource path '' @ quoted (stripped (src_resource s))
      else if given (src_table s) then ''table '' @ quoted (stripped (src_table s))
      else if given (src_sql s) then ''SQL query''
      else if given (src_storage_uri s) then ''storage source '' @ quoted (stripped (src_storage_uri s))
      else ''sync source'')"

definition relation_parts :: "string \<Rightarrow> (sync_error, string option \<times> string option \<times> string) result" where
  "relation_parts relation_name =
     (case filter (\<lambda>p. p \<noteq> []) (map py_strip (py_split dot relation_name)) of
        [] \<Rightarrow> Inl Empty_Table_Source
      | [t] \<Rightarrow> Inr (None, None, t)
      | [s, t] \<Rightarrow> Inr (None, Some s, t)
      | c # s # t # _ \<Rightarrow> Inr (Some c, Some s, t))"

section \<open>The state of a synchronisation\<close>

definition get_or_create_state ::
  "'t sync_env \<Rightarrow> uuid \<Rightarrow> uuid \<Rightarrow> string \<Rightarrow> string \<Rightarrow> sync_mode \<Rightarrow> 't sync_world \<Rightarrow> 't sync_world \<times> sync_record" where
  "get_or_create_state env ws connection ctype key mode w =
     (case sync_get_for_resource (sw_states w) ws connection key of
        Some s \<Rightarrow> (w, s)
      | None \<Rightarrow>
          let s = \<lparr>ss_workspace_id = ws, ss_connection_id = connection, ss_source_key = key,
            ss_updated_at = Some (se_now env),
            ss_rest = \<lparr>si_id = se_state_id env, si_connector_type = ctype, si_source_kind = None,
              si_source = None, si_mode = mode, si_last_cursor = None, si_last_sync_at = None,
              si_status = Never_Synced, si_error = None, si_records = 0, si_bytes = None,
              si_details = No_Details\<rparr>\<rparr>
          in (w\<lparr>sw_states := sync_add (sw_states w) s\<rparr>, s))"

definition save_state :: "'t sync_world \<Rightarrow> sync_record \<Rightarrow> 't sync_world" where
  "save_state w s = w\<lparr>sw_states := sync_add (sw_states w) s\<rparr>"

definition change_info :: "(sync_info \<Rightarrow> sync_info) \<Rightarrow> sync_record \<Rightarrow> sync_record" where
  "change_info f s = s\<lparr>ss_rest := f (ss_rest s)\<rparr>"

definition started_state ::
  "'t sync_env \<Rightarrow> sync_mode \<Rightarrow> string \<Rightarrow> source_kind \<Rightarrow> dataset_source \<Rightarrow> sync_record \<Rightarrow> sync_record" where
  "started_state env mode key kind src s =
     change_info (\<lambda>i. i\<lparr>si_status := Running, si_mode := mode, si_error := None,
         si_source_kind := Some kind, si_source := Some src\<rparr>)
       (s\<lparr>ss_updated_at := Some (se_now env), ss_source_key := key\<rparr>)"

definition mark_failed :: "'t sync_env \<Rightarrow> sync_record \<Rightarrow> string \<Rightarrow> 't sync_world \<Rightarrow> 't sync_world" where
  "mark_failed env s message w =
     save_state w (change_info (\<lambda>i. i\<lparr>si_status := Failed, si_error := Some message\<rparr>)
       (s\<lparr>ss_updated_at := Some (se_now env)\<rparr>))"

section \<open>Writing the rows of a dataset\<close>

text \<open>\<open>Path / s\<close>: the components of \<open>s\<close> are appended, and an absolute \<open>s\<close> replaces the path.\<close>

definition path_components :: "string \<Rightarrow> string list" where
  "path_components s = filter (\<lambda>p. p \<noteq> [] \<and> p \<noteq> ''.'') (py_split (CHR ''/'') s)"

definition path_div :: "string list \<Rightarrow> string \<Rightarrow> string list" where
  "path_div p s = (if prefix ''/'' s then ''/'' # path_components s else p @ path_components s)"

definition dataset_parquet_path :: "string list \<Rightarrow> uuid \<Rightarrow> uuid \<Rightarrow> string \<Rightarrow> string list" where
  "dataset_parquet_path base ws connection nm =
     path_div (path_div (path_div (path_div base ''api-connectors'') ws) connection) (nm @ ''.parquet'')"

fun collapse_underscores :: "string \<Rightarrow> string" where
  "collapse_underscores [] = []"
| "collapse_underscores (c # s) =
     (if c = CHR ''_'' \<and> prefix ''_'' s then collapse_underscores s else c # collapse_underscores s)"

definition dataset_sql_alias :: "string \<Rightarrow> string" where
  "dataset_sql_alias nm =
     (let alias_name = collapse_underscores (strip_underscores (collapse_symbols False (py_lower (py_strip nm))))
      in if alias_name = [] then ''dataset''
         else if is_digit (hd alias_name) then ''dataset_'' @ alias_name
         else alias_name)"

definition dataset_tags :: "string \<Rightarrow> dataset_source \<Rightarrow> string list" where
  "dataset_tags ctype s =
     (if given (src_resource s)
      then [''api-connector'', py_lower ctype, ''resource:'' @ py_lower (stripped (src_resource s)), ''managed'']
      else if given (src_table s)
      then [''database-connector'', py_lower ctype, ''table:'' @ py_lower (stripped (src_table s)), ''managed'']
      else if given (src_sql s) then [''database-connector'', py_lower ctype, ''sql-sync'', ''managed'']
      else [py_lower ctype, ''managed''])"

fun merge_tags_from :: "string list \<Rightarrow> string list \<Rightarrow> string list" where
  "merge_tags_from merged [] = merged"
| "merge_tags_from merged (t # ts) =
     (let n = py_strip t
      in if n = [] \<or> n \<in> set merged then merge_tags_from merged ts
         else merge_tags_from (merged @ [n]) ts)"

definition merge_tags :: "string list \<Rightarrow> string list \<Rightarrow> string list" where
  "merge_tags existing required = merge_tags_from [] (existing @ required)"

definition dataset_description :: "string \<Rightarrow> string \<Rightarrow> string" where
  "dataset_description connector_name label =
     ''Managed dataset synced from connector '' @ quoted connector_name @ '' '' @ label @ ''.''"

definition replace_columns :: "arrow_field list \<Rightarrow> uuid \<Rightarrow> 't sync_world \<Rightarrow> 't sync_world" where
  "replace_columns fs i w =
     w\<lparr>sw_columns := foldl (\<lambda>r (n, f). column_add r
         \<lparr>cm_dataset_id = i, cm_ordinal = Some (int n),
          cm_rest = \<lparr>cx_name = af_name f, cx_type = af_type f, cx_nullable = af_nullable f,
            cx_allowed = True, cx_computed = False\<rparr>\<rparr>)
       (column_delete_for_dataset (sw_columns w) i) (enumerate 0 fs)\<rparr>"

definition get_or_create_policy ::
  "'t sync_env \<Rightarrow> uuid \<Rightarrow> 't sync_world \<Rightarrow> 't sync_world \<times> policy_info policy_metadata" where
  "get_or_create_policy env i w =
     (let p = (case policy_get_for_dataset (sw_policies w) i of
          Some p \<Rightarrow> p\<lparr>po_rest := (po_rest p)\<lparr>px_allow_dml := False, px_updated_at := Some (se_now env)\<rparr>\<rparr>
        | None \<Rightarrow> \<lparr>po_dataset_id = i, po_rest = \<lparr>px_max_rows_preview = 1000, px_max_export_rows = 100000,
            px_redaction_rules = [], px_row_filters = [], px_allow_dml = False,
            px_updated_at = Some (se_now env)\<rparr>\<rparr>)
      in (w\<lparr>sw_policies := policy_add (sw_policies w) p\<rparr>, p))"

definition source_binding_type :: "dataset_source \<Rightarrow> string" where
  "source_binding_type s =
     (if given (src_resource s) then ''api_resource'' else if given (src_table s) then ''source_table''
      else if given (src_sql s) then ''sql_query'' else ''sync_source'')"

definition build_source_bindings ::
  "(string \<Rightarrow> string) \<Rightarrow> dataset_record \<Rightarrow> (sync_error, source_binding list) result" where
  "build_source_bindings hash d =
     bindR (case dx_sync (dt_rest d) of
         None \<Rightarrow> Inr []
       | Some c \<Rightarrow> bindR (sync_source_key hash (sc_source c)) (\<lambda>k.
           Inr [Sync_Binding (source_binding_type (sc_source c)) (sc_source c) k (sc_strategy c)
             (sc_cadence c) (sc_cursor_field c)])) (\<lambda>sync_part.
       Inr ([Contract_Binding (dt_rest d)]
         @ (case dt_connection_id d of None \<Rightarrow> [] | Some c \<Rightarrow> [Connection_Binding c])
         @ sync_part
         @ (if stripped (dx_storage_uri (dt_rest d)) = [] then []
            else [File_Binding (stripped (dx_storage_uri (dt_rest d))) (dx_file_format (dt_rest d))])))"

definition create_dataset_revision ::
  "'t sync_env \<Rightarrow> dataset_record \<Rightarrow> policy_info policy_metadata \<Rightarrow> uuid \<Rightarrow> string \<Rightarrow> 't sync_world
   \<Rightarrow> (sync_error, 't sync_world \<times> dataset_record) result" where
  "create_dataset_revision env d policy actor summary w =
     bindR (build_source_bindings (se_hash env) d) (\<lambda>bindings.
       Inr (w\<lparr>sw_revisions := revision_add (sw_revisions w)
              \<lparr>rn_dataset_id = dt_id d, rn_number = next_revision_number (sw_revisions w) (dt_id d),
               rn_rest = \<lparr>rx_id = se_revision_id env, rx_summary = summary, rx_dataset = d,
                 rx_columns = column_list_for_dataset (sw_columns w) (dt_id d), rx_policy = policy,
                 rx_bindings = bindings, rx_created_by = actor\<rparr>\<rparr>\<rparr>,
            d\<lparr>dt_rest := (dt_rest d)\<lparr>dx_revision_id := Some (se_revision_id env)\<rparr>\<rparr>))"

definition lineage_edge_to :: "dataset_record \<Rightarrow> string \<Rightarrow> string \<Rightarrow> string \<Rightarrow> edge_info lineage_edge" where
  "lineage_edge_to d source_type source_id edge_type =
     \<lparr>le_workspace_id = dt_workspace_id d, le_target_type = ''dataset'', le_target_id = dt_id d,
      le_rest = \<lparr>ei_source_type = source_type, ei_source_id = source_id, ei_edge_type = edge_type\<rparr>\<rparr>"

definition lineage_edges :: "(string \<Rightarrow> string) \<Rightarrow> dataset_record \<Rightarrow> (sync_error, edge_info lineage_edge list) result" where
  "lineage_edges digest d =
     (let src = map_option sc_source (dx_sync (dt_rest d));
          resource_name = stripped (Option.bind src src_resource);
          table_name = stripped (Option.bind src src_table);
          uri = stripped (dx_storage_uri (dt_rest d));
          connection_edges = (case dt_connection_id d of None \<Rightarrow> []
            | Some c \<Rightarrow> [lineage_edge_to d ''connection'' c ''FEEDS'']);
          resource_edges = (case dt_connection_id d of None \<Rightarrow> []
            | Some c \<Rightarrow> if resource_name = [] then [] else
                [lineage_edge_to d ''api_resource'' (build_api_resource_id c resource_name) ''MATERIALIZES_FROM'']);
          file_edges = (if uri = [] then [] else
            [lineage_edge_to d ''file_resource'' (build_file_resource_id digest uri) ''MATERIALIZES_FROM''])
      in bindR (case dt_connection_id d of None \<Rightarrow> Inr []
           | Some c \<Rightarrow> if table_name = [] then Inr [] else
               bindR (relation_parts table_name) (\<lambda>(cat, sch, tab).
                 Inr [lineage_edge_to d ''source_table'' (build_source_table_resource_id c cat sch tab)
                   ''MATERIALIZES_FROM''])) (\<lambda>table_edges.
         Inr (connection_edges @ resource_edges @ table_edges @ file_edges)))"

text \<open>The old edges are gone when the new ones cannot be built.\<close>

definition replace_dataset_lineage ::
  "'t sync_env \<Rightarrow> dataset_record \<Rightarrow> 't sync_world \<Rightarrow> 't sync_world \<times> (sync_error, unit) result" where
  "replace_dataset_lineage env d w =
     (let cleared = edge_delete_for_target (sw_edges w) (dt_workspace_id d) ''dataset'' (dt_id d)
      in case lineage_edges (se_digest env) d of
           Inl e \<Rightarrow> (w\<lparr>sw_edges := cleared\<rparr>, Inl e)
         | Inr es \<Rightarrow> (w\<lparr>sw_edges := foldl edge_add cleared es\<rparr>, Inr ()))"

text \<open>\<open>_materialize_existing_dataset\<close>: the record as the run leaves it, before its revision.\<close>

definition materialized_dataset ::
  "'t sync_env \<Rightarrow> uuid \<Rightarrow> connector_record \<Rightarrow> string \<Rightarrow> dataset_source \<Rightarrow> sync_config \<Rightarrow> source_kind
   \<Rightarrow> string list \<Rightarrow> nat \<Rightarrow> nat \<Rightarrow> dataset_record \<Rightarrow> dataset_record" where
  "materialized_dataset env actor conn ctype src config kind path rows bytes d =
     (let info = dt_rest d; table = or_else (dt_table_name d) (Some (dataset_sql_alias (dt_name d)));
          uri = Some (se_uri env path)
      in d\<lparr>dt_connection_id := Some (cn_id conn),
           dt_description := (if stripped (dt_description d) = []
             then Some (dataset_description (cn_name conn) (sync_source_label src)) else dt_description d),
           dt_tags := merge_tags (dt_tags d) (dataset_tags ctype src),
           dt_type := DT_File, dt_mode := MM_Synced, dt_table_name := table,
           dt_updated_at := Some (se_now env),
           dt_rest := info\<lparr>dx_source := None, dx_sync := Some (config\<lparr>sc_source := src\<rparr>),
             dx_source_kind := Some kind, dx_connector_kind := Some (py_lower (py_strip (py_lower ctype))),
             dx_storage_kind := Some ST_Parquet, dx_dialect := Some ''duckdb'', dx_schema_name := None,
             dx_storage_uri := uri, dx_file_format := Some (''parquet'', True), dx_status := DS_Published,
             dx_row_count := Some rows, dx_bytes := Some bytes, dx_updated_by := Some actor,
             dx_identity := Some (build_dataset_relation_identity (Some (dt_id d)) (Some (cn_id conn))
               (Some (dt_name d)) (dx_catalog_name info) None table uri kind ST_Parquet (dx_identity info)),
             dx_capabilities := Some (build_dataset_execution_capabilities kind ST_Parquet (dx_capabilities info))\<rparr>\<rparr>)"

definition mode_title :: "sync_mode \<Rightarrow> string" where
  "mode_title m = (case m of Incremental \<Rightarrow> ''Incremental'' | Full_Refresh \<Rightarrow> ''Full Refresh''
     | Webhook_Assisted \<Rightarrow> ''Webhook Assisted'')"

definition change_summary :: "dataset_record \<Rightarrow> sync_mode \<Rightarrow> dataset_source \<Rightarrow> string" where
  "change_summary before mode src =
     (if stripped (dx_storage_uri (dt_rest before)) = []
      then ''Initial sync materialized dataset '' @ quoted (dt_name before) @ '' from '' @ sync_source_label src @ ''.''
      else mode_title mode @ '' sync updated dataset '' @ quoted (dt_name before) @ '' from ''
        @ sync_source_label src @ ''.'')"

record materialized =
  mz_dataset_id :: uuid
  mz_dataset_name :: string
  mz_rows :: nat
  mz_bytes :: nat
  mz_drift :: "schema_drift option"

definition existing_table :: "'t sync_world \<Rightarrow> string list \<Rightarrow> 't option" where
  "existing_table w path = dict_get (sw_files w) path"

definition existing_rows :: "'t arrow \<Rightarrow> 't option \<Rightarrow> json_row list" where
  "existing_rows ar t = (case t of None \<Rightarrow> [] | Some x \<Rightarrow> ar_rows ar x)"

text \<open>The part after the file has been written.\<close>

definition publish_dataset ::
  "'t sync_env \<Rightarrow> uuid \<Rightarrow> connector_record \<Rightarrow> string \<Rightarrow> dataset_record \<Rightarrow> dataset_source \<Rightarrow> sync_mode
   \<Rightarrow> string list \<Rightarrow> 't \<Rightarrow> nat \<Rightarrow> schema_drift option \<Rightarrow> 't sync_world
   \<Rightarrow> 't sync_world \<times> (sync_error, materialized) result" where
  "publish_dataset env actor conn ctype d src mode path table rows drift w =
     (case dx_sync (dt_rest d) of
        None \<Rightarrow> (w, Inl (Missing_Contract (dt_name d)))
      | Some config \<Rightarrow>
        (case sync_source_kind src of
           Inl e \<Rightarrow> (w, Inl e)
         | Inr kind \<Rightarrow>
           if py_strip (py_lower ctype) = [] then (w, Inl Missing_Connector_Kind)
           else
           (let d1 = materialized_dataset env actor conn ctype src config kind path rows (se_bytes env table) d;
                w1 = replace_columns (ar_schema (se_arrow env) table) (dt_id d) w;
                (w2, policy) = get_or_create_policy env (dt_id d) w1
            in case create_dataset_revision env d1 policy actor (change_summary d mode src) w2 of
                 Inl e \<Rightarrow> (w2, Inl e)
               | Inr (w3, d2) \<Rightarrow>
                   (case replace_dataset_lineage env d2 w3 of
                      (w4, Inl e) \<Rightarrow> (w4, Inl e)
                    | (w4, Inr _) \<Rightarrow>
                        (w4\<lparr>sw_datasets := dataset_save (sw_datasets w4) d2\<rparr>,
                         Inr \<lparr>mz_dataset_id = dt_id d, mz_dataset_name = dt_name d, mz_rows = rows,
                              mz_bytes = se_bytes env table, mz_drift = drift\<rparr>)))))"

definition materialize_dataset ::
  "'t sync_env \<Rightarrow> uuid \<Rightarrow> connector_record \<Rightarrow> string \<Rightarrow> dataset_record \<Rightarrow> dataset_source
   \<Rightarrow> json_row list \<Rightarrow> string option \<Rightarrow> sync_mode \<Rightarrow> 't sync_world
   \<Rightarrow> 't sync_world \<times> (sync_error, materialized) result" where
  "materialize_dataset env actor conn ctype d src rows primary_key mode w =
     (let path = dataset_parquet_path (se_base_dir env) (dt_workspace_id d) (cn_id conn) (dt_name d);
          old = existing_table w path;
          schema = map_option (ar_schema (se_arrow env)) old;
          merged = merge_rows (existing_rows (se_arrow env) old) rows primary_key (mode = Full_Refresh)
      in case rows_to_table (se_arrow env) merged schema of
           Inl e \<Rightarrow> (w, Inl (Rows_Failed e))
         | Inr table \<Rightarrow>
             publish_dataset env actor conn ctype d src mode path table (length merged)
               (describe_schema_drift schema (ar_schema (se_arrow env) table))
               (w\<lparr>sw_files := dict_set (sw_files w) path table\<rparr>))"

section \<open>Reading from an API\<close>

definition resolve_api_root_resource :: "api_connector \<Rightarrow> string \<Rightarrow> (sync_error, api_resource) result" where
  "resolve_api_root_resource api nm =
     bindR (lift_error Connector_Raised (ac_discover api)) (\<lambda>found.
       case find (\<lambda>r. rs_name r = nm) (rev found) of
         Some r \<Rightarrow> Inr r
       | None \<Rightarrow> bindR (lift_error Connector_Raised (ac_resolve api nm)) (\<lambda>r.
           case r of Some x \<Rightarrow> Inr x | None \<Rightarrow> Inl (Resource_Not_Found nm)))"

text \<open>The loop over the pages: at most \<open>n\<close> of them are read. The result is the records, the newest
  checkpoint and the number of pages.\<close>

fun extract_pages ::
  "(string option \<Rightarrow> (string, extract_result) result) \<Rightarrow> nat \<Rightarrow> string option \<Rightarrow> string option
   \<Rightarrow> (sync_error, json list \<times> string option \<times> nat) result" where
  "extract_pages extract 0 page_cursor checkpoint = Inr ([], checkpoint, 0)"
| "extract_pages extract (Suc n) page_cursor checkpoint =
     bindR (lift_error Connector_Raised (extract page_cursor)) (\<lambda>x.
     bindR (lift_error Rows_Failed (pick_newer_cursor checkpoint (xr_checkpoint x))) (\<lambda>newest.
       if \<not> given (xr_next_cursor x) then Inr (xr_records x, newest, 1)
       else bindR (extract_pages extract n (xr_next_cursor x) newest) (\<lambda>(rest, final, k).
         Inr (xr_records x @ rest, final, Suc k))))"

text \<open>What one run delivers: the rows, their key, the mode in force, the cursor to store,
  which is computed after the rows are written and may fail, and the details of the state.\<close>

record batch =
  ba_rows :: "json_row list"
  ba_primary_key :: "string option"
  ba_mode :: sync_mode
  ba_cursor :: "(sync_error, string option) result"
  ba_details :: "uuid \<Rightarrow> string \<Rightarrow> schema_drift option \<Rightarrow> sync_details"

definition effective_mode :: "sync_mode \<Rightarrow> api_resource \<Rightarrow> sync_mode" where
  "effective_mode mode r = (if mode = Incremental \<and> \<not> rs_supports_incremental r then Full_Refresh else mode)"

definition fetch_api ::
  "'t sync_env \<Rightarrow> connector_record \<Rightarrow> dataset_source \<Rightarrow> sync_mode \<Rightarrow> nat \<Rightarrow> sync_record
   \<Rightarrow> (sync_error, batch) result" where
  "fetch_api env conn src mode max_pages s =
     bindR (lift_error Connector_Raised (se_api env conn)) (\<lambda>api.
     bindR (lift_error Connector_Raised (ac_test api)) (\<lambda>_.
     bindR (lift_error Path_Failed (normalize_api_resource_path (stripped (src_resource src)))) (\<lambda>path.
     bindR (lift_error Path_Failed (api_resource_root path)) (\<lambda>top.
     bindR (resolve_api_root_resource api top) (\<lambda>resource.
       let eff = effective_mode mode resource; prior = si_last_cursor (ss_rest s);
           incremental = (eff = Incremental \<and> rs_supports_incremental resource);
           since = (if incremental then prior else None)
       in bindR (extract_pages (ac_extract api (rs_name resource) since) max_pages None prior) (\<lambda>(records, newest, pages).
          bindR (lift_error Path_Failed (materialize_api_resource_rows path records (rs_primary_key resource)
              (src_flatten src))) (\<lambda>m.
            Inr \<lparr>ba_rows = mr_rows m,
                 ba_primary_key = materialization_primary_key path (rs_name resource) (rs_primary_key resource) (mr_rows m),
                 ba_mode = eff,
                 ba_cursor = Inr (if incremental then newest else prior),
                 ba_details = (\<lambda>i nm drift. Api_Details pages path (rs_name resource) i nm (mr_cardinality m) drift
                   (mr_child_resources m) (se_now env))\<rparr>)))))))"

section \<open>Reading from a database\<close>

definition sync_sql_literal :: "string \<Rightarrow> string" where
  "sync_sql_literal s = quoted (py_replace [CHR 0x27] [CHR 0x27, CHR 0x27] s)"

definition base_query :: "dataset_source \<Rightarrow> string" where
  "base_query src = (if given (src_table src) then ''SELECT * FROM '' @ stripped (src_table src)
     else stripped (src_sql src))"

definition source_query :: "dataset_source \<Rightarrow> sync_mode \<Rightarrow> string option \<Rightarrow> string \<Rightarrow> string" where
  "source_query src mode prior cursor_field =
     (case prior of
        Some c \<Rightarrow> if mode = Incremental \<and> cursor_field \<noteq> []
          then ''SELECT * FROM ('' @ base_query src @ '') AS langbridge_sync_source WHERE '' @ cursor_field
            @ '' >= '' @ sync_sql_literal c
          else base_query src
      | None \<Rightarrow> base_query src)"

definition row_of :: "string list \<Rightarrow> json list \<Rightarrow> json_row" where
  "row_of columns raw = foldl (\<lambda>r (i, c). dict_set r c (if i < length raw then raw ! i else J_Null)) []
     (enumerate 0 columns)"

text \<open>An error while the columns are looked up means that there is no key.\<close>

definition resolve_sql_primary_key :: "sql_connector \<Rightarrow> dataset_source \<Rightarrow> json_row list \<Rightarrow> string option" where
  "resolve_sql_primary_key sql src rows =
     (let by_id = (if list_ex (\<lambda>r. dict_has r ''id'') rows then Some ''id'' else None)
      in if given (src_table src)
         then (case relation_parts (stripped (src_table src)) of
             Inl _ \<Rightarrow> None
           | Inr (_, schema, table) \<Rightarrow>
               (case qc_fetch_columns sql (case or_else schema (Some ''public'') of Some x \<Rightarrow> x | None \<Rightarrow> []) table of
                  Inl _ \<Rightarrow> None
                | Inr cols \<Rightarrow> (case find snd cols of Some (c, _) \<Rightarrow> Some c | None \<Rightarrow> by_id)))
         else by_id)"

definition cursor_field_of :: "dataset_record \<Rightarrow> string" where
  "cursor_field_of d = stripped (Option.bind (dx_sync (dt_rest d)) sc_cursor_field)"

definition fetch_sql ::
  "'t sync_env \<Rightarrow> connector_record \<Rightarrow> dataset_record \<Rightarrow> dataset_source \<Rightarrow> sync_mode \<Rightarrow> sync_record
   \<Rightarrow> (sync_error, batch) result" where
  "fetch_sql env conn d src mode s =
     bindR (lift_error Connector_Raised (se_sql env conn)) (\<lambda>sql.
     bindR (lift_error Connector_Raised (qc_test sql)) (\<lambda>_.
       let prior = si_last_cursor (ss_rest s); f = cursor_field_of d in
     bindR (lift_error Connector_Raised (qc_execute sql (source_query src mode prior f))) (\<lambda>result.
       let rows = map (row_of (qr_columns result)) (qr_rows result) in
       Inr \<lparr>ba_rows = rows, ba_primary_key = resolve_sql_primary_key sql src rows, ba_mode = mode,
            ba_cursor = lift_error Rows_Failed (resolve_next_sql_cursor rows (if f = [] then None else Some f) prior mode),
            ba_details = (\<lambda>i nm drift. Sql_Details (qr_sql result) (length rows) (sync_source_label src) drift i nm
              (se_now env))\<rparr>)))"

section \<open>A run\<close>

record sync_summary =
  sm_source_key :: string
  sm_mode :: sync_mode
  sm_records :: nat
  sm_bytes :: nat
  sm_last_cursor :: "string option"
  sm_dataset_ids :: "uuid list"
  sm_dataset_names :: "string list"

definition finished_state ::
  "'t sync_env \<Rightarrow> batch \<Rightarrow> string option \<Rightarrow> materialized \<Rightarrow> sync_record \<Rightarrow> sync_record" where
  "finished_state env b cursor m s =
     change_info (\<lambda>i. i\<lparr>si_mode := ba_mode b, si_last_cursor := cursor, si_last_sync_at := Some (se_now env),
         si_status := Succeeded, si_error := None, si_records := length (ba_rows b),
         si_bytes := Some (mz_bytes m),
         si_details := ba_details b (mz_dataset_id m) (mz_dataset_name m) (mz_drift m)\<rparr>)
       (s\<lparr>ss_updated_at := Some (se_now env)\<rparr>)"

definition store_batch ::
  "'t sync_env \<Rightarrow> uuid \<Rightarrow> connector_record \<Rightarrow> string \<Rightarrow> dataset_record \<Rightarrow> dataset_source \<Rightarrow> sync_record
   \<Rightarrow> batch \<Rightarrow> 't sync_world \<Rightarrow> 't sync_world \<times> (sync_error, sync_summary) result" where
  "store_batch env actor conn ctype d src s b w =
     (case materialize_dataset env actor conn ctype d src (ba_rows b) (ba_primary_key b) (ba_mode b) w of
        (w1, Inl e) \<Rightarrow> (w1, Inl e)
      | (w1, Inr m) \<Rightarrow>
          (case ba_cursor b of
             Inl e \<Rightarrow> (w1, Inl e)
           | Inr cursor \<Rightarrow>
               (save_state w1 (finished_state env b cursor m s),
                Inr \<lparr>sm_source_key = ss_source_key s, sm_mode = ba_mode b, sm_records = length (ba_rows b),
                     sm_bytes = mz_bytes m, sm_last_cursor = cursor, sm_dataset_ids = [mz_dataset_id m],
                     sm_dataset_names = [mz_dataset_name m]\<rparr>)))"

definition fetch_batch ::
  "'t sync_env \<Rightarrow> connector_record \<Rightarrow> dataset_record \<Rightarrow> dataset_source \<Rightarrow> sync_mode \<Rightarrow> nat \<Rightarrow> sync_record
   \<Rightarrow> (sync_error, batch) result" where
  "fetch_batch env conn d src mode max_pages s =
     (if given (src_resource src) then fetch_api env conn src mode max_pages s
      else if given (src_table src) \<or> given (src_sql src) then fetch_sql env conn d src mode s
      else Inl (Unsupported_Source (dt_name d)))"

text \<open>\<open>sync_dataset\<close>; the checks before the state is touched are the first result.\<close>

definition run_header ::
  "'t sync_env \<Rightarrow> connector_record \<Rightarrow> dataset_record
   \<Rightarrow> (sync_error, string \<times> dataset_source \<times> string \<times> source_kind) result" where
  "run_header env conn d =
     (case cn_type conn of
        None \<Rightarrow> Inl (Missing_Connector_Type (cn_name conn))
      | Some ctype \<Rightarrow>
          bindR (sync_source d) (\<lambda>src.
          bindR (sync_source_key (se_hash env) src) (\<lambda>key.
          bindR (sync_source_kind src) (\<lambda>kind. Inr (ctype, src, key, kind)))))"

definition begin_run ::
  "'t sync_env \<Rightarrow> uuid \<Rightarrow> connector_record \<Rightarrow> string \<times> dataset_source \<times> string \<times> source_kind
   \<Rightarrow> sync_mode \<Rightarrow> 't sync_world \<Rightarrow> 't sync_world \<times> sync_record" where
  "begin_run env ws conn header mode w = (case header of (ctype, src, key, kind) \<Rightarrow>
     (let (w1, s) = get_or_create_state env ws (cn_id conn) ctype key mode w;
          s' = started_state env mode key kind src s
      in (save_state w1 s', s')))"

definition sync_dataset ::
  "'t sync_env \<Rightarrow> uuid \<Rightarrow> uuid \<Rightarrow> connector_record \<Rightarrow> dataset_record \<Rightarrow> sync_mode \<Rightarrow> nat \<Rightarrow> 't sync_world
   \<Rightarrow> 't sync_world \<times> (sync_error, sync_summary) result" where
  "sync_dataset env ws actor conn d mode max_pages w =
     (case run_header env conn d of
        Inl e \<Rightarrow> (w, Inl e)
      | Inr header \<Rightarrow>
          (case begin_run env ws conn header mode w of (w1, s) \<Rightarrow>
             (case fetch_batch env conn d (fst (snd header)) mode max_pages s of
                Inl e \<Rightarrow> (w1, Inl e)
              | Inr b \<Rightarrow> store_batch env actor conn (fst header) d (fst (snd header)) s b w1)))"

section \<open>The application's operation\<close>

text \<open>
  \<open>DatasetApplication.sync_dataset\<close> runs the service with its default of three pages. The state that
  the failure handler would mark is looked up only after the run, so that it is unknown when the
  run raises. Inside a unit of work the repositories are rolled back by an error, the files are not.
\<close>

definition roll_back :: "'t sync_world \<Rightarrow> 't sync_world \<Rightarrow> 't sync_world" where
  "roll_back before after_run = before\<lparr>sw_files := sw_files after_run\<rparr>"

definition default_pages :: nat where
  "default_pages = 3"

definition application_sync ::
  "'t sync_env \<Rightarrow> bool \<Rightarrow> uuid \<Rightarrow> uuid \<Rightarrow> connector_record \<Rightarrow> dataset_record \<Rightarrow> sync_mode \<Rightarrow> bool
   \<Rightarrow> (sync_error \<Rightarrow> string) \<Rightarrow> 't sync_world \<Rightarrow> 't sync_world \<times> (sync_error, sync_summary) result" where
  "application_sync env transactional ws actor conn d mode force_full_refresh message w =
     (let active_state = (None :: sync_record option)
      in case sync_dataset env ws actor conn d (if force_full_refresh then Full_Refresh else mode) default_pages w of
           (w1, Inr summary) \<Rightarrow>
             (fst (get_or_create_state env ws (cn_id conn) (case cn_type conn of None \<Rightarrow> [] | Some t \<Rightarrow> t)
                (sm_source_key summary) mode w1), Inr summary)
         | (w1, Inl e) \<Rightarrow>
             (let w2 = (if transactional then roll_back w w1 else w1)
              in (case active_state of None \<Rightarrow> w2 | Some s \<Rightarrow> mark_failed env s (message e) w2, Inl e)))"

section \<open>Paging\<close>

text \<open>A chain of pages from a cursor: each page is asked for with the next cursor of the page before.\<close>

fun page_chain ::
  "(string option \<Rightarrow> (string, extract_result) result) \<Rightarrow> string option \<Rightarrow> extract_result list \<Rightarrow> bool" where
  "page_chain extract cursor [] = True"
| "page_chain extract cursor (p # ps) =
     (extract cursor = Inr p \<and> (ps \<noteq> [] \<longrightarrow> given (xr_next_cursor p)) \<and> page_chain extract (xr_next_cursor p) ps)"

lemma extract_pages_chain:
  "extract_pages extract n cursor checkpoint = Inr (records, final, k) \<Longrightarrow>
     \<exists>ps. page_chain extract cursor ps \<and> length ps = k \<and> k \<le> n \<and> records = concat (map xr_records ps)
       \<and> (k < n \<longrightarrow> ps \<noteq> [] \<and> \<not> given (xr_next_cursor (last ps)))"
proof (induction n arbitrary: cursor checkpoint records final k)
  case 0
  then show ?case by (auto intro: exI [of _ "[]"])
next
  case (Suc n)
  then obtain x newest where x: "extract cursor = Inr x" and pick: "pick_newer_cursor checkpoint (xr_checkpoint x) = Inr newest"
    by (auto simp: bindR_eq_Inr)
  show ?case
  proof (cases "given (xr_next_cursor x)")
    case False
    then show ?thesis using Suc.prems x pick by (auto intro!: exI [of _ "[x]"])
  next
    case True
    then obtain rest k' where r: "extract_pages extract n (xr_next_cursor x) newest = Inr (rest, final, k')"
        "records = xr_records x @ rest" "k = Suc k'"
      using Suc.prems x pick by (auto simp: bindR_eq_Inr)
    from Suc.IH [OF r(1)] obtain ps where
        "page_chain extract (xr_next_cursor x) ps" "length ps = k'" "k' \<le> n" "rest = concat (map xr_records ps)"
        "k' < n \<longrightarrow> ps \<noteq> [] \<and> \<not> given (xr_next_cursor (last ps))" by blast
    then show ?thesis using x True r by (intro exI [of _ "x # ps"]) auto
  qed
qed

section \<open>What a successful run leaves\<close>

definition column_of :: "uuid \<Rightarrow> nat \<times> arrow_field \<Rightarrow> column_info column_metadata" where
  "column_of i = (\<lambda>(n, f). \<lparr>cm_dataset_id = i, cm_ordinal = Some (int n),
     cm_rest = \<lparr>cx_name = af_name f, cx_type = af_type f, cx_nullable = af_nullable f,
       cx_allowed = True, cx_computed = False\<rparr>\<rparr>)"

lemma column_add_in_order:
  assumes "sorted_wrt (\<lambda>a b. ordinal a \<le> ordinal b) (columns_of r i @ cs)" "\<forall>c \<in> set cs. cm_dataset_id c = i"
  shows "columns_of (foldl column_add r cs) i = columns_of r i @ cs"
  using assms
proof (induction cs arbitrary: r)
  case (Cons c cs)
  have "sorted (map ordinal (columns_of r i @ [c]))"
    using Cons.prems(1) by (simp add: sorted_wrt_append sorted_map sorted_wrt_map)
  then have "columns_of (column_add r c) i = columns_of r i @ [c]"
    using Cons.prems(2) by (simp add: column_add_def columns_of_def [of "dict_set _ _ _"] sort_key_id_if_sorted)
  then show ?case using Cons by simp
qed simp

lemma replaced_columns:
  "column_list_for_dataset (sw_columns (replace_columns fs i w)) i = map (column_of i) (enumerate 0 fs)"
proof -
  have fold: "foldl (\<lambda>r (n, f). column_add r
         \<lparr>cm_dataset_id = i, cm_ordinal = Some (int n),
          cm_rest = \<lparr>cx_name = af_name f, cx_type = af_type f, cx_nullable = af_nullable f,
            cx_allowed = True, cx_computed = False\<rparr>\<rparr>) r xs = foldl column_add r (map (column_of i) xs)" for r xs
    by (induction xs arbitrary: r) (auto simp: column_of_def)
  have "sorted_wrt (\<lambda>a b. ordinal a \<le> ordinal b) (map (column_of i) (enumerate k fs))" for k
    by (simp add: sorted_wrt_map column_of_def ordinal_def case_prod_unfold sorted_wrt_iff_nth_less nth_enumerate_eq)
  then have "columns_of (foldl column_add (column_delete_for_dataset (sw_columns w) i) (map (column_of i) (enumerate 0 fs))) i
      = map (column_of i) (enumerate 0 fs)"
    by (subst column_add_in_order) (auto simp: column_delete_for_dataset_def columns_of_def column_of_def)
  moreover have "sw_columns (replace_columns fs i w)
      = foldl column_add (column_delete_for_dataset (sw_columns w) i) (map (column_of i) (enumerate 0 fs))"
    by (simp add: replace_columns_def fold)
  ultimately show ?thesis by (simp add: column_list_for_dataset_def)
qed

text \<open>What the publishing part does to the repositories when it succeeds.\<close>

definition published :: "'t sync_env \<Rightarrow> dataset_record \<Rightarrow> arrow_field list \<Rightarrow> 't sync_world \<Rightarrow> 't sync_world \<Rightarrow> bool" where
  "published env d fs w w' =
     (\<exists>d2 p r. dataset_get_by_id (sw_datasets w') (dt_id d) = Some d2
        \<and> dt_id d2 = dt_id d \<and> dt_name d2 = dt_name d \<and> dt_workspace_id d2 = dt_workspace_id d
        \<and> dt_type d2 = DT_File \<and> dt_mode d2 = MM_Synced \<and> dx_status (dt_rest d2) = DS_Published
        \<and> dx_storage_kind (dt_rest d2) = Some ST_Parquet
        \<and> dx_revision_id (dt_rest d2) = Some (rx_id (rn_rest r))
        \<and> column_list_for_dataset (sw_columns w') (dt_id d) = map (column_of (dt_id d)) (enumerate 0 fs)
        \<and> policy_get_for_dataset (sw_policies w') (dt_id d) = Some p \<and> \<not> px_allow_dml (po_rest p)
        \<and> sw_revisions w' = revision_add (sw_revisions w) r
        \<and> rn_dataset_id r = dt_id d \<and> rn_number r = next_revision_number (sw_revisions w) (dt_id d)
        \<and> rx_columns (rn_rest r) = map (column_of (dt_id d)) (enumerate 0 fs) \<and> rx_policy (rn_rest r) = p
        \<and> (\<exists>es. sw_edges w' = edge_delete_for_target (sw_edges w) (dt_workspace_id d) ''dataset'' (dt_id d) @ es
              \<and> list_all (\<lambda>e. le_target_id e = dt_id d \<and> le_target_type e = ''dataset'') es)
        \<and> (\<forall>i. i \<noteq> dt_id d \<longrightarrow> dataset_get_by_id (sw_datasets w') i = dataset_get_by_id (sw_datasets w) i
              \<and> policy_get_for_dataset (sw_policies w') i = policy_get_for_dataset (sw_policies w) i))"

lemma fold_edge_add: "foldl edge_add es fs = es @ fs"
  by (induction fs arbitrary: es) (simp_all add: edge_add_def)

lemma lineage_edges_target:
  "lineage_edges digest d = Inr es \<Longrightarrow> list_all (\<lambda>e. le_target_id e = dt_id d \<and> le_target_type e = ''dataset'') es"
  by (auto simp: lineage_edges_def Let_def bindR_eq_Inr lineage_edge_to_def split: option.splits if_splits)

lemma publish_success:
  assumes "publish_dataset env actor conn ctype d src mode path table rows drift w = (w', Inr m)"
    and keyed: "keyed_dict po_dataset_id (sw_policies w)"
  shows "published env d (ar_schema (se_arrow env) table) w w'"
    and "\<exists>d2. dataset_get_by_id (sw_datasets w') (dt_id d) = Some d2 \<and> dx_row_count (dt_rest d2) = Some rows
       \<and> dx_storage_uri (dt_rest d2) = Some (se_uri env path)"
    and "sw_files w' = sw_files w" "sw_states w' = sw_states w"
    and "m = \<lparr>mz_dataset_id = dt_id d, mz_dataset_name = dt_name d, mz_rows = rows,
          mz_bytes = se_bytes env table, mz_drift = drift\<rparr>"
proof -
  let ?fs = "ar_schema (se_arrow env) table" and ?i = "dt_id d"
  obtain config kind where config: "dx_sync (dt_rest d) = Some config" and kind: "sync_source_kind src = Inr kind"
    and blank: "py_strip (py_lower ctype) \<noteq> []"
    using assms(1) by (auto simp: publish_dataset_def split: option.splits sum.splits if_splits)
  define d1 where d1: "d1 = materialized_dataset env actor conn ctype src config kind path rows (se_bytes env table) d"
  define w1 where w1: "w1 = replace_columns ?fs ?i w"
  obtain w2 p where w2: "get_or_create_policy env ?i w1 = (w2, p)" by (cases "get_or_create_policy env ?i w1")
  obtain w3 d2 where w3: "create_dataset_revision env d1 p actor (change_summary d mode src) w2 = Inr (w3, d2)"
    using assms(1) config kind blank w2
    by (auto simp: publish_dataset_def Let_def d1 w1 split: sum.splits)
  obtain w4 where w4: "replace_dataset_lineage env d2 w3 = (w4, Inr ())"
    using assms(1) config kind blank w2 w3
    by (auto simp: publish_dataset_def Let_def d1 w1 split: prod.splits sum.splits)
  have w': "w' = w4\<lparr>sw_datasets := dataset_save (sw_datasets w4) d2\<rparr>"
    and m: "m = \<lparr>mz_dataset_id = ?i, mz_dataset_name = dt_name d, mz_rows = rows,
          mz_bytes = se_bytes env table, mz_drift = drift\<rparr>"
    using assms(1) config kind blank w2 w3 w4 by (simp_all add: publish_dataset_def Let_def d1 w1)
  have ids: "dt_id d1 = ?i" "dt_name d1 = dt_name d" "dt_workspace_id d1 = dt_workspace_id d"
    by (simp_all add: d1 materialized_dataset_def Let_def)
  obtain bs where bs: "w3 = w2\<lparr>sw_revisions := revision_add (sw_revisions w2)
              \<lparr>rn_dataset_id = ?i, rn_number = next_revision_number (sw_revisions w2) ?i,
               rn_rest = \<lparr>rx_id = se_revision_id env, rx_summary = change_summary d mode src, rx_dataset = d1,
                 rx_columns = column_list_for_dataset (sw_columns w2) ?i, rx_policy = p,
                 rx_bindings = bs, rx_created_by = actor\<rparr>\<rparr>\<rparr>"
    and d2: "d2 = d1\<lparr>dt_rest := (dt_rest d1)\<lparr>dx_revision_id := Some (se_revision_id env)\<rparr>\<rparr>"
    using w3 ids by (auto simp: create_dataset_revision_def bindR_eq_Inr)
  obtain es where es: "lineage_edges (se_digest env) d2 = Inr es"
    and w4e: "w4 = w3\<lparr>sw_edges := edge_delete_for_target (sw_edges w3) (dt_workspace_id d) ''dataset'' ?i @ es\<rparr>"
    using w4 ids by (auto simp: replace_dataset_lineage_def Let_def d2 fold_edge_add split: sum.splits)
  have same_policies: "sw_policies w1 = sw_policies w" by (simp add: w1 replace_columns_def)
  have pol: "\<not> px_allow_dml (po_rest p)" "po_dataset_id p = ?i"
    and w2p: "w2 = w1\<lparr>sw_policies := policy_add (sw_policies w1) p\<rparr>"
    using w2 policy_store.keyed [OF keyed] same_policies
    by (auto simp: get_or_create_policy_def Let_def split: option.splits)
  show "m = \<lparr>mz_dataset_id = ?i, mz_dataset_name = dt_name d, mz_rows = rows,
          mz_bytes = se_bytes env table, mz_drift = drift\<rparr>" by (rule m)
  show "sw_files w' = sw_files w" "sw_states w' = sw_states w"
    by (simp_all add: w' w4e bs w2p w1 replace_columns_def)
  show "\<exists>d2. dataset_get_by_id (sw_datasets w') (dt_id d) = Some d2 \<and> dx_row_count (dt_rest d2) = Some rows
       \<and> dx_storage_uri (dt_rest d2) = Some (se_uri env path)"
    using ids by (simp add: w' w4e dataset_save_def dataset_get_by_id_def d2 d1 materialized_dataset_def Let_def)
  let ?r = "\<lparr>rn_dataset_id = ?i, rn_number = next_revision_number (sw_revisions w) ?i,
      rn_rest = \<lparr>rx_id = se_revision_id env, rx_summary = change_summary d mode src, rx_dataset = d1,
        rx_columns = map (column_of ?i) (enumerate 0 ?fs), rx_policy = p, rx_bindings = bs, rx_created_by = actor\<rparr>\<rparr>"
  have d2_facts: "dt_id d2 = ?i" "dt_name d2 = dt_name d" "dt_workspace_id d2 = dt_workspace_id d"
      "dt_type d2 = DT_File" "dt_mode d2 = MM_Synced" "dx_status (dt_rest d2) = DS_Published"
      "dx_storage_kind (dt_rest d2) = Some ST_Parquet" "dx_revision_id (dt_rest d2) = Some (rx_id (rn_rest ?r))"
    using ids by (simp_all add: d2 d1 materialized_dataset_def Let_def)
  have cols: "column_list_for_dataset (sw_columns w1) ?i = map (column_of ?i) (enumerate 0 ?fs)"
    unfolding w1 by (rule replaced_columns)
  have unchanged: "sw_datasets w1 = sw_datasets w" "sw_revisions w1 = sw_revisions w" "sw_edges w1 = sw_edges w"
    by (simp_all add: w1 replace_columns_def)
  have final: "sw_datasets w' = dataset_save (sw_datasets w) d2" "sw_columns w' = sw_columns w1"
      "sw_policies w' = policy_add (sw_policies w) p" "sw_revisions w' = revision_add (sw_revisions w) ?r"
      "sw_edges w' = edge_delete_for_target (sw_edges w) (dt_workspace_id d) ''dataset'' ?i @ es"
    using cols unchanged same_policies by (simp_all add: w' w4e bs w2p)
  have edges: "list_all (\<lambda>e. le_target_id e = ?i \<and> le_target_type e = ''dataset'') es"
    using lineage_edges_target [OF es] d2_facts by simp
  have others: "dataset_get_by_id (sw_datasets w') i = dataset_get_by_id (sw_datasets w) i \<and>
      policy_get_for_dataset (sw_policies w') i = policy_get_for_dataset (sw_policies w) i" if "i \<noteq> ?i" for i
    using that d2_facts pol by (simp add: final dataset_save_def dataset_get_by_id_def
      policy_add_def policy_get_for_dataset_def)
  have "dataset_get_by_id (sw_datasets w') ?i = Some d2" "policy_get_for_dataset (sw_policies w') ?i = Some p"
    using d2_facts pol by (simp_all add: final dataset_save_def dataset_get_by_id_def
      policy_add_def policy_get_for_dataset_def)
  then show "published env d ?fs w w'"
    unfolding published_def
    by (intro exI [of _ d2] exI [of _ p] exI [of _ ?r]) (use d2_facts pol final cols edges others in auto)
qed

text \<open>
  What is relied on of Arrow: a table made from rows reads back as those rows, and a table made from
  a schema alone, or from nothing, has no rows.
\<close>

definition arrow_ok :: "'t arrow \<Rightarrow> bool" where
  "arrow_ok ar \<longleftrightarrow> (\<forall>rows t. ar_from_pylist ar rows = Some t \<longrightarrow> ar_rows ar t = rows)
     \<and> (\<forall>fs. ar_rows ar (ar_empty_like ar fs) = []) \<and> ar_rows ar (ar_no_columns ar) = []"

definition stored_rows :: "'t sync_env \<Rightarrow> connector_record \<Rightarrow> dataset_record \<Rightarrow> 't sync_world \<Rightarrow> json_row list" where
  "stored_rows env conn d w = existing_rows (se_arrow env)
     (existing_table w (dataset_parquet_path (se_base_dir env) (dt_workspace_id d) (cn_id conn) (dt_name d)))"

lemma rows_to_table_length:
  assumes "rows_to_table ar rows schema = Inr t" "arrow_ok ar"
  shows "length (ar_rows ar t) = length rows"
proof -
  obtain out where out: "normalize_rows_for_arrow (ar_float_text ar) rows = Inr out"
    using assms(1) by (auto simp: rows_to_table_def bindR_eq_Inr)
  then have len: "length out = length rows"
    by (auto simp: normalize_rows_iff list_all2_lengthD)
  have "ar_rows ar t = out \<or> ar_rows ar t = map stringified out"
    using assms out by (auto simp: rows_to_table_def arrow_ok_def split: if_splits option.splits)
  then show ?thesis using len by auto
qed



lemma materialize_success:
  assumes "materialize_dataset env actor conn ctype d src rows pk mode w = (w', Inr m)"
    and "keyed_dict po_dataset_id (sw_policies w)"
  defines "path \<equiv> dataset_parquet_path (se_base_dir env) (dt_workspace_id d) (cn_id conn) (dt_name d)"
    and "merged \<equiv> merge_rows (stored_rows env conn d w) rows pk (mode = Full_Refresh)"
  obtains table where "rows_to_table (se_arrow env) merged
        (map_option (ar_schema (se_arrow env)) (existing_table w path)) = Inr table"
    and "sw_files w' = dict_set (sw_files w) path table" "sw_states w' = sw_states w"
    and "published env d (ar_schema (se_arrow env) table) w w'"
    and "\<exists>d2. dataset_get_by_id (sw_datasets w') (dt_id d) = Some d2 \<and> dx_row_count (dt_rest d2) = Some (length merged)
       \<and> dx_storage_uri (dt_rest d2) = Some (se_uri env path)"
    and "mz_rows m = length merged" "mz_bytes m = se_bytes env table" "mz_dataset_id m = dt_id d"
      "mz_dataset_name m = dt_name d"
proof -
  let ?schema = "map_option (ar_schema (se_arrow env)) (existing_table w path)"
  obtain table where table: "rows_to_table (se_arrow env) merged ?schema = Inr table"
    using assms(1) unfolding merged_def path_def
    by (auto simp: materialize_dataset_def stored_rows_def Let_def split: sum.splits)
  let ?w = "w\<lparr>sw_files := dict_set (sw_files w) path table\<rparr>"
  have p: "publish_dataset env actor conn ctype d src mode path table (length merged)
      (describe_schema_drift ?schema (ar_schema (se_arrow env) table)) ?w = (w', Inr m)"
    using assms(1) table unfolding merged_def path_def
    by (simp add: materialize_dataset_def stored_rows_def Let_def)
  have "keyed_dict po_dataset_id (sw_policies ?w)" using assms(2) by simp
  note s = publish_success [OF p this]
  have "published env d (ar_schema (se_arrow env) table) w w'"
    using s(1) by (simp add: published_def)
  then show ?thesis using that table s(2-5) by simp
qed

section \<open>Runs\<close>







text \<open>Without a key every delivered row is added, so that a source whose boundary rows are delivered
  again (the condition on the cursor is \<open>>=\<close>) has them twice.\<close>

lemma keyless_rows_accumulate:
  assumes "store_batch env actor conn ctype d src s b w = (w', Inr sm)"
    and "ba_primary_key b = None" "ba_mode b \<noteq> Full_Refresh" "arrow_ok (se_arrow env)"
    and "keyed_dict po_dataset_id (sw_policies w)"
  shows "length (stored_rows env conn d w') = length (stored_rows env conn d w) + length (ba_rows b)"
proof -
  obtain w2 m cursor where mat: "materialize_dataset env actor conn ctype d src (ba_rows b) (ba_primary_key b) (ba_mode b) w
      = (w2, Inr m)" "ba_cursor b = Inr cursor"
    using assms(1) by (auto simp: store_batch_def split: prod.splits sum.splits)
  then have w': "w' = save_state w2 (finished_state env b cursor m s)"
    using assms(1) by (auto simp: store_batch_def)
  from materialize_success [OF mat(1) assms(5)] obtain table where
      table: "rows_to_table (se_arrow env) (merge_rows (stored_rows env conn d w) (ba_rows b) (ba_primary_key b)
          (ba_mode b = Full_Refresh)) (map_option (ar_schema (se_arrow env)) (existing_table w
          (dataset_parquet_path (se_base_dir env) (dt_workspace_id d) (cn_id conn) (dt_name d)))) = Inr table"
    and files: "sw_files w2 = dict_set (sw_files w)
          (dataset_parquet_path (se_base_dir env) (dt_workspace_id d) (cn_id conn) (dt_name d)) table"
    by metis
  have "stored_rows env conn d w' = ar_rows (se_arrow env) table"
    by (simp add: w' save_state_def stored_rows_def existing_table_def existing_rows_def files)
  then show ?thesis
    using rows_to_table_length [OF table assms(4)] assms(2,3) by (simp add: merge_rows_def)
qed

section \<open>Pages that are never read\<close>

fun newest_of :: "string option \<Rightarrow> extract_result list \<Rightarrow> (sync_row_error, string option) result" where
  "newest_of c [] = Inr c"
| "newest_of c (p # ps) = bindR (pick_newer_cursor c (xr_checkpoint p)) (\<lambda>c'. newest_of c' ps)"

text \<open>The loop over the pages of an API ends after its bound as if the source were exhausted: when the
  first pages all announce a next one, exactly the records of these pages are delivered,
  without an error, and the checkpoint is advanced over them, whatever comes after.\<close>

theorem unread_pages_are_dropped:
  assumes "page_chain extract cursor ps" "list_all (\<lambda>p. given (xr_next_cursor p)) ps"
    and "newest_of checkpoint ps = Inr final"
  shows "extract_pages extract (length ps) cursor checkpoint = Inr (concat (map xr_records ps), final, length ps)"
  using assms
  by (induction ps arbitrary: cursor checkpoint) (auto simp: bindR_eq_Inr)

definition four_pages :: "string option \<Rightarrow> (string, extract_result) result" where
  "four_pages cursor =
     (let page = (\<lambda>n next_cursor. Inr \<lparr>xr_records = [J_Int n], xr_next_cursor = next_cursor, xr_checkpoint = None\<rparr>)
      in case cursor of
           None \<Rightarrow> page 1 (Some ''a'')
         | Some s \<Rightarrow> if s = ''a'' then page 2 (Some ''b'') else if s = ''b'' then page 3 (Some ''c'') else page 4 None)"

theorem unread_pages_are_dropped_witness:
  "extract_pages four_pages default_pages None (Some ''0'') = Inr ([J_Int 1, J_Int 2, J_Int 3], Some ''0'', 3)"
  using unread_pages_are_dropped [of four_pages None
      "[\<lparr>xr_records = [J_Int 1], xr_next_cursor = Some ''a'', xr_checkpoint = None\<rparr>,
        \<lparr>xr_records = [J_Int 2], xr_next_cursor = Some ''b'', xr_checkpoint = None\<rparr>,
        \<lparr>xr_records = [J_Int 3], xr_next_cursor = Some ''c'', xr_checkpoint = None\<rparr>]" "Some ''0''" "Some ''0''"]
  by (simp add: four_pages_def given_def pick_newer_cursor_def default_pages_def numeral_3_eq_3)

section \<open>A concrete run\<close>

definition demo_arrow :: "(arrow_field list \<times> json_row list) arrow" where
  "demo_arrow = \<lparr>ar_from_pylist = (\<lambda>rows. Some (map (\<lambda>c. \<lparr>af_name = c, af_type = ''x'', af_nullable = True\<rparr>)
       (all_columns rows), rows)),
     ar_empty_like = (\<lambda>fs. (fs, [])), ar_no_columns = ([], []), ar_schema = fst, ar_rows = snd,
     ar_float_text = (\<lambda>n. None)\<rparr>"


definition demo_env :: "(arrow_field list \<times> json_row list) sync_env" where
  "demo_env = \<lparr>se_api = (\<lambda>_. Inl ''down''),
     se_sql = (\<lambda>_. Inr \<lparr>qc_test = Inr (), qc_execute = (\<lambda>q. Inr \<lparr>qr_columns = [''k''], qr_rows = [[J_Int 5]], qr_sql = []\<rparr>),
       qc_fetch_columns = (\<lambda>_ _. Inr [])\<rparr>),
     se_arrow = demo_arrow, se_bytes = (\<lambda>t. length (snd t)), se_uri = (\<lambda>p. ''f''), se_hash = (\<lambda>x. x),
     se_digest = (\<lambda>x. x), se_base_dir = [], se_now = 0, se_state_id = ''s'', se_revision_id = ''r''\<rparr>"

definition demo_conn :: connector_record where
  "demo_conn = \<lparr>cn_id = ''c'', cn_name = ''n'', cn_type = Some ''P''\<rparr>"

definition demo_source :: "string option \<Rightarrow> string option \<Rightarrow> dataset_source" where
  "demo_source t r = \<lparr>src_table = t, src_resource = r, src_flatten = None, src_sql = None, src_storage_uri = None\<rparr>"

definition demo_dataset :: "dataset_source \<Rightarrow> dataset_record" where
  "demo_dataset src = \<lparr>dt_id = ''d'', dt_workspace_id = ''w'', dt_connection_id = None, dt_name = ''x'',
     dt_sql_alias = ''x'', dt_description = Some ''y'', dt_tags = [], dt_type = DT_File, dt_mode = MM_Synced,
     dt_table_name = Some ''x'', dt_updated_at = None,
     dt_rest = \<lparr>dx_source = None, dx_sync = Some \<lparr>sc_source = src, sc_strategy = SY_Incremental,
         sc_cadence = None, sc_cursor_field = Some ''k'', sc_sync_on_start = False\<rparr>,
       dx_source_kind = None, dx_connector_kind = None, dx_storage_kind = None, dx_dialect = None,
       dx_catalog_name = None, dx_schema_name = None, dx_storage_uri = None, dx_file_format = None,
       dx_status = DS_Pending_Sync, dx_row_count = None, dx_bytes = None, dx_identity = None,
       dx_capabilities = None, dx_updated_by = None, dx_revision_id = None\<rparr>\<rparr>"

definition demo_world :: "(arrow_field list \<times> json_row list) sync_world" where
  "demo_world = \<lparr>sw_files = [], sw_states = [], sw_datasets = [], sw_columns = [], sw_policies = [],
     sw_revisions = [], sw_edges = []\<rparr>"



text \<open>An API that is down leaves its source running for ever.\<close>

lemma failed_sync_keeps_running:
  "(case application_sync demo_env False ''w'' ''u'' demo_conn (demo_dataset (demo_source None (Some ''r'')))
      Incremental False (\<lambda>_. ''m'') demo_world of
      (w', Inr _) \<Rightarrow> False
    | (w', Inl e) \<Rightarrow> e = Connector_Raised ''down''
        \<and> map (\<lambda>s. si_status (ss_rest s)) (dict_values (sw_states w')) = [Running])"
  by code_simp

end
