(* ===== verification/Passwords.thy ===== *)
theory Passwords
  imports Sql_Utils "HOL-Library.Word"
begin

text \<open>
  Password hashes (\<open>runtime/hosting/passwords.py\<close>): the salt and the PBKDF2 digest in URL-safe
  base64 behind the algorithm and the iterations. Bytes are 8-bit words; \<open>b64decode\<close> is the
  lenient decoder of \<open>binascii\<close>, which skips characters outside the alphabet. PBKDF2 is a
  parameter that may refuse a number of iterations. The limit on the digits that \<open>int\<close> reads
  is left out.
\<close>

type_synonym byte = "8 word"

type_synonym kdf = "byte list \<Rightarrow> byte list \<Rightarrow> int \<Rightarrow> byte list option"

section \<open>Base64\<close>

definition b64_char :: "nat \<Rightarrow> char" where
  "b64_char v =
     (if v < 26 then char_of (v + 65) else if v < 52 then char_of (v + 71)
      else if v < 62 then char_of (v - 4) else if v = 62 then CHR ''-'' else CHR ''_'')"

text \<open>Decoding translates the two URL-safe characters and accepts the ordinary ones as well.\<close>

definition b64_value :: "char \<Rightarrow> nat option" where
  "b64_value c =
     (let n = of_char c :: nat in
      if 65 \<le> n \<and> n \<le> 90 then Some (n - 65) else if 97 \<le> n \<and> n \<le> 122 then Some (n - 71)
      else if 48 \<le> n \<and> n \<le> 57 then Some (n + 4)
      else if c \<in> {CHR ''-'', CHR ''+''} then Some 62
      else if c \<in> {CHR ''_'', CHR ''/''} then Some 63 else None)"

fun b64_encode :: "byte list \<Rightarrow> string" where
  "b64_encode [] = []"
| "b64_encode [a] = [b64_char (unat a div 4), b64_char (unat a mod 4 * 16), CHR ''='', CHR ''='']"
| "b64_encode [a, b] =
     [b64_char (unat a div 4), b64_char (unat a mod 4 * 16 + unat b div 16), b64_char (unat b mod 16 * 4), CHR ''='']"
| "b64_encode (a # b # c # bs) =
     [b64_char (unat a div 4), b64_char (unat a mod 4 * 16 + unat b div 16),
      b64_char (unat b mod 16 * 4 + unat c div 64), b64_char (unat c mod 64)] @ b64_encode bs"

text \<open>The decoder's loop: the position in the group of four, the bits left over, the pads seen.\<close>

fun b64_loop :: "nat \<Rightarrow> nat \<Rightarrow> nat \<Rightarrow> string \<Rightarrow> byte list option" where
  "b64_loop quad left pads [] = (if quad = 0 then Some [] else None)"
| "b64_loop quad left pads (c # s) =
     (if c = CHR ''=''
      then (if 2 \<le> quad then (if 4 \<le> quad + Suc pads then Some [] else b64_loop quad left (Suc pads) s)
            else b64_loop quad left pads s)
      else case b64_value c of
          None \<Rightarrow> b64_loop quad left pads s
        | Some v \<Rightarrow>
            if quad = 0 then b64_loop 1 v 0 s
            else if quad = 1 then map_option ((#) (of_nat (left * 4 + v div 16))) (b64_loop 2 (v mod 16) 0 s)
            else if quad = 2 then map_option ((#) (of_nat (left * 16 + v div 4))) (b64_loop 3 (v mod 4) 0 s)
            else map_option ((#) (of_nat (left * 64 + v))) (b64_loop 0 0 0 s))"

definition b64_decode :: "string \<Rightarrow> byte list option" where
  "b64_decode s = b64_loop 0 0 0 s"

section \<open>Hashes\<close>

definition utf8_char :: "char \<Rightarrow> byte list" where
  "utf8_char c = (let n = of_char c :: nat in
     if n < 128 then [of_nat n] else [of_nat (192 + n div 64), of_nat (128 + n mod 64)])"

definition utf8 :: "string \<Rightarrow> byte list" where
  "utf8 s = concat (map utf8_char s)"

definition iterations :: int where
  "iterations = 200000"

definition dollar :: char where
  "dollar = CHR 0x24"

definition format_hash :: "byte list \<Rightarrow> byte list \<Rightarrow> string" where
  "format_hash salt digest =
     ''pbkdf2_sha256'' @ dollar # py_str_int iterations @ dollar # b64_encode salt @ dollar # b64_encode digest"

definition hash_password :: "kdf \<Rightarrow> byte list \<Rightarrow> string \<Rightarrow> string option" where
  "hash_password kdf salt password = map_option (format_hash salt) (kdf (utf8 password) salt iterations)"

text \<open>\<open>s.split(c, n)\<close>\<close>

fun py_split_max :: "nat \<Rightarrow> char \<Rightarrow> string \<Rightarrow> string list" where
  "py_split_max 0 c s = [s]"
| "py_split_max (Suc n) c s =
     (case dropWhile (\<lambda>x. x \<noteq> c) s of
        [] \<Rightarrow> [s]
      | _ # r \<Rightarrow> takeWhile (\<lambda>x. x \<noteq> c) s # py_split_max n c r)"

text \<open>\<open>int(text)\<close> of any text\<close>

definition parse_int :: "string \<Rightarrow> int option" where
  "parse_int s =
     (let t = py_strip s; sign = (prefix ''+'' t \<or> prefix ''-'' t); u = (if sign then tl t else t)
      in if u \<noteq> [] \<and> is_digit (hd u) \<and> is_digit (last u) \<and> \<not> sublist ''__'' u
           \<and> list_all (\<lambda>c. is_digit c \<or> c = CHR ''_'') u
         then map_option (\<lambda>n. if prefix ''-'' t then - n else n) (py_int (filter is_digit u)) else None)"

definition ascii :: "string \<Rightarrow> bool" where
  "ascii s = list_all (\<lambda>c. (of_char c :: nat) < 128) s"

definition decoded_hash :: "string \<Rightarrow> (int \<times> byte list \<times> byte list) option" where
  "decoded_hash encoded =
     (case py_split_max 3 dollar encoded of
        [algorithm, rounds, salt, digest] \<Rightarrow>
          if algorithm = ''pbkdf2_sha256'' \<and> ascii salt \<and> ascii digest
          then Option.bind (parse_int rounds) (\<lambda>n. Option.bind (b64_decode salt) (\<lambda>s.
            map_option (\<lambda>d. (n, s, d)) (b64_decode digest)))
          else None
      | _ \<Rightarrow> None)"

text \<open>\<open>None\<close> where PBKDF2 raises, which happens outside the handler.\<close>

definition verify_password :: "kdf \<Rightarrow> string \<Rightarrow> string \<Rightarrow> bool option" where
  "verify_password kdf password encoded =
     (case decoded_hash encoded of
        None \<Rightarrow> Some False
      | Some (n, salt, expected) \<Rightarrow> map_option (\<lambda>d. d = expected) (kdf (utf8 password) salt n))"

section \<open>Round trips\<close>

lemma b64_char_value: "v < 64 \<Longrightarrow> b64_value (b64_char v) = Some v"
proof -
  assume "v < 64"
  then consider "v < 26" | "26 \<le> v" "v < 52" | "52 \<le> v" "v < 62" | "v = 62" | "v = 63" by linarith
  then show ?thesis by cases (auto simp: b64_char_def b64_value_def Let_def)
qed

lemma b64_char_plain: "v < 64 \<Longrightarrow> b64_char v \<noteq> CHR ''='' \<and> b64_char v \<noteq> dollar \<and> (of_char (b64_char v) :: nat) < 128"
proof -
  assume "v < 64"
  then have "b64_value (b64_char v) = Some v" by (rule b64_char_value)
  then have ne: "b64_char v \<noteq> CHR ''=''" "b64_char v \<noteq> dollar" by (auto simp: b64_value_def dollar_def)
  from \<open>v < 64\<close> consider "v < 26" | "26 \<le> v" "v < 52" | "52 \<le> v" "v < 62" | "v = 62" | "v = 63" by linarith
  then have "(of_char (b64_char v) :: nat) < 128" by cases (simp_all add: b64_char_def)
  with ne show ?thesis by blast
qed

lemma byte_bounds:
  fixes a b :: byte
  shows "unat a < 256" "unat a div 4 < 64" "unat a mod 4 * 16 < 64" "unat a mod 16 * 4 < 64" "unat a mod 64 < 64"
    "unat a mod 4 * 16 + unat b div 16 < 64" "unat a mod 16 * 4 + unat b div 64 < 64"
proof -
  have "unat x < 2 ^ LENGTH(8)" for x :: byte by (rule unsigned_less)
  then have u: "unat x < 256" for x :: byte by simp
  show "unat a < 256" by (rule u)
  show "unat a div 4 < 64" "unat a mod 4 * 16 < 64" "unat a mod 16 * 4 < 64" "unat a mod 64 < 64"
    "unat a mod 4 * 16 + unat b div 16 < 64" "unat a mod 16 * 4 + unat b div 64 < 64"
    using u [of a] u [of b] by auto
qed

lemma b64_loop_pad:
  "b64_loop quad left pads (CHR ''='' # s) =
    (if 2 \<le> quad then (if 4 \<le> quad + Suc pads then Some [] else b64_loop quad left (Suc pads) s)
     else b64_loop quad left pads s)"
  by simp

lemma b64_loop_char:
  assumes "v < 64"
  shows "b64_loop quad left pads (b64_char v # s) =
    (if quad = 0 then b64_loop 1 v 0 s
     else if quad = 1 then map_option ((#) (of_nat (left * 4 + v div 16))) (b64_loop 2 (v mod 16) 0 s)
     else if quad = 2 then map_option ((#) (of_nat (left * 16 + v div 4))) (b64_loop 3 (v mod 4) 0 s)
     else map_option ((#) (of_nat (left * 64 + v))) (b64_loop 0 0 0 s))"
  using b64_char_value [OF assms] b64_char_plain [OF assms] by simp

declare b64_loop.simps(2) [simp del]

lemma byte_parts:
  fixes a b c :: byte
  shows "(of_nat (unat a div 4 * 4 + unat a mod 4 * 16 div 16) :: byte) = a"
    "(of_nat (unat a div 4 * 4 + (unat a mod 4 * 16 + unat b div 16) div 16) :: byte) = a"
    "(of_nat ((unat a mod 4 * 16 + unat b div 16) mod 16 * 16 + unat b mod 16 * 4 div 4) :: byte) = b"
    "(of_nat ((unat a mod 4 * 16 + unat b div 16) mod 16 * 16 + (unat b mod 16 * 4 + unat c div 64) div 4) :: byte) = b"
    "(of_nat ((unat b mod 16 * 4 + unat c div 64) mod 4 * 64 + unat c mod 64) :: byte) = c"
proof -
  have "unat a div 4 * 4 + unat a mod 4 * 16 div 16 = unat a" by simp
  then show "(of_nat (unat a div 4 * 4 + unat a mod 4 * 16 div 16) :: byte) = a" by (metis of_nat_unat ucast_id)
  have "unat a div 4 * 4 + (unat a mod 4 * 16 + unat b div 16) div 16 = unat a"
    using byte_bounds(1) [of b] by simp
  then show "(of_nat (unat a div 4 * 4 + (unat a mod 4 * 16 + unat b div 16) div 16) :: byte) = a"
    by (metis of_nat_unat ucast_id)
  have m: "(unat a mod 4 * 16 + unat b div 16) mod 16 = unat b div 16"
    using byte_bounds(1) [of b] by (simp add: mod_simps)
  then show "(of_nat ((unat a mod 4 * 16 + unat b div 16) mod 16 * 16 + unat b mod 16 * 4 div 4) :: byte) = b"
    by (simp del: of_nat_add of_nat_mult)
  have "unat c div 64 < 4" using byte_bounds(1) [of c] by simp
  then have "(unat b mod 16 * 4 + unat c div 64) div 4 = unat b mod 16" "(unat b mod 16 * 4 + unat c div 64) mod 4 = unat c div 64"
    by simp_all
  then show "(of_nat ((unat a mod 4 * 16 + unat b div 16) mod 16 * 16 + (unat b mod 16 * 4 + unat c div 64) div 4) :: byte) = b"
    "(of_nat ((unat b mod 16 * 4 + unat c div 64) mod 4 * 64 + unat c mod 64) :: byte) = c"
    using m by (simp_all del: of_nat_add of_nat_mult)
qed

lemma b64_roundtrip: "b64_decode (b64_encode bs) = Some bs"
  unfolding b64_decode_def
proof (induction bs rule: b64_encode.induct)
  case (2 a)
  show ?case using byte_bounds(2,3) [of a] byte_parts(1) [of a] by (simp add: b64_loop_char b64_loop_pad del: of_nat_add of_nat_mult)
next
  case (3 a b)
  show ?case using byte_bounds(2,4) [of a] byte_bounds(4) [of b] byte_bounds(6) [of a b] byte_parts(2,3) [of a b]
    by (simp add: b64_loop_char b64_loop_pad del: of_nat_add of_nat_mult)
next
  case (4 a b c bs)
  show ?case using 4 byte_bounds(2) [of a] byte_bounds(6) [of a b] byte_bounds(7) [of b c] byte_bounds(5) [of c] byte_parts(2) [of a b]
      byte_parts(4) [of a b c] byte_parts(5) [of b c]
    by (simp add: b64_loop_char b64_loop_pad del: of_nat_add of_nat_mult)
qed simp

lemma b64_char_range: "set (b64_encode bs) \<subseteq> b64_char ` {..<64} \<union> {CHR ''=''}"
proof (induction bs rule: b64_encode.induct)
  case (2 a)
  then show ?case using byte_bounds(2,3) [of a] by auto
next
  case (3 a b)
  then show ?case using byte_bounds(2,4) [of a] byte_bounds(4) [of b] byte_bounds(6) [of a b] by auto
next
  case (4 a b c bs)
  then show ?case
    using byte_bounds(2) [of a] byte_bounds(6) [of a b] byte_bounds(7) [of b c] byte_bounds(5) [of c] by auto
qed simp

lemma b64_text: "dollar \<notin> set (b64_encode bs)" "ascii (b64_encode bs)"
proof -
  have "x \<noteq> dollar \<and> (of_char x :: nat) < 128" if "x \<in> set (b64_encode bs)" for x
  proof -
    from that b64_char_range [of bs] consider v where "v < 64" "x = b64_char v" | "x = CHR ''=''" by blast
    then show ?thesis by cases (use b64_char_plain in \<open>auto simp: dollar_def\<close>)
  qed
  then show "dollar \<notin> set (b64_encode bs)" "ascii (b64_encode bs)" by (auto simp: ascii_def list_all_iff)
qed

lemma split_plain: "c \<notin> set a \<Longrightarrow> py_split_max (Suc n) c (a @ c # r) = a # py_split_max n c r"
proof -
  assume "c \<notin> set a"
  then have "\<And>x. x \<in> set a \<Longrightarrow> x \<noteq> c" by auto
  then have "dropWhile (\<lambda>x. x \<noteq> c) (a @ c # r) = c # r" "takeWhile (\<lambda>x. x \<noteq> c) (a @ c # r) = a"
    by (simp_all add: dropWhile_append2 takeWhile_append2)
  then show ?thesis by simp
qed

lemma split_four:
  assumes "c \<notin> set w" "c \<notin> set x" "c \<notin> set y"
  shows "py_split_max 3 c (w @ c # x @ c # y @ c # z) = [w, x, y, z]"
  unfolding numeral_3_eq_3
  by (simp only: split_plain [OF assms(1)] split_plain [OF assms(2)] split_plain [OF assms(3)] py_split_max.simps(1))

lemma decoded_own: "decoded_hash (format_hash salt d) = Some (iterations, salt, d)"
proof -
  have str: "py_str_int iterations = ''200000''" by (simp add: py_str_int_def iterations_def nat_digits.simps) code_simp
  have int: "parse_int ''200000'' = Some iterations"
    by (simp add: parse_int_def py_int_def py_strip_def py_isspace_def is_digit_def iterations_def sublist_code)
  have "py_split_max 3 dollar (format_hash salt d) = [''pbkdf2_sha256'', ''200000'', b64_encode salt, b64_encode d]"
    unfolding format_hash_def str by (rule split_four) (use b64_text(1) in \<open>simp_all add: dollar_def\<close>)
  then show ?thesis using b64_text(2) by (simp add: decoded_hash_def int b64_roundtrip)
qed

text \<open>A stored hash accepts exactly the passwords with its digest under its salt and iterations.\<close>

lemma hash_accepts_own_digest:
  "hash_password kdf salt p = Some h \<Longrightarrow>
     verify_password kdf p h = Some True
     \<and> (\<forall>q. verify_password kdf q h = map_option (\<lambda>d. Some d = kdf (utf8 p) salt iterations) (kdf (utf8 q) salt iterations))"
  by (auto simp: hash_password_def verify_password_def decoded_own split: option.split)

lemma unat_byte: "n < 256 \<Longrightarrow> unat (of_nat n :: byte) = n"
  by (simp add: unsigned_of_nat take_bit_nat_eq_self)

lemma utf8_units:
  "map unat (utf8_char c) = (if (of_char c :: nat) < 128 then [of_char c] else [192 + of_char c div 64, 128 + of_char c mod 64])"
proof -
  have "(of_char c :: nat) < 256" by simp
  then have "192 + of_char c div 64 < (256 :: nat)" "128 + of_char c mod 64 < (256 :: nat)" by linarith+
  then show ?thesis unfolding utf8_char_def Let_def by (simp add: unat_byte del: of_nat_add of_nat_numeral)
qed

lemma utf8_char_same: "utf8_char c = utf8_char c' \<Longrightarrow> c = c'"
proof -
  assume "utf8_char c = utf8_char c'"
  then have "map unat (utf8_char c) = map unat (utf8_char c')" by simp
  then have "(of_char c :: nat) = of_char c' \<or>
      of_char c div 64 = (of_char c' div 64 :: nat) \<and> of_char c mod 64 = (of_char c' mod 64 :: nat)"
    unfolding utf8_units by (simp del: of_char_eq_iff split: if_splits)
  then have "(of_char c :: nat) = of_char c'" by (metis div_mult_mod_eq)
  then show "c = c'" by simp
qed

lemma utf8_char_length:
  assumes "utf8_char c = x # xs" "utf8_char c' = x # ys"
  shows "length xs = length ys"
proof -
  have bound: "(of_char c :: nat) < 256" "(of_char c' :: nat) < 256" by simp_all
  have "map unat (x # xs) = (if (of_char c :: nat) < 128 then [of_char c] else [192 + of_char c div 64, 128 + of_char c mod 64])"
    "map unat (x # ys) = (if (of_char c' :: nat) < 128 then [of_char c'] else [192 + of_char c' div 64, 128 + of_char c' mod 64])"
    using utf8_units [of c] utf8_units [of c'] assms by simp_all
  then show ?thesis by (auto split: if_splits)
qed

lemma utf8_inj: "inj utf8"
proof (rule injI)
  fix s t :: string
  assume "utf8 s = utf8 t"
  then show "s = t"
  proof (induction s arbitrary: t)
    case Nil
    then show ?case by (cases t) (auto simp: utf8_def utf8_char_def Let_def split: if_splits)
  next
    case (Cons c s)
    then obtain c' t' where t: "t = c' # t'"
      by (cases t) (auto simp: utf8_def utf8_char_def Let_def split: if_splits)
    have "utf8_char c \<noteq> [] \<and> utf8_char c' \<noteq> []" by (simp add: utf8_char_def Let_def)
    then obtain x xs y ys where x: "utf8_char c = x # xs" and y: "utf8_char c' = y # ys"
      by (cases "utf8_char c"; cases "utf8_char c'") auto
    have eq: "x # xs @ utf8 s = y # ys @ utf8 t'" using Cons.prems by (simp add: t utf8_def x y)
    then have "length xs = length ys" using utf8_char_length x y by blast
    with eq have "xs = ys" "utf8 s = utf8 t'" "x = y" by simp_all
    with Cons.IH utf8_char_same x y show ?case by (simp add: t)
  qed
qed

text \<open>A hash accepts its password, and another one only where PBKDF2 gives the same digest for two different
  byte strings.\<close>

lemma hash_accepts:
  assumes "hash_password kdf salt p = Some h"
  shows "verify_password kdf q h = Some True \<longleftrightarrow>
    q = p \<or> (utf8 q \<noteq> utf8 p \<and> kdf (utf8 q) salt iterations = kdf (utf8 p) salt iterations)"
proof -
  obtain d where "kdf (utf8 p) salt iterations = Some d" "h = format_hash salt d"
    using assms by (auto simp: hash_password_def)
  moreover have "utf8 q = utf8 p \<longleftrightarrow> q = p" using utf8_inj by (auto dest: injD)
  ultimately show ?thesis by (auto simp: verify_password_def decoded_own)
qed

end
