(* ===== verification/Local_Auth.thy ===== *)
theory Local_Auth
  imports Passwords Plan_Models
begin

text \<open>
  Local operator accounts of the runtime (\<open>runtime/hosting/local_auth.py\<close>): the manager over the
  in-memory store, with its accounts, the guard that keeps an active administrator, passwords and
  signed session tokens. Signing (\<open>itsdangerous\<close>) is a parameter: writing a payload at a time,
  and reading a token, which may be expired or badly signed. \<open>uuid.UUID\<close> is a parameter, as
  in theory \<open>Cache_Context\<close>; new identifiers, salts, secrets and clock readings are arguments. The
  store over SQL repositories is not modelled.
\<close>

section \<open>Accounts\<close>

record account =
  la_id :: uuid
  la_workspace_id :: uuid
  la_subject :: string
  la_username :: string
  la_email :: string
  la_display_name :: string
  la_actor_type :: string
  la_status :: string
  la_password_algorithm :: string
  la_password_updated_at :: time
  la_must_rotate :: bool
  la_password_hash :: string
  la_roles :: "string list"
  la_created_at :: time
  la_updated_at :: time

text \<open>The actor that is handed out is the account without its hash.\<close>

record managed_actor =
  ma_id :: uuid
  ma_workspace_id :: uuid
  ma_subject :: string
  ma_username :: string
  ma_email :: string
  ma_display_name :: string
  ma_actor_type :: string
  ma_status :: string
  ma_roles :: "string list"
  ma_password_algorithm :: string
  ma_password_updated_at :: time
  ma_must_rotate :: bool
  ma_created_at :: time
  ma_updated_at :: time

record local_session =
  ls_id :: uuid
  ls_subject :: string
  ls_username :: string
  ls_email :: string
  ls_display_name :: string
  ls_roles :: "string list"
  ls_provider :: string

datatype auth_error =
    Bootstrap_Required
  | Bootstrap_Completed
  | Username_Taken
  | Email_Taken
  | Actor_Not_Found
  | Bad_Username
  | Bad_Email
  | Bad_Status
  | Bad_Role
  | No_Roles
  | Short_Password
  | Last_Admin
  | Identifier_Required
  | Bad_Credentials
  | User_Disabled
  | Session_Required
  | Session_Expired
  | Session_Invalid
  | Session_Stale
  | Kdf_Failed

section \<open>Normalisation\<close>

definition active :: string where
  "active = ''active''"

definition disabled :: string where
  "disabled = ''disabled''"

definition admin_role :: string where
  "admin_role = ''admin''"

definition allowed_roles :: "string list" where
  "allowed_roles = [''admin'', ''builder'', ''analyst'', ''viewer'']"

definition role_aliases :: "(string, string) dict" where
  "role_aliases = [(''runtime:admin'', ''admin''), (''runtime:builder'', ''builder''),
     (''runtime:analyst'', ''analyst''), (''runtime:viewer'', ''viewer'')]"

definition username_char :: "char \<Rightarrow> bool" where
  "username_char c = (letter c \<or> is_digit c \<or> c \<in> {CHR ''.'', CHR ''_'', CHR ''-''})"

definition normalize_username :: "string \<Rightarrow> (auth_error, string) result" where
  "normalize_username v =
     (let n = py_strip v
      in if 3 \<le> length n \<and> length n \<le> 64 \<and> list_all username_char n then Inr n else Inl Bad_Username)"

definition normalize_email :: "string \<Rightarrow> (auth_error, string) result" where
  "normalize_email v =
     (let n = py_lower (py_strip v)
      in if CHR ''@'' \<notin> set n \<or> prefix ''@'' n \<or> suffix ''@'' n then Inl Bad_Email else Inr n)"

text \<open>\<open>str.casefold\<close> is \<open>lower\<close> on these characters but for the sharp s; the micro sign folds to a letter
  above code point 255 that no other character folds to, and is kept.\<close>

definition casefold_char :: "char \<Rightarrow> string" where
  "casefold_char c = (if (of_char c :: nat) = 223 then ''ss'' else [py_lower_char c])"

definition normalize_identifier :: "string \<Rightarrow> string" where
  "normalize_identifier v = concat (map casefold_char (py_strip v))"

definition normalize_display_name :: "string option \<Rightarrow> string \<Rightarrow> string" where
  "normalize_display_name v fallback =
     (let n = py_strip (case v of None \<Rightarrow> [] | Some s \<Rightarrow> s) in if n = [] then fallback else n)"

definition normalize_actor_type :: "string option \<Rightarrow> string" where
  "normalize_actor_type v =
     (let n = py_lower (py_strip (if given v then the v else ''human'')) in if n = [] then ''human'' else n)"

definition normalize_actor_status :: "string \<Rightarrow> (auth_error, string) result" where
  "normalize_actor_status v =
     (let n = py_lower (py_strip v)
      in if n \<in> {''enabled'', active} then Inr active
         else if n = disabled then Inr disabled else Inl Bad_Status)"

definition role_of :: "string \<Rightarrow> string" where
  "role_of raw =
     (let n = py_lower (py_strip raw) in case dict_get role_aliases n of Some r \<Rightarrow> r | None \<Rightarrow> n)"

fun normalize_roles_from :: "string list \<Rightarrow> string list \<Rightarrow> (auth_error, string list) result" where
  "normalize_roles_from seen [] = Inr seen"
| "normalize_roles_from seen (raw # rs) =
     (let r = role_of raw
      in if r = [] then normalize_roles_from seen rs
         else if r \<notin> set allowed_roles then Inl Bad_Role
         else normalize_roles_from (if r \<in> set seen then seen else seen @ [r]) rs)"

definition normalize_runtime_roles :: "string list option \<Rightarrow> (auth_error, string list) result" where
  "normalize_runtime_roles v =
     bindR (normalize_roles_from [] (case v of None \<Rightarrow> [] | Some rs \<Rightarrow> rs)) (\<lambda>rs.
       if rs = [] then Inl No_Roles else Inr rs)"

fun stored_roles_from :: "string list \<Rightarrow> string list \<Rightarrow> string list" where
  "stored_roles_from seen [] = seen"
| "stored_roles_from seen (raw # rs) =
     (let r = role_of raw
      in stored_roles_from (if r \<notin> set allowed_roles \<or> r \<in> set seen then seen else seen @ [r]) rs)"

definition normalize_stored_roles :: "string list \<Rightarrow> string list" where
  "normalize_stored_roles v = (let rs = stored_roles_from [] v in if rs = [] then [''viewer''] else rs)"

definition has_admin_role :: "string list \<Rightarrow> bool" where
  "has_admin_role roles = (admin_role \<in> set (normalize_stored_roles roles))"

definition is_active_admin :: "account \<Rightarrow> bool" where
  "is_active_admin a = (la_status a = active \<and> has_admin_role (la_roles a))"

definition validate_password :: "string \<Rightarrow> (auth_error, unit) result" where
  "validate_password v = (if length v < 8 then Inl Short_Password else Inr ())"

section \<open>The store\<close>

record auth_store =
  as_workspace_id :: uuid
  as_accounts :: "(uuid, account) dict"
  as_secret :: "string option"

definition new_store :: "uuid \<Rightarrow> auth_store" where
  "new_store ws = \<lparr>as_workspace_id = ws, as_accounts = [], as_secret = None\<rparr>"

definition accounts_of :: "auth_store \<Rightarrow> account list" where
  "accounts_of st = dict_values (as_accounts st)"

definition has_admin_account :: "auth_store \<Rightarrow> bool" where
  "has_admin_account st = list_ex is_active_admin (accounts_of st)"

definition matches_identifier :: "string \<Rightarrow> account \<Rightarrow> bool" where
  "matches_identifier n a = (normalize_identifier (la_username a) = n \<or> normalize_identifier (la_email a) = n
     \<or> normalize_identifier (la_subject a) = n)"

definition get_account_by_identifier :: "auth_store \<Rightarrow> string \<Rightarrow> bool \<Rightarrow> account option" where
  "get_account_by_identifier st identifier include_disabled =
     find (\<lambda>a. (include_disabled \<or> la_status a = active) \<and> matches_identifier (normalize_identifier identifier) a)
       (accounts_of st)"

definition get_account_by_id :: "auth_store \<Rightarrow> uuid \<Rightarrow> bool \<Rightarrow> account option" where
  "get_account_by_id st i include_disabled =
     (case dict_get (as_accounts st) i of
        None \<Rightarrow> None
      | Some a \<Rightarrow> if \<not> include_disabled \<and> la_status a \<noteq> active then None else Some a)"

definition list_accounts :: "auth_store \<Rightarrow> account list" where
  "list_accounts st = sort_key la_created_at (accounts_of st)"

text \<open>The two tests are made account by account.\<close>

fun ensure_unique_actor ::
  "account list \<Rightarrow> string option \<Rightarrow> string option \<Rightarrow> uuid option \<Rightarrow> (auth_error, unit) result" where
  "ensure_unique_actor [] username email exclude = Inr ()"
| "ensure_unique_actor (a # accounts) username email exclude =
     (if exclude = Some (la_id a) then ensure_unique_actor accounts username email exclude
      else if given (map_option normalize_identifier username)
          \<and> normalize_identifier (la_username a) = normalize_identifier (the username) then Inl Username_Taken
      else if given (map_option normalize_identifier email)
          \<and> normalize_identifier (la_email a) = normalize_identifier (the email) then Inl Email_Taken
      else ensure_unique_actor accounts username email exclude)"

definition create_account ::
  "uuid \<Rightarrow> time \<Rightarrow> string \<Rightarrow> string \<Rightarrow> string \<Rightarrow> string \<Rightarrow> string list \<Rightarrow> string \<Rightarrow> string \<Rightarrow> auth_store
   \<Rightarrow> (auth_error, auth_store \<times> account) result" where
  "create_account new_id now username email display_name actor_type roles hash algorithm st =
     bindR (ensure_unique_actor (accounts_of st) (Some username) (Some email) None) (\<lambda>_.
       let a = \<lparr>la_id = new_id, la_workspace_id = as_workspace_id st, la_subject = username,
         la_username = username, la_email = email, la_display_name = display_name,
         la_actor_type = actor_type, la_status = active, la_password_algorithm = algorithm,
         la_password_updated_at = now, la_must_rotate = False, la_password_hash = hash, la_roles = roles,
         la_created_at = now, la_updated_at = now\<rparr>
       in Inr (st\<lparr>as_accounts := dict_set (as_accounts st) new_id a\<rparr>, a))"

definition create_admin_account ::
  "uuid \<Rightarrow> time \<Rightarrow> string \<Rightarrow> string \<Rightarrow> string \<Rightarrow> string \<Rightarrow> auth_store \<Rightarrow> (auth_error, auth_store \<times> account) result" where
  "create_admin_account new_id now username email hash algorithm st =
     (if has_admin_account st then Inl Bootstrap_Completed
      else create_account new_id now username email username ''human'' [admin_role] hash algorithm st)"

definition or_keep :: "'a option \<Rightarrow> 'a \<Rightarrow> 'a" where
  "or_keep v x = (case v of None \<Rightarrow> x | Some y \<Rightarrow> y)"

definition update_account ::
  "uuid \<Rightarrow> time \<Rightarrow> string option \<Rightarrow> string option \<Rightarrow> string option \<Rightarrow> string option \<Rightarrow> string list option
   \<Rightarrow> auth_store \<Rightarrow> (auth_error, auth_store \<times> account) result" where
  "update_account i now email display_name actor_type status roles st =
     (case dict_get (as_accounts st) i of
        None \<Rightarrow> Inl Actor_Not_Found
      | Some a \<Rightarrow>
          let new_email = (case email of None \<Rightarrow> None
            | Some e \<Rightarrow> if normalize_identifier e \<noteq> normalize_identifier (la_email a) then Some e else None)
          in bindR (case new_email of None \<Rightarrow> Inr ()
               | Some e \<Rightarrow> ensure_unique_actor (accounts_of st) None (Some e) (Some i)) (\<lambda>_.
             let b = a\<lparr>la_email := or_keep new_email (la_email a), la_display_name := or_keep display_name (la_display_name a),
               la_actor_type := or_keep actor_type (la_actor_type a), la_status := or_keep status (la_status a),
               la_roles := or_keep roles (la_roles a), la_updated_at := now\<rparr>
             in Inr (st\<lparr>as_accounts := dict_set (as_accounts st) i b\<rparr>, b)))"

definition update_password ::
  "uuid \<Rightarrow> time \<Rightarrow> string \<Rightarrow> string \<Rightarrow> bool \<Rightarrow> auth_store \<Rightarrow> (auth_error, auth_store \<times> account) result" where
  "update_password i now hash algorithm must_rotate st =
     (case dict_get (as_accounts st) i of
        None \<Rightarrow> Inl Actor_Not_Found
      | Some a \<Rightarrow>
          let b = a\<lparr>la_password_hash := hash, la_password_algorithm := algorithm, la_password_updated_at := now,
            la_must_rotate := must_rotate, la_updated_at := now\<rparr>
          in Inr (st\<lparr>as_accounts := dict_set (as_accounts st) i b\<rparr>, b))"

section \<open>The manager\<close>

text \<open>The payload of a token holds the two texts that are read from it and the two that are not.\<close>

record token_payload =
  tp_workspace_id :: string
  tp_actor_id :: string
  tp_provider :: string
  tp_version :: int

datatype token_reading = Token_Ok token_payload | Token_Expired | Token_Bad

record signer =
  sg_dumps :: "string \<Rightarrow> token_payload \<Rightarrow> time \<Rightarrow> string"
  sg_loads :: "string \<Rightarrow> string \<Rightarrow> time \<Rightarrow> int \<Rightarrow> token_reading"

record auth_manager =
  lm_workspace_id :: uuid
  lm_cookie_name :: string
  lm_max_age :: int
  lm_secret :: "string option"
  lm_kdf :: kdf
  lm_signer :: signer
  lm_to_uuid :: "string \<Rightarrow> uuid option"

definition new_auth_manager ::
  "uuid \<Rightarrow> string \<Rightarrow> int \<Rightarrow> string option \<Rightarrow> kdf \<Rightarrow> signer \<Rightarrow> (string \<Rightarrow> uuid option) \<Rightarrow> auth_manager" where
  "new_auth_manager ws cookie_name max_age secret kdf signer to_uuid =
     (let cookie = py_strip cookie_name; s = py_strip (case secret of None \<Rightarrow> [] | Some x \<Rightarrow> x)
      in \<lparr>lm_workspace_id = ws, lm_cookie_name = (if cookie = [] then ''langbridge_runtime_session'' else cookie),
          lm_max_age = max 60 max_age, lm_secret = (if s = [] then None else Some s), lm_kdf = kdf,
          lm_signer = signer, lm_to_uuid = to_uuid\<rparr>)"

definition auth_status :: "auth_store \<Rightarrow> bool \<times> bool" where
  "auth_status st = (has_admin_account st, \<not> has_admin_account st)"

definition to_managed_actor :: "account \<Rightarrow> managed_actor" where
  "to_managed_actor a = \<lparr>ma_id = la_id a, ma_workspace_id = la_workspace_id a, ma_subject = la_subject a,
     ma_username = la_username a, ma_email = la_email a, ma_display_name = la_display_name a,
     ma_actor_type = la_actor_type a, ma_status = la_status a, ma_roles = la_roles a,
     ma_password_algorithm = la_password_algorithm a, ma_password_updated_at = la_password_updated_at a,
     ma_must_rotate = la_must_rotate a, ma_created_at = la_created_at a, ma_updated_at = la_updated_at a\<rparr>"

definition list_actors :: "auth_store \<Rightarrow> managed_actor list" where
  "list_actors st = map to_managed_actor (list_accounts st)"

definition provider :: string where
  "provider = ''runtime_local_session''"

definition to_session :: "account \<Rightarrow> local_session" where
  "to_session a = \<lparr>ls_id = la_id a, ls_subject = la_subject a, ls_username = la_username a,
     ls_email = la_email a, ls_display_name = la_display_name a, ls_roles = la_roles a, ls_provider = provider\<rparr>"

definition hashed :: "kdf \<Rightarrow> byte list \<Rightarrow> string \<Rightarrow> (auth_error, string) result" where
  "hashed kdf salt password = (case hash_password kdf salt password of None \<Rightarrow> Inl Kdf_Failed | Some h \<Rightarrow> Inr h)"

definition algorithm :: string where
  "algorithm = ''pbkdf2_sha256''"

definition bootstrap_admin ::
  "auth_manager \<Rightarrow> uuid \<Rightarrow> time \<Rightarrow> byte list \<Rightarrow> string \<Rightarrow> string \<Rightarrow> string \<Rightarrow> auth_store
   \<Rightarrow> (auth_error, auth_store \<times> local_session) result" where
  "bootstrap_admin lm new_id now salt username email password st =
     bindR (normalize_username username) (\<lambda>u.
     bindR (normalize_email email) (\<lambda>e.
     bindR (validate_password password) (\<lambda>_.
     bindR (hashed (lm_kdf lm) salt password) (\<lambda>h.
     bindR (create_admin_account new_id now u e h algorithm st) (\<lambda>(st', a).
       Inr (st', to_session a))))))"

definition create_actor ::
  "auth_manager \<Rightarrow> uuid \<Rightarrow> time \<Rightarrow> byte list \<Rightarrow> string \<Rightarrow> string \<Rightarrow> string \<Rightarrow> string option \<Rightarrow> string option
   \<Rightarrow> string list option \<Rightarrow> auth_store \<Rightarrow> (auth_error, auth_store \<times> managed_actor) result" where
  "create_actor lm new_id now salt username email password display_name actor_type roles st =
     bindR (normalize_username username) (\<lambda>u.
     bindR (normalize_email email) (\<lambda>e.
     bindR (normalize_runtime_roles roles) (\<lambda>rs.
     bindR (validate_password password) (\<lambda>_.
     bindR (hashed (lm_kdf lm) salt password) (\<lambda>h.
     bindR (create_account new_id now u e (normalize_display_name display_name u) (normalize_actor_type actor_type)
         rs h algorithm st) (\<lambda>(st', a).
       Inr (st', to_managed_actor a)))))))"

definition optionally :: "('a \<Rightarrow> ('e, 'b) result) \<Rightarrow> 'a option \<Rightarrow> ('e, 'b option) result" where
  "optionally f v = (case v of None \<Rightarrow> Inr None | Some x \<Rightarrow> bindR (f x) (\<lambda>y. Inr (Some y)))"

definition require_account :: "auth_store \<Rightarrow> uuid \<Rightarrow> bool \<Rightarrow> (auth_error, account) result" where
  "require_account st i include_disabled =
     (case get_account_by_id st i include_disabled of None \<Rightarrow> Inl Actor_Not_Found | Some a \<Rightarrow> Inr a)"

definition ensure_active_admin_remains ::
  "auth_store \<Rightarrow> uuid \<Rightarrow> string \<Rightarrow> string list \<Rightarrow> (auth_error, unit) result" where
  "ensure_active_admin_remains st i next_status next_roles =
     (if list_ex (\<lambda>a. (if la_id a = i then next_status else la_status a) = active
            \<and> has_admin_role (if la_id a = i then next_roles else la_roles a)) (list_accounts st)
      then Inr () else Inl Last_Admin)"

definition update_actor ::
  "uuid \<Rightarrow> time \<Rightarrow> string option \<Rightarrow> string option \<Rightarrow> string option \<Rightarrow> string option \<Rightarrow> string list option
   \<Rightarrow> auth_store \<Rightarrow> (auth_error, auth_store \<times> managed_actor) result" where
  "update_actor i now email display_name actor_type status roles st =
     bindR (require_account st i True) (\<lambda>a.
     bindR (optionally normalize_email email) (\<lambda>e.
     bindR (optionally normalize_actor_status status) (\<lambda>s.
     bindR (optionally (\<lambda>rs. normalize_runtime_roles (Some rs)) roles) (\<lambda>rs.
     bindR (ensure_active_admin_remains st i (or_keep s (la_status a)) (or_keep rs (la_roles a))) (\<lambda>_.
     bindR (update_account i now e (map_option (\<lambda>d. normalize_display_name (Some d) (la_username a)) display_name)
         (map_option (\<lambda>t. normalize_actor_type (Some t)) actor_type) s rs st) (\<lambda>(st', b).
       Inr (st', to_managed_actor b)))))))"

definition reset_password ::
  "auth_manager \<Rightarrow> uuid \<Rightarrow> time \<Rightarrow> byte list \<Rightarrow> string \<Rightarrow> bool \<Rightarrow> auth_store
   \<Rightarrow> (auth_error, auth_store \<times> managed_actor) result" where
  "reset_password lm i now salt password must_rotate st =
     bindR (require_account st i True) (\<lambda>_.
     bindR (validate_password password) (\<lambda>_.
     bindR (hashed (lm_kdf lm) salt password) (\<lambda>h.
     bindR (update_password i now h algorithm must_rotate st) (\<lambda>(st', b).
       Inr (st', to_managed_actor b)))))"

definition authenticate :: "auth_manager \<Rightarrow> string \<Rightarrow> string \<Rightarrow> auth_store \<Rightarrow> (auth_error, local_session) result" where
  "authenticate lm identifier password st =
     (let n = normalize_identifier identifier
      in if n = [] then Inl Identifier_Required
         else if \<not> has_admin_account st then Inl Bootstrap_Required
         else case get_account_by_identifier st n True of
             None \<Rightarrow> Inl Bad_Credentials
           | Some a \<Rightarrow>
               (case verify_password (lm_kdf lm) password (la_password_hash a) of
                  None \<Rightarrow> Inl Kdf_Failed
                | Some False \<Rightarrow> Inl Bad_Credentials
                | Some True \<Rightarrow> if la_status a \<noteq> active then Inl User_Disabled else Inr (to_session a)))"

section \<open>Session tokens\<close>

text \<open>The secret in force, and the store with that secret saved.\<close>

definition resolve_session_secret :: "auth_manager \<Rightarrow> string \<Rightarrow> auth_store \<Rightarrow> auth_store \<times> string" where
  "resolve_session_secret lm generated st =
     (case lm_secret lm of
        Some s \<Rightarrow> (if as_secret st = Some s then st else st\<lparr>as_secret := Some s\<rparr>, s)
      | None \<Rightarrow>
          if given (as_secret st) then (st, the (as_secret st))
          else (st\<lparr>as_secret := Some generated\<rparr>, generated))"

definition issue_session_token ::
  "auth_manager \<Rightarrow> string \<Rightarrow> time \<Rightarrow> local_session \<Rightarrow> auth_store \<Rightarrow> auth_store \<times> string" where
  "issue_session_token lm generated now session st =
     (case resolve_session_secret lm generated st of
        (st', secret) \<Rightarrow> (st', sg_dumps (lm_signer lm) secret
           \<lparr>tp_workspace_id = lm_workspace_id lm, tp_actor_id = ls_id session, tp_provider = ls_provider session,
             tp_version = 2\<rparr> now))"

definition session_of_payload :: "auth_manager \<Rightarrow> token_payload \<Rightarrow> auth_store \<Rightarrow> (auth_error, local_session) result" where
  "session_of_payload lm p st =
     (if py_strip (tp_workspace_id p) \<noteq> lm_workspace_id lm then Inl Session_Invalid
      else if py_strip (tp_actor_id p) = [] then Inl Session_Invalid
      else case lm_to_uuid lm (py_strip (tp_actor_id p)) of
          None \<Rightarrow> Inl Session_Invalid
        | Some i \<Rightarrow> (case get_account_by_id st i False of None \<Rightarrow> Inl Session_Stale | Some a \<Rightarrow> Inr (to_session a)))"

text \<open>The request is the dictionary of its cookies.\<close>

definition authenticate_session_request ::
  "auth_manager \<Rightarrow> string \<Rightarrow> time \<Rightarrow> (string, string) dict \<Rightarrow> auth_store
   \<Rightarrow> auth_store \<times> (auth_error, local_session) result" where
  "authenticate_session_request lm generated now cookies st =
     (if \<not> has_admin_account st then (st, Inl Bootstrap_Required)
      else let token = py_strip (case dict_get cookies (lm_cookie_name lm) of None \<Rightarrow> [] | Some t \<Rightarrow> t)
      in if token = [] then (st, Inl Session_Required)
         else case resolve_session_secret lm generated st of
           (st', secret) \<Rightarrow>
             (case sg_loads (lm_signer lm) secret token now (lm_max_age lm) of
                Token_Expired \<Rightarrow> (st', Inl Session_Expired)
              | Token_Bad \<Rightarrow> (st', Inl Session_Invalid)
              | Token_Ok p \<Rightarrow> (st', session_of_payload lm p st')))"


section \<open>Accounts stay well formed\<close>

definition account_ok :: "account \<Rightarrow> bool" where
  "account_ok a \<longleftrightarrow> 3 \<le> length (la_username a) \<and> length (la_username a) \<le> 64 \<and> list_all username_char (la_username a)
     \<and> la_subject a = la_username a \<and> CHR ''@'' \<in> set (la_email a) \<and> la_status a \<in> {active, disabled}
     \<and> la_roles a \<noteq> [] \<and> distinct (la_roles a) \<and> set (la_roles a) \<subseteq> set allowed_roles"

definition rivals :: "account \<Rightarrow> account \<Rightarrow> bool" where
  "rivals a b \<longleftrightarrow> normalize_identifier (la_username a) = normalize_identifier (la_username b)
     \<or> normalize_identifier (la_email a) = normalize_identifier (la_email b)"

definition accounts_ok :: "auth_store \<Rightarrow> bool" where
  "accounts_ok st \<longleftrightarrow> dict_ok (as_accounts st)
     \<and> (\<forall>k a. dict_get (as_accounts st) k = Some a \<longrightarrow> la_id a = k \<and> account_ok a)
     \<and> (\<forall>k a l b. dict_get (as_accounts st) k = Some a \<and> dict_get (as_accounts st) l = Some b \<and> k \<noteq> l \<longrightarrow> \<not> rivals a b)"

lemma in_dict_values: "dict_ok d \<Longrightarrow> v \<in> set (dict_values d) \<longleftrightarrow> (\<exists>k. dict_get d k = Some v)"
  by (force simp: dict_values_def dict_ok_in [symmetric])

lemma in_accounts: "accounts_ok st \<Longrightarrow> a \<in> set (accounts_of st) \<longleftrightarrow> (\<exists>k. dict_get (as_accounts st) k = Some a)"
  by (simp add: accounts_ok_def accounts_of_def in_dict_values)

lemma ensure_unique_iff:
  "ensure_unique_actor as u e x = Inr () \<longleftrightarrow>
     (\<forall>a \<in> set as. x \<noteq> Some (la_id a) \<longrightarrow>
        (given (map_option normalize_identifier u) \<longrightarrow> normalize_identifier (la_username a) \<noteq> normalize_identifier (the u))
        \<and> (given (map_option normalize_identifier e) \<longrightarrow> normalize_identifier (la_email a) \<noteq> normalize_identifier (the e)))"
  by (induction as) auto

lemma given_Some [simp]: "given (Some s) \<longleftrightarrow> s \<noteq> []"
  by (cases s) (simp_all add: given_def)

text \<open>Names and addresses have identifiers that are not empty, since they have characters that are no blanks.\<close>

lemma identifier_nonempty: "\<lbrakk>c \<in> set s; \<not> py_isspace c\<rbrakk> \<Longrightarrow> normalize_identifier s \<noteq> []"
proof -
  assume "c \<in> set s" "\<not> py_isspace c"
  then have ne: "dropWhile py_isspace s \<noteq> []" by (auto simp: dropWhile_eq_Nil_conv)
  then have "\<not> py_isspace (hd (dropWhile py_isspace s))" by (rule hd_dropWhile)
  with ne have "\<exists>c \<in> set (dropWhile py_isspace s). \<not> py_isspace c" by (meson hd_in_set)
  then have "py_strip s \<noteq> []" by (auto simp: py_strip_def dropWhile_eq_Nil_conv)
  then show ?thesis by (cases "py_strip s") (simp_all add: normalize_identifier_def casefold_char_def)
qed

lemma username_char_visible: "username_char c \<Longrightarrow> \<not> py_isspace c \<and> c \<noteq> CHR ''@''"
  by (auto simp: username_char_def letter_def is_digit_def py_isspace_def)

lemma account_identifiers:
  assumes "account_ok a"
  shows "normalize_identifier (la_username a) \<noteq> []" "normalize_identifier (la_email a) \<noteq> []"
proof -
  obtain c where "c \<in> set (la_username a)" using assms by (cases "la_username a") (auto simp: account_ok_def)
  then show "normalize_identifier (la_username a) \<noteq> []"
    using assms username_char_visible by (intro identifier_nonempty [of c]) (auto simp: account_ok_def list_all_iff)
  show "normalize_identifier (la_email a) \<noteq> []"
    using assms by (intro identifier_nonempty [of "CHR ''@''"]) (auto simp: account_ok_def py_isspace_def)
qed

lemma stored_account: "\<lbrakk>accounts_ok st; dict_get (as_accounts st) k = Some a\<rbrakk> \<Longrightarrow> la_id a = k \<and> account_ok a"
  unfolding accounts_ok_def by blast

lemma stored_rivals:
  "\<lbrakk>accounts_ok st; dict_get (as_accounts st) k = Some a; dict_get (as_accounts st) l = Some b; k \<noteq> l\<rbrakk> \<Longrightarrow> \<not> rivals a b"
  unfolding accounts_ok_def by blast

lemma accounts_ok_set:
  assumes "accounts_ok st" "account_ok b" "la_id b = i"
    and "\<And>k c. \<lbrakk>dict_get (as_accounts st) k = Some c; k \<noteq> i\<rbrakk> \<Longrightarrow> \<not> rivals b c"
  shows "accounts_ok (st\<lparr>as_accounts := dict_set (as_accounts st) i b\<rparr>)"
proof -
  have "\<not> rivals c b" if "dict_get (as_accounts st) k = Some c" "k \<noteq> i" for k c
    using assms(4) [OF that] by (auto simp: rivals_def)
  then show ?thesis using assms unfolding accounts_ok_def by (auto split: if_splits)
qed

lemma normal_names:
  "normalize_username v = Inr u \<Longrightarrow> 3 \<le> length u \<and> length u \<le> 64 \<and> list_all username_char u"
  "normalize_email w = Inr e \<Longrightarrow> CHR ''@'' \<in> set e"
  "normalize_actor_status x = Inr y \<Longrightarrow> y \<in> {active, disabled}"
  by (auto simp: normalize_username_def normalize_email_def normalize_actor_status_def Let_def split: if_splits)

lemma normal_roles_from:
  "normalize_roles_from seen rs = Inr out \<Longrightarrow> distinct seen \<Longrightarrow> set seen \<subseteq> set allowed_roles \<Longrightarrow>
     distinct out \<and> set out \<subseteq> set allowed_roles"
  by (induction seen rs rule: normalize_roles_from.induct) (auto simp: Let_def split: if_splits)

lemma normal_roles:
  "normalize_runtime_roles rs = Inr out \<Longrightarrow> out \<noteq> [] \<and> distinct out \<and> set out \<subseteq> set allowed_roles"
  using normal_roles_from [of "[]"] by (fastforce simp: normalize_runtime_roles_def bindR_eq_Inr split: if_splits)

lemma create_account_ok:
  assumes "create_account i now u e d ty rs h al st = Inr (st', a)" "accounts_ok st" "dict_get (as_accounts st) i = None"
    and "3 \<le> length u" "length u \<le> 64" "list_all username_char u" "CHR ''@'' \<in> set e"
    and "rs \<noteq> []" "distinct rs" "set rs \<subseteq> set allowed_roles"
  shows "accounts_ok st' \<and> account_ok a \<and> la_id a = i \<and> la_roles a = rs \<and> la_status a = active
    \<and> st' = st\<lparr>as_accounts := dict_set (as_accounts st) i a\<rparr>"
proof -
  have unique: "ensure_unique_actor (accounts_of st) (Some u) (Some e) None = Inr ()"
    and a: "la_id a = i" "la_username a = u" "la_subject a = u" "la_email a = e" "la_status a = active" "la_roles a = rs"
    and st': "st' = st\<lparr>as_accounts := dict_set (as_accounts st) i a\<rparr>"
    using assms(1) by (auto simp: create_account_def bindR_eq_Inr Let_def)
  have ok: "account_ok a" using assms(4-) by (simp add: account_ok_def a)
  have "\<not> rivals a c" if "dict_get (as_accounts st) k = Some c" for k c
    using unique account_identifiers [OF ok] that assms(2)
    by (force simp: ensure_unique_iff in_accounts rivals_def a)
  then have "accounts_ok st'" unfolding st' by (intro accounts_ok_set [OF assms(2) ok a(1)])
  with ok a st' show ?thesis by simp
qed

lemma update_account_ok:
  assumes "update_account i now e d ty s rs st = Inr (st', b)" "accounts_ok st"
    and "\<And>x. e = Some x \<Longrightarrow> CHR ''@'' \<in> set x" "\<And>x. s = Some x \<Longrightarrow> x \<in> {active, disabled}"
    and "\<And>x. rs = Some x \<Longrightarrow> x \<noteq> [] \<and> distinct x \<and> set x \<subseteq> set allowed_roles"
  shows "accounts_ok st' \<and> (\<exists>a. dict_get (as_accounts st) i = Some a \<and> la_id b = i
    \<and> la_status b = or_keep s (la_status a) \<and> la_roles b = or_keep rs (la_roles a))
    \<and> st' = st\<lparr>as_accounts := dict_set (as_accounts st) i b\<rparr>"
proof -
  obtain a where a: "dict_get (as_accounts st) i = Some a" using assms(1) by (auto simp: update_account_def split: option.splits)
  have aok: "la_id a = i" "account_ok a" using assms(2) a by (auto simp: accounts_ok_def)
  define ne where "ne = (case e of None \<Rightarrow> None
    | Some x \<Rightarrow> if normalize_identifier x \<noteq> normalize_identifier (la_email a) then Some x else None)"
  have unique: "\<And>x. ne = Some x \<Longrightarrow> ensure_unique_actor (accounts_of st) None (Some x) (Some i) = Inr ()"
    and b: "la_id b = i" "la_username b = la_username a" "la_subject b = la_subject a" "la_email b = or_keep ne (la_email a)"
      "la_status b = or_keep s (la_status a)" "la_roles b = or_keep rs (la_roles a)"
    and st': "st' = st\<lparr>as_accounts := dict_set (as_accounts st) i b\<rparr>"
    using assms(1) a aok(1)
    by (auto simp: update_account_def bindR_eq_Inr Let_def ne_def [symmetric] split: option.splits)
  have "CHR ''@'' \<in> set (la_email b)"
    using assms(3) aok(2) by (auto simp: b ne_def or_keep_def account_ok_def split: option.splits if_splits)
  then have ok: "account_ok b"
    using assms(4,5) aok(2) by (auto simp: account_ok_def b or_keep_def split: option.splits)
  have "\<not> rivals b c" if c: "dict_get (as_accounts st) k = Some c" "k \<noteq> i" for k c
  proof -
    have old: "\<not> rivals a c" and id: "la_id c = k"
      using stored_rivals [OF assms(2) a c(1)] stored_account [OF assms(2) c(1)] c(2) by auto
    show ?thesis
    proof (cases ne)
      case None
      with old show ?thesis by (simp add: rivals_def b or_keep_def)
    next
      case (Some x)
      have "normalize_identifier x \<noteq> []" using account_identifiers(2) [OF ok] Some by (simp add: b or_keep_def)
      then have "normalize_identifier (la_email c) \<noteq> normalize_identifier x"
        using unique [OF Some] c id assms(2) by (auto simp: ensure_unique_iff in_accounts)
      with old Some show ?thesis by (auto simp: rivals_def b or_keep_def)
    qed
  qed
  then have "accounts_ok st'" unfolding st' by (intro accounts_ok_set [OF assms(2) ok b(1)])
  with a b st' show ?thesis by blast
qed

lemma update_password_ok:
  assumes "update_password i now h al r st = Inr (st', b)" "accounts_ok st"
  shows "accounts_ok st' \<and> (\<exists>a. dict_get (as_accounts st) i = Some a \<and> la_id b = i
    \<and> la_status b = la_status a \<and> la_roles b = la_roles a)
    \<and> st' = st\<lparr>as_accounts := dict_set (as_accounts st) i b\<rparr>"
proof -
  obtain a where a: "dict_get (as_accounts st) i = Some a" using assms(1) by (auto simp: update_password_def split: option.splits)
  have aok: "la_id a = i" "account_ok a" using assms(2) a by (auto simp: accounts_ok_def)
  have b: "b = a\<lparr>la_password_hash := h, la_password_algorithm := al, la_password_updated_at := now,
      la_must_rotate := r, la_updated_at := now\<rparr>"
    and st': "st' = st\<lparr>as_accounts := dict_set (as_accounts st) i b\<rparr>"
    using assms(1) a by (auto simp: update_password_def Let_def)
  have "account_ok b" "la_id b = i" using aok by (simp_all add: b account_ok_def)
  moreover have "\<not> rivals b c" if "dict_get (as_accounts st) k = Some c" "k \<noteq> i" for k c
    using stored_rivals [OF assms(2) a that(1)] that(2) by (auto simp: rivals_def b)
  ultimately have "accounts_ok st'" unfolding st' by (intro accounts_ok_set [OF assms(2)])
  with a b st' aok show ?thesis by auto
qed


section \<open>Runs of the manager\<close>

datatype auth_command =
    Do_Bootstrap uuid time "byte list" string string string
  | Do_Create uuid time "byte list" string string string "string option" "string option" "string list option"
  | Do_Update uuid time "string option" "string option" "string option" "string option" "string list option"
  | Do_Reset uuid time "byte list" string bool
  | Do_Issue string time local_session
  | Do_Request string time "(string, string) dict"

text \<open>An operation that raises leaves the store as it was.\<close>

definition outcome :: "auth_store \<Rightarrow> (auth_error, auth_store \<times> 'a) result \<Rightarrow> auth_store" where
  "outcome st r = (case r of Inl e \<Rightarrow> st | Inr (st', x) \<Rightarrow> st')"

fun auth_step :: "auth_manager \<Rightarrow> auth_command \<Rightarrow> auth_store \<Rightarrow> auth_store" where
  "auth_step lm (Do_Bootstrap i now salt u e pw) st = outcome st (bootstrap_admin lm i now salt u e pw st)"
| "auth_step lm (Do_Create i now salt u e pw d ty rs) st = outcome st (create_actor lm i now salt u e pw d ty rs st)"
| "auth_step lm (Do_Update i now e d ty s rs) st = outcome st (update_actor i now e d ty s rs st)"
| "auth_step lm (Do_Reset i now salt pw r) st = outcome st (reset_password lm i now salt pw r st)"
| "auth_step lm (Do_Issue g now session) st = fst (issue_session_token lm g now session st)"
| "auth_step lm (Do_Request g now cookies) st = fst (authenticate_session_request lm g now cookies st)"

text \<open>A new identifier is not in use.\<close>

fun fresh_for :: "auth_command \<Rightarrow> auth_store \<Rightarrow> bool" where
  "fresh_for (Do_Bootstrap i now salt u e pw) st = (dict_get (as_accounts st) i = None)"
| "fresh_for (Do_Create i now salt u e pw d ty rs) st = (dict_get (as_accounts st) i = None)"
| "fresh_for _ st = True"

inductive auth_steps :: "auth_manager \<Rightarrow> auth_store \<Rightarrow> auth_store \<Rightarrow> bool" for lm st where
  auth_none: "auth_steps lm st st"
| auth_more: "\<lbrakk>auth_steps lm st st'; fresh_for c st'\<rbrakk> \<Longrightarrow> auth_steps lm st (auth_step lm c st')"

lemma has_admin_iff:
  "accounts_ok st \<Longrightarrow> has_admin_account st \<longleftrightarrow> (\<exists>k a. dict_get (as_accounts st) k = Some a \<and> is_active_admin a)"
  unfolding has_admin_account_def list_ex_iff using in_accounts [of st] by metis

text \<open>Reading a secret changes nothing but the stored secret.\<close>

lemma resolve_accounts: "as_accounts (fst (resolve_session_secret lm g st)) = as_accounts st"
  by (simp add: resolve_session_secret_def split: option.split)

lemma token_accounts:
  "as_accounts (fst (issue_session_token lm g now s st)) = as_accounts st"
  "as_accounts (fst (authenticate_session_request lm g now cookies st)) = as_accounts st"
  using resolve_accounts [of lm g st]
  by (auto simp: issue_session_token_def authenticate_session_request_def Let_def split: prod.splits token_reading.splits)

lemma admin_role_names: "has_admin_role [admin_role]"
  by code_simp

lemma accounts_admin_cong:
  "as_accounts st' = as_accounts st \<Longrightarrow> accounts_ok st' = accounts_ok st \<and> has_admin_account st' = has_admin_account st"
  by (simp add: accounts_ok_def has_admin_account_def accounts_of_def)

lemma created_keeps_admin:
  assumes "accounts_ok st" "accounts_ok st'" "has_admin_account st" "dict_get (as_accounts st) i = None"
    and "st' = st\<lparr>as_accounts := dict_set (as_accounts st) i a\<rparr>"
  shows "has_admin_account st'"
proof -
  obtain k b where b: "dict_get (as_accounts st) k = Some b" "is_active_admin b"
    using assms(3) unfolding has_admin_iff [OF assms(1)] by blast
  then have "k \<noteq> i" using assms(4) by auto
  then have "dict_get (as_accounts st') k = Some b" by (simp add: assms(5) b)
  with b show ?thesis unfolding has_admin_iff [OF assms(2)] by blast
qed

lemma update_actor_admin:
  assumes "update_actor i now e d ty s rs st = Inr (st', m)" "accounts_ok st"
  shows "accounts_ok st' \<and> has_admin_account st'"
proof -
  obtain a e' s' rs' b where a: "dict_get (as_accounts st) i = Some a"
    and n: "optionally normalize_email e = Inr e'" "optionally normalize_actor_status s = Inr s'"
      "optionally (\<lambda>rs. normalize_runtime_roles (Some rs)) rs = Inr rs'"
    and keep: "ensure_active_admin_remains st i (or_keep s' (la_status a)) (or_keep rs' (la_roles a)) = Inr ()"
    and u: "update_account i now e' (map_option (\<lambda>d. normalize_display_name (Some d) (la_username a)) d)
        (map_option (\<lambda>t. normalize_actor_type (Some t)) ty) s' rs' st = Inr (st', b)"
    using assms(1) by (auto simp: update_actor_def bindR_eq_Inr require_account_def get_account_by_id_def split: option.splits)
  have "\<And>x. e' = Some x \<Longrightarrow> CHR ''@'' \<in> set x" "\<And>x. s' = Some x \<Longrightarrow> x \<in> {active, disabled}"
    "\<And>x. rs' = Some x \<Longrightarrow> x \<noteq> [] \<and> distinct x \<and> set x \<subseteq> set allowed_roles"
    using n normal_names(2,3) normal_roles by (auto simp: optionally_def bindR_eq_Inr split: option.splits)
  note updated = update_account_ok [OF u assms(2) this]
  then have b: "la_status b = or_keep s' (la_status a)" "la_roles b = or_keep rs' (la_roles a)"
    and st': "st' = st\<lparr>as_accounts := dict_set (as_accounts st) i b\<rparr>" and ok: "accounts_ok st'"
    using a by auto
  from keep obtain c where c: "c \<in> set (accounts_of st)"
      "(if la_id c = i then or_keep s' (la_status a) else la_status c) = active"
      "has_admin_role (if la_id c = i then or_keep rs' (la_roles a) else la_roles c)"
    by (auto simp: ensure_active_admin_remains_def list_ex_iff list_accounts_def split: if_splits)
  then obtain k where k: "dict_get (as_accounts st) k = Some c" using in_accounts [OF assms(2)] by blast
  have "la_id c = k" using stored_account [OF assms(2) k] by simp
  then have "\<exists>k x. dict_get (as_accounts st') k = Some x \<and> is_active_admin x"
    using c(2,3) b k by (cases "k = i") (auto simp: st' is_active_admin_def intro: exI [of _ k] exI [of _ i])
  then show ?thesis using ok has_admin_iff [OF ok] by simp
qed

lemma reset_password_admin:
  assumes "reset_password lm i now salt pw r st = Inr (st', m)" "accounts_ok st"
  shows "accounts_ok st' \<and> (has_admin_account st \<longrightarrow> has_admin_account st')"
proof -
  obtain h b where u: "update_password i now h algorithm r st = Inr (st', b)"
    using assms(1) by (auto simp: reset_password_def bindR_eq_Inr)
  from update_password_ok [OF u assms(2)] obtain a where ok: "accounts_ok st'"
    and a: "dict_get (as_accounts st) i = Some a" "la_status b = la_status a" "la_roles b = la_roles a"
    and st': "st' = st\<lparr>as_accounts := dict_set (as_accounts st) i b\<rparr>" by blast
  show ?thesis
    unfolding has_admin_iff [OF assms(2)] has_admin_iff [OF ok]
    using ok a by (auto simp: st' is_active_admin_def) (metis option.inject)
qed

lemma create_actor_step:
  assumes "create_actor lm i now salt u e pw d ty rs st = Inr (st', m)" "accounts_ok st" "dict_get (as_accounts st) i = None"
  shows "accounts_ok st' \<and> (has_admin_account st \<longrightarrow> has_admin_account st')"
proof -
  obtain u' e' rs' h a where n: "normalize_username u = Inr u'" "normalize_email e = Inr e'"
      "normalize_runtime_roles rs = Inr rs'"
    and c: "create_account i now u' e' (normalize_display_name d u') (normalize_actor_type ty) rs' h algorithm st = Inr (st', a)"
    using assms(1) by (auto simp: create_actor_def bindR_eq_Inr)
  from create_account_ok [OF c assms(2,3)] n normal_names(1,2) normal_roles
  have "accounts_ok st'" "st' = st\<lparr>as_accounts := dict_set (as_accounts st) i a\<rparr>" by blast+
  then show ?thesis using created_keeps_admin [OF assms(2) _ _ assms(3)] by blast
qed

lemma bootstrap_step:
  assumes "bootstrap_admin lm i now salt u e pw st = Inr (st', m)" "accounts_ok st" "dict_get (as_accounts st) i = None"
  shows "accounts_ok st' \<and> has_admin_account st'"
proof -
  obtain u' e' h a where n: "normalize_username u = Inr u'" "normalize_email e = Inr e'"
    and c: "create_account i now u' e' u' ''human'' [admin_role] h algorithm st = Inr (st', a)"
    using assms(1) by (auto simp: bootstrap_admin_def create_admin_account_def bindR_eq_Inr split: if_splits)
  have "set [admin_role] \<subseteq> set allowed_roles" by (simp add: admin_role_def allowed_roles_def)
  note created = create_account_ok [OF c assms(2,3) _ _ _ normal_names(2) [OF n(2)] _ _ this]
  have "accounts_ok st' \<and> account_ok a \<and> la_id a = i \<and> la_roles a = [admin_role] \<and> la_status a = active
    \<and> st' = st\<lparr>as_accounts := dict_set (as_accounts st) i a\<rparr>"
    using normal_names(1) [OF n(1)] by (intro created) simp_all
  then have ok: "accounts_ok st'" and a: "la_status a = active" "la_roles a = [admin_role]"
    and st': "st' = st\<lparr>as_accounts := dict_set (as_accounts st) i a\<rparr>" by blast+
  have "is_active_admin a" using a admin_role_names by (simp add: is_active_admin_def)
  then have "\<exists>k x. dict_get (as_accounts st') k = Some x \<and> is_active_admin x" by (auto simp: st' intro: exI [of _ i])
  then show ?thesis using ok has_admin_iff [OF ok] by simp
qed

lemma auth_step_ok:
  assumes "accounts_ok st" "fresh_for c st"
  shows "accounts_ok (auth_step lm c st) \<and> (has_admin_account st \<longrightarrow> has_admin_account (auth_step lm c st))"
proof (cases c)
  case (Do_Bootstrap i now salt u e pw)
  then show ?thesis using assms bootstrap_step [of lm i now salt u e pw st]
    by (auto simp: outcome_def split: sum.split)
next
  case (Do_Create i now salt u e pw d ty rs)
  then show ?thesis using assms create_actor_step [of lm i now salt u e pw d ty rs st]
    by (auto simp: outcome_def split: sum.split)
next
  case (Do_Update i now e d ty s rs)
  then show ?thesis using assms update_actor_admin [of i now e d ty s rs st]
    by (auto simp: outcome_def split: sum.split)
next
  case (Do_Reset i now salt pw r)
  then show ?thesis using assms reset_password_admin [of lm i now salt pw r st]
    by (auto simp: outcome_def split: sum.split)
next
  case (Do_Issue g now s)
  then show ?thesis using assms accounts_admin_cong [OF token_accounts(1)] by simp
next
  case (Do_Request g now cookies)
  then show ?thesis using assms accounts_admin_cong [OF token_accounts(2)] by simp
qed

lemma auth_steps_ok:
  "auth_steps lm st st' \<Longrightarrow> accounts_ok st \<Longrightarrow>
     accounts_ok st' \<and> (has_admin_account st \<longrightarrow> has_admin_account st')"
  by (induction rule: auth_steps.induct) (use auth_step_ok in \<open>auto\<close>)

lemma new_store_ok: "accounts_ok (new_store ws)"
  by (simp add: accounts_ok_def new_store_def)

lemma reachable_ok: "auth_steps lm (new_store ws) st \<Longrightarrow> accounts_ok st"
  using auth_steps_ok new_store_ok by blast


text \<open>C24: Once there is an active administrator there always is one, through every sequence of operations on
  accounts, passwords and sessions.\<close>

theorem an_active_admin_remains:
  assumes "auth_steps lm (new_store ws) st" "has_admin_account st" "auth_steps lm st st'"
  shows "has_admin_account st'"
  using auth_steps_ok [OF assms(3) reachable_ok [OF assms(1)]] assms(2) by blast

section \<open>An example\<close>

definition demo_signer :: signer where
  "demo_signer = \<lparr>sg_dumps = (\<lambda>secret p now. secret @ ''.'' @ tp_actor_id p),
     sg_loads = (\<lambda>secret token now age.
       if \<not> prefix secret token then Token_Bad
       else if int now - 100 > age then Token_Expired
       else Token_Ok \<lparr>tp_workspace_id = ''w'', tp_actor_id = drop (Suc (length secret)) token,
         tp_provider = provider, tp_version = 2\<rparr>)\<rparr>"

definition demo_manager :: auth_manager where
  "demo_manager = new_auth_manager ''w'' '' '' 3600 None (\<lambda>x salt n. Some (x @ salt)) demo_signer Some"

definition demo_bootstrap :: auth_command where
  "demo_bootstrap = Do_Bootstrap ''i'' 100 [1] ''root'' ''root@x.org'' ''password''"

definition demo_demote :: auth_command where
  "demo_demote = Do_Update ''i'' 200 None None None (Some ''disabled'') None"

definition demo_store :: auth_store where
  "demo_store = auth_step demo_manager demo_bootstrap (new_store ''w'')"

definition demo_hash :: string where
  "demo_hash = format_hash [1] (utf8 ''password'' @ [1])"

lemma demo_names: "normalize_username ''root'' = Inr ''root''" "normalize_email ''root@x.org'' = Inr ''root@x.org''"
  by code_simp+

lemma demo_store_is:
  "demo_store = \<lparr>as_workspace_id = ''w'', as_accounts = [(''i'', \<lparr>la_id = ''i'', la_workspace_id = ''w'', la_subject = ''root'',
     la_username = ''root'', la_email = ''root@x.org'', la_display_name = ''root'', la_actor_type = ''human'',
     la_status = active, la_password_algorithm = algorithm, la_password_updated_at = 100, la_must_rotate = False,
     la_password_hash = demo_hash, la_roles = [admin_role], la_created_at = 100, la_updated_at = 100\<rparr>)], as_secret = None\<rparr>"
  by (simp add: demo_store_def demo_bootstrap_def demo_manager_def new_auth_manager_def new_store_def outcome_def Let_def
      bootstrap_admin_def demo_names validate_password_def hashed_def hash_password_def demo_hash_def
      create_admin_account_def create_account_def has_admin_account_def accounts_of_def dict_values_def dict_set_def)

lemma demo_reachable: "auth_steps demo_manager (new_store ''w'') demo_store"
  unfolding demo_store_def demo_bootstrap_def
  by (rule auth_more [OF auth_none]) (simp add: new_store_def)

lemma demo_has_admin: "has_admin_account demo_store"
  by (simp add: demo_store_is has_admin_account_def accounts_of_def dict_values_def is_active_admin_def admin_role_names)


theorem an_active_admin_remains_witness:
  "has_admin_account (auth_step demo_manager demo_demote demo_store)"
proof (rule an_active_admin_remains [OF demo_reachable demo_has_admin])
  show "auth_steps demo_manager demo_store (auth_step demo_manager demo_demote demo_store)"
    by (rule auth_more [OF auth_none]) (simp add: demo_demote_def)
qed

end
