(* ===== verification/Local_Login.thy ===== *)
theory Local_Login
  imports Local_Auth
begin

text \<open>
  Logging in with local accounts and presenting session tokens
  (\<open>authenticate\<close> and \<open>authenticate_session_request\<close> of \<open>runtime/hosting/local_auth.py\<close>): what the
  operations of theory \<open>Local_Auth\<close> give on every store that operators can reach.
\<close>

section \<open>Identifiers\<close>

lemma strip_keeps_visible: "\<lbrakk>c \<in> set s; \<not> py_isspace c\<rbrakk> \<Longrightarrow> c \<in> set (py_strip s)"
proof -
  have keep: "c \<in> set (dropWhile py_isspace t)" if "c \<in> set t" "\<not> py_isspace c" for c t
    using that by (metis Un_iff set_append set_takeWhileD takeWhile_dropWhile_id)
  show "\<lbrakk>c \<in> set s; \<not> py_isspace c\<rbrakk> \<Longrightarrow> c \<in> set (py_strip s)"
    by (simp add: py_strip_def keep)
qed

lemma strip_ends: "py_strip s = [] \<or> \<not> py_isspace (hd (py_strip s)) \<and> \<not> py_isspace (last (py_strip s))"
proof (cases "py_strip s = []")
  case False
  have "rev (py_strip s) = dropWhile py_isspace (rev (dropWhile py_isspace s))" by (simp add: py_strip_def)
  then have "\<not> py_isspace (last (py_strip s))"
    using False hd_dropWhile [of py_isspace "rev (dropWhile py_isspace s)"] by (metis hd_rev rev_is_Nil_conv)
  moreover have "\<not> py_isspace (hd (py_strip (py_strip s)))"
  proof
    assume b: "py_isspace (hd (py_strip (py_strip s)))"
    have "dropWhile py_isspace s = [] \<or> \<not> py_isspace (hd (dropWhile py_isspace s))" using hd_dropWhile by blast
    from dropWhile_rev_hd [of _ py_isspace, OF this] False b show False by (simp add: py_strip_def [of s, symmetric] Let_def)
  qed
  ultimately show ?thesis by simp
qed simp

lemma lower_char_space: "py_isspace (py_lower_char c) = py_isspace c"
proof -
  have "(of_char c :: nat) < 256" by simp
  then show ?thesis by (auto simp: py_isspace_def py_lower_char_def Let_def)
qed

lemma lower_char_at: "py_lower_char c = CHR ''@'' \<longleftrightarrow> c = CHR ''@''"
proof -
  have "(of_char c :: nat) < 256" by simp
  then show ?thesis by (auto simp: py_lower_char_def Let_def) (auto dest!: arg_cong [of _ _ "of_char :: char \<Rightarrow> nat"])
qed

lemma casefold_char_fixed: "concat (map casefold_char (casefold_char c)) = casefold_char c"
proof (cases "(of_char c :: nat) = 223")
  case True
  then show ?thesis by (simp add: casefold_char_def py_lower_char_def)
next
  case False
  have "(of_char c :: nat) < 256" by simp
  with False have "(of_char (py_lower_char c) :: nat) \<noteq> 223" by (auto simp: py_lower_char_def Let_def)
  with False show ?thesis by (simp add: casefold_char_def)
qed

lemma casefold_ends: "casefold_char c \<noteq> [] \<and> py_isspace (hd (casefold_char c)) = py_isspace c
  \<and> py_isspace (last (casefold_char c)) = py_isspace c \<and> (CHR ''@'' \<in> set (casefold_char c) \<longleftrightarrow> c = CHR ''@'')"
  using lower_char_space [of c] lower_char_at [of c] by (auto simp: casefold_char_def py_isspace_def)

lemma casefold_map_hd: "s \<noteq> [] \<Longrightarrow> hd (concat (map casefold_char s)) = hd (casefold_char (hd s))"
  using casefold_ends by (cases s) auto

lemma casefold_map_last: "s \<noteq> [] \<Longrightarrow> last (concat (map casefold_char s)) = last (casefold_char (last s))"
  using casefold_ends by (cases s rule: rev_cases) auto

lemma normalize_identifier_idem [simp]: "normalize_identifier (normalize_identifier s) = normalize_identifier s"
proof -
  let ?t = "concat (map casefold_char (py_strip s))"
  have "py_strip ?t = ?t"
  proof (cases "py_strip s = []")
    case False
    then have "\<not> py_isspace (hd ?t)" "\<not> py_isspace (last ?t)"
      using strip_ends [of s] casefold_ends by (simp_all add: casefold_map_hd casefold_map_last)
    then show ?thesis by (rule py_strip_keep [OF disjI2 disjI2])
  next
    case True
    moreover have "py_strip [] = []" by (simp add: py_strip_def)
    ultimately show ?thesis by simp
  qed
  moreover have "concat (map casefold_char (concat (map casefold_char u))) = concat (map casefold_char u)" for u
    by (induction u) (simp_all add: casefold_char_fixed)
  ultimately show ?thesis by (simp add: normalize_identifier_def)
qed

lemma identifier_at: "CHR ''@'' \<in> set (normalize_identifier s) \<longleftrightarrow> CHR ''@'' \<in> set s"
proof -
  have "CHR ''@'' \<in> set (py_strip s) \<longleftrightarrow> CHR ''@'' \<in> set s"
    using strip_keeps_visible [of "CHR ''@''" s] set_py_strip [of s] by (auto simp: py_isspace_def)
  then show ?thesis using casefold_ends by (auto simp: normalize_identifier_def)
qed

section \<open>Logging in\<close>

text \<open>An identifier names an account when it is its user name or its address up to blanks and case.\<close>

definition names_account :: "string \<Rightarrow> account \<Rightarrow> bool" where
  "names_account identifier a \<longleftrightarrow>
     normalize_identifier identifier \<in> {normalize_identifier (la_username a), normalize_identifier (la_email a)}"

lemma names_no_rivals:
  assumes "account_ok a" "account_ok b" "names_account x a" "names_account x b"
  shows "rivals a b"
proof -
  have no_at: "CHR ''@'' \<notin> set (normalize_identifier (la_username c))"
    "CHR ''@'' \<in> set (normalize_identifier (la_email c))" if "account_ok c" for c
  proof -
    have "list_all username_char (la_username c)" "CHR ''@'' \<in> set (la_email c)" using that by (simp_all add: account_ok_def)
    then show "CHR ''@'' \<notin> set (normalize_identifier (la_username c))" "CHR ''@'' \<in> set (normalize_identifier (la_email c))"
      unfolding identifier_at using username_char_visible by (auto simp: list_all_iff)
  qed
  have apart: "normalize_identifier (la_username a) \<noteq> normalize_identifier (la_email b)"
    "normalize_identifier (la_email a) \<noteq> normalize_identifier (la_username b)"
    using no_at [OF assms(1)] no_at [OF assms(2)] by metis+
  have same: "\<lbrakk>n = ua \<or> n = ea; n = ub \<or> n = eb; ua \<noteq> eb; ea \<noteq> ub\<rbrakk> \<Longrightarrow> ua = ub \<or> ea = eb"
    for n ua ea ub eb :: string by blast
  show ?thesis
    unfolding rivals_def
    by (rule same [OF _ _ apart, of "normalize_identifier x"]) (use assms(3,4) in \<open>simp_all add: names_account_def\<close>)
qed

lemma find_unique: "\<lbrakk>a \<in> set xs; P a; \<And>b. \<lbrakk>b \<in> set xs; P b\<rbrakk> \<Longrightarrow> b = a\<rbrakk> \<Longrightarrow> find P xs = Some a"
proof (induction xs)
  case (Cons y ys)
  show ?case
  proof (cases "P y")
    case True
    with Cons.prems(3) [of y] show ?thesis by simp
  next
    case False
    with Cons.prems(1,2) have "a \<in> set ys" by auto
    then have "find P ys = Some a"
      by (rule Cons.IH [OF _ Cons.prems(2)]) (rule Cons.prems(3), simp_all)
    with False show ?thesis by simp
  qed
qed simp

lemma login_lookup:
  assumes "accounts_ok st"
  shows "get_account_by_identifier st (normalize_identifier x) True = Some a
    \<longleftrightarrow> (\<exists>k. dict_get (as_accounts st) k = Some a) \<and> names_account x a"
proof -
  have match: "matches_identifier (normalize_identifier x) b \<longleftrightarrow> names_account x b" if "b \<in> set (accounts_of st)" for b
  proof -
    have "account_ok b" using that in_accounts [OF assms] stored_account [OF assms] by blast
    then have "la_subject b = la_username b" unfolding account_ok_def by (elim conjE)
    then show ?thesis
      unfolding matches_identifier_def names_account_def insert_iff empty_iff simp_thms by (metis (no_types))
  qed
  have unique: "b = a" if both: "b \<in> set (accounts_of st)" "a \<in> set (accounts_of st)" and names: "names_account x a" "names_account x b"
    for a b
  proof -
    obtain k l where k: "dict_get (as_accounts st) k = Some a" and l: "dict_get (as_accounts st) l = Some b"
      using both unfolding in_accounts [OF assms] by (elim exE)
    have "rivals a b" using names_no_rivals names stored_account [OF assms] k l by blast
    then have "k = l" using stored_rivals [OF assms k l] by blast
    with k l show ?thesis by simp
  qed
  let ?P = "\<lambda>a. (True \<or> la_status a = active) \<and> matches_identifier (normalize_identifier (normalize_identifier x)) a"
  have "find ?P (accounts_of st) = Some a \<longleftrightarrow> a \<in> set (accounts_of st) \<and> names_account x a"
  proof
    assume "find ?P (accounts_of st) = Some a"
    then have "a \<in> set (accounts_of st)" "?P a" by (auto simp: find_Some_iff)
    then show "a \<in> set (accounts_of st) \<and> names_account x a" using match by simp
  next
    assume "a \<in> set (accounts_of st) \<and> names_account x a"
    then show "find ?P (accounts_of st) = Some a"
      using match unique by (intro find_unique) auto
  qed
  then show ?thesis by (simp add: get_account_by_identifier_def in_accounts [OF assms])
qed

lemma login_account:
  assumes "accounts_ok st" "dict_get (as_accounts st) k = Some a" "names_account x a"
  shows "authenticate lm x pw st = Inr s \<longleftrightarrow> has_admin_account st \<and> la_status a = active
    \<and> verify_password (lm_kdf lm) pw (la_password_hash a) = Some True \<and> s = to_session a"
proof -
  have "account_ok a" using stored_account [OF assms(1,2)] by simp
  then have "normalize_identifier x \<noteq> []" using account_identifiers assms(3) by (auto simp: names_account_def)
  moreover have "get_account_by_identifier st (normalize_identifier x) True = Some a"
    using login_lookup [OF assms(1)] assms(2,3) by blast
  ultimately show ?thesis by (auto simp: authenticate_def Let_def split: option.splits bool.splits)
qed

lemma login_needs_account:
  "\<lbrakk>accounts_ok st; authenticate lm x pw st = Inr s\<rbrakk> \<Longrightarrow> \<exists>k a. dict_get (as_accounts st) k = Some a \<and> names_account x a"
proof -
  assume ok: "accounts_ok st" and auth: "authenticate lm x pw st = Inr s"
  then obtain a where "get_account_by_identifier st (normalize_identifier x) True = Some a"
    by (auto simp: authenticate_def Let_def split: if_splits option.splits)
  then show ?thesis using login_lookup [OF ok] by blast
qed

text \<open>C26: On every reachable store a login succeeds exactly when the runtime is bootstrapped, the identifier
  names a stored account by its user name or its address, that account's hash accepts the password and the account is
  active; the session is the one of that account.\<close>

theorem login_iff:
  assumes "auth_steps lm (new_store ws) st"
  shows "authenticate lm x pw st = Inr s \<longleftrightarrow> has_admin_account st
    \<and> (\<exists>k a. dict_get (as_accounts st) k = Some a \<and> names_account x a \<and> la_status a = active
         \<and> verify_password (lm_kdf lm) pw (la_password_hash a) = Some True \<and> s = to_session a)"
proof -
  note ok = reachable_ok [OF assms]
  show ?thesis using login_needs_account [OF ok] login_account [OF ok] by blast
qed

text \<open>C27: After a password is set, the account's user name and address log in with that password, and with
  another one only on a collision of PBKDF2, as long as the account is active.\<close>

theorem set_password_logs_in:
  assumes "auth_steps lm (new_store ws) st" "has_admin_account st"
    and "reset_password lm i now salt pw r st = Inr (st', m)" "ma_status m = active"
    and "normalize_identifier x \<in> {normalize_identifier (ma_username m), normalize_identifier (ma_email m)}"
  shows "(\<exists>s. authenticate lm x q st' = Inr s \<and> ls_id s = i) \<longleftrightarrow>
    q = pw \<or> (utf8 q \<noteq> utf8 pw \<and> lm_kdf lm (utf8 q) salt iterations = lm_kdf lm (utf8 pw) salt iterations)"
proof -
  note ok = reachable_ok [OF assms(1)]
  obtain h b where h: "hash_password (lm_kdf lm) salt pw = Some h"
    and b: "update_password i now h algorithm r st = Inr (st', b)" and m: "m = to_managed_actor b"
    using assms(3) by (auto simp: reset_password_def bindR_eq_Inr hashed_def split: option.splits)
  have hash: "la_password_hash b = h" using b by (auto simp: update_password_def Let_def split: option.splits)
  have ok': "accounts_ok st'" and admin: "has_admin_account st'"
    using reset_password_admin [OF assms(3) ok] assms(2) by auto
  have get: "dict_get (as_accounts st') i = Some b" and id: "la_id b = i" using update_password_ok [OF b ok] by auto
  have "la_status b = active" "names_account x b"
    using assms(4,5) by (simp_all add: m to_managed_actor_def names_account_def)
  then show ?thesis
    using login_account [OF ok' get, of x lm q] hash_accepts [OF h, of q] admin id by (auto simp: hash to_session_def)
qed

section \<open>Sessions\<close>

text \<open>Once a secret is stored, or one is configured, the secret in force stays the same.\<close>

definition secret_in_force :: "auth_manager \<Rightarrow> auth_store \<Rightarrow> string \<Rightarrow> bool" where
  "secret_in_force lm st s \<longleftrightarrow> lm_secret lm = Some s \<or> (lm_secret lm = None \<and> as_secret st = Some s \<and> s \<noteq> [])"

lemma resolved_in_force: "g \<noteq> [] \<Longrightarrow> resolve_session_secret lm g st = (st', s) \<Longrightarrow> secret_in_force lm st' s"
  by (auto simp: resolve_session_secret_def secret_in_force_def given_def split: option.splits if_splits)

lemma in_force_resolved: "secret_in_force lm st s \<Longrightarrow> snd (resolve_session_secret lm g st) = s"
  by (auto simp: resolve_session_secret_def secret_in_force_def)

lemma resolve_keeps: "secret_in_force lm st s \<Longrightarrow> secret_in_force lm (fst (resolve_session_secret lm g st)) s"
  by (auto simp: resolve_session_secret_def secret_in_force_def)

lemma tokens_keep_secret:
  assumes "secret_in_force lm st s"
  shows "secret_in_force lm (fst (issue_session_token lm g now session st)) s"
    "secret_in_force lm (fst (authenticate_session_request lm g now cookies st)) s"
  using resolve_keeps [OF assms, of g] assms
  by (auto simp: issue_session_token_def authenticate_session_request_def Let_def split: prod.splits token_reading.splits)

lemma accounts_keep_secret:
  "create_account i now u e d ty rs h al st = Inr (st', a) \<Longrightarrow> as_secret st' = as_secret st"
  "update_account i now e' d' ty' s rs' st = Inr (st', a) \<Longrightarrow> as_secret st' = as_secret st"
  "update_password i now h al r st = Inr (st', a) \<Longrightarrow> as_secret st' = as_secret st"
  by (auto simp: create_account_def update_account_def update_password_def bindR_eq_Inr Let_def split: option.splits)

lemma operations_keep_secret:
  "as_secret (outcome st (bootstrap_admin lm i now salt u e pw st)) = as_secret st"
  "as_secret (outcome st (create_actor lm i now salt u e pw d ty rs st)) = as_secret st"
  "as_secret (outcome st (update_actor i now e' d ty s rs st)) = as_secret st"
  "as_secret (outcome st (reset_password lm i now salt pw r st)) = as_secret st"
  by (auto simp: outcome_def bootstrap_admin_def create_admin_account_def create_actor_def update_actor_def
      reset_password_def bindR_eq_Inr accounts_keep_secret split: sum.split if_splits)

lemma step_keeps_secret: "secret_in_force lm st s \<Longrightarrow> secret_in_force lm (auth_step lm c st) s"
  by (cases c) (simp_all add: tokens_keep_secret, simp_all add: secret_in_force_def operations_keep_secret)

lemma steps_keep_secret: "auth_steps lm st st' \<Longrightarrow> secret_in_force lm st s \<Longrightarrow> secret_in_force lm st' s"
  by (induction rule: auth_steps.induct) (simp_all add: step_keeps_secret)

definition issued_payload :: "auth_manager \<Rightarrow> local_session \<Rightarrow> token_payload" where
  "issued_payload lm session = \<lparr>tp_workspace_id = lm_workspace_id lm, tp_actor_id = ls_id session,
     tp_provider = ls_provider session, tp_version = 2\<rparr>"

lemma issued_token:
  "issue_session_token lm g t session st = (st1, token) \<Longrightarrow>
     \<exists>secret. resolve_session_secret lm g st = (st1, secret)
       \<and> token = sg_dumps (lm_signer lm) secret (issued_payload lm session) t"
  by (auto simp: issue_session_token_def issued_payload_def split: prod.splits)

text \<open>C28: A token of a session, presented after any further operations with the secret kept or generated,
  gives the session of its account as the account is then, is stale when the account is missing or disabled, and
  has expired after the session's age. Signing is assumed to read back what it wrote.\<close>

theorem session_follows_account:
  assumes "auth_steps lm (new_store ws) st" "has_admin_account st" "g \<noteq> []"
    and "issue_session_token lm g t session st = (st1, token)" "auth_steps lm st1 st2" "t \<le> now"
    and "\<And>secret. sg_loads (lm_signer lm) secret (sg_dumps (lm_signer lm) secret (issued_payload lm session) t) now (lm_max_age lm)
      = (if int now - int t > lm_max_age lm then Token_Expired else Token_Ok (issued_payload lm session))"
    and "token \<noteq> []" "py_strip token = token" "py_strip (lm_workspace_id lm) = lm_workspace_id lm"
    and "ls_id session \<noteq> []" "py_strip (ls_id session) = ls_id session" "lm_to_uuid lm (ls_id session) = Some (ls_id session)"
  shows "snd (authenticate_session_request lm g' now [(lm_cookie_name lm, token)] st2) =
    (if int now - int t > lm_max_age lm then Inl Session_Expired
     else case dict_get (as_accounts st2) (ls_id session) of
         None \<Rightarrow> Inl Session_Stale
       | Some a \<Rightarrow> if la_status a = active then Inr (to_session a) else Inl Session_Stale)"
proof -
  obtain secret where s: "resolve_session_secret lm g st = (st1, secret)"
    and token: "token = sg_dumps (lm_signer lm) secret (issued_payload lm session) t"
    using issued_token [OF assms(4)] by blast
  have later: "snd (resolve_session_secret lm g' st2) = secret"
    using in_force_resolved steps_keep_secret [OF assms(5) resolved_in_force [OF assms(3) s]] by blast
  have "as_accounts st1 = as_accounts st" using resolve_accounts [of lm g st] s by simp
  then have "accounts_ok st1" "has_admin_account st1"
    using accounts_admin_cong [of st1 st] reachable_ok [OF assms(1)] assms(2) by auto
  then have admin: "has_admin_account st2" using auth_steps_ok [OF assms(5)] by blast
  obtain st3 where r: "resolve_session_secret lm g' st2 = (st3, secret)" "as_accounts st3 = as_accounts st2"
    using later resolve_accounts [of lm g' st2] by (cases "resolve_session_secret lm g' st2") auto
  have "sg_loads (lm_signer lm) secret token now (lm_max_age lm)
      = (if int now - int t > lm_max_age lm then Token_Expired else Token_Ok (issued_payload lm session))"
    using assms(7) [of secret] token by simp
  moreover have "session_of_payload lm (issued_payload lm session) st3 =
      (case dict_get (as_accounts st2) (ls_id session) of
         None \<Rightarrow> Inl Session_Stale
       | Some a \<Rightarrow> if la_status a = active then Inr (to_session a) else Inl Session_Stale)"
    using assms(10-) r(2) by (simp add: session_of_payload_def get_account_by_id_def issued_payload_def split: option.split)
  moreover have "dict_get [(lm_cookie_name lm, token)] (lm_cookie_name lm) = Some token" by (simp add: dict_get_def)
  ultimately show ?thesis
    using admin assms(8,9) r(1) by (simp add: authenticate_session_request_def Let_def)
qed

section \<open>Witnesses\<close>

definition demo_account :: account where
  "demo_account = the (dict_get (as_accounts demo_store) ''i'')"

definition demo_reset :: auth_command where
  "demo_reset = Do_Reset ''i'' 150 [2] ''other password'' False"

lemma demo_account_is: "dict_get (as_accounts demo_store) ''i'' = Some demo_account" "la_username demo_account = ''root''"
  "la_email demo_account = ''root@x.org''" "la_status demo_account = active" "la_id demo_account = ''i''"
  "la_password_hash demo_account = demo_hash"
  by (simp_all add: demo_account_def demo_store_is dict_get_def)

lemma demo_settings: "lm_workspace_id demo_manager = ''w''" "lm_max_age demo_manager = 3600"
  "lm_signer demo_manager = demo_signer" "lm_to_uuid demo_manager = Some"
  by (simp_all add: demo_manager_def new_auth_manager_def Let_def)

lemma demo_kdf: "lm_kdf demo_manager = (\<lambda>x salt n. Some (x @ salt))"
  by (simp add: demo_manager_def new_auth_manager_def Let_def)

lemma demo_hash_made: "hash_password (lm_kdf demo_manager) [1] ''password'' = Some demo_hash"
  by (simp add: demo_kdf hash_password_def demo_hash_def)

theorem login_iff_witness:
  "authenticate demo_manager '' ROOT '' ''password'' demo_store = Inr (to_session demo_account)"
proof -
  have "names_account '' ROOT '' demo_account" by (simp add: names_account_def demo_account_is) code_simp
  moreover have "verify_password (lm_kdf demo_manager) ''password'' demo_hash = Some True"
    using hash_accepts [OF demo_hash_made, of "''password''"] by simp
  ultimately show ?thesis
    unfolding login_iff [OF demo_reachable] using demo_has_admin demo_account_is by metis
qed

lemma demo_reset_is:
  "\<exists>st' m. reset_password demo_manager ''i'' 150 [2] ''other password'' False demo_store = Inr (st', m)
     \<and> ma_status m = active \<and> ma_username m = ''root'' \<and> auth_step demo_manager demo_reset demo_store = st'
     \<and> (\<exists>a. dict_get (as_accounts st') ''i'' = Some a \<and> la_status a = active)"
  using demo_account_is
  by (simp add: reset_password_def require_account_def get_account_by_id_def validate_password_def hashed_def
      hash_password_def demo_kdf update_password_def Let_def to_managed_actor_def demo_reset_def outcome_def)

theorem set_password_logs_in_witness:
  "\<exists>st' m. reset_password demo_manager ''i'' 150 [2] ''other password'' False demo_store = Inr (st', m)
     \<and> (\<exists>s. authenticate demo_manager ''root'' ''other password'' st' = Inr s \<and> ls_id s = ''i'')"
proof -
  obtain st' m where r: "reset_password demo_manager ''i'' 150 [2] ''other password'' False demo_store = Inr (st', m)"
      "ma_status m = active" "ma_username m = ''root''"
    using demo_reset_is by blast
  have "\<exists>s. authenticate demo_manager ''root'' ''other password'' st' = Inr s \<and> ls_id s = ''i''"
    using set_password_logs_in [OF demo_reachable demo_has_admin r(1,2), of "''root''" "''other password''"] by (simp add: r(3))
  with r(1) show ?thesis by blast
qed

text \<open>A session outlives the reset of its account's password.\<close>

theorem session_follows_account_witness:
  "\<exists>st1 token a. issue_session_token demo_manager ''k'' 100 (to_session demo_account) demo_store = (st1, token)
     \<and> snd (authenticate_session_request demo_manager ''n'' 160 [(lm_cookie_name demo_manager, token)]
          (auth_step demo_manager demo_reset st1)) = Inr (to_session a)"
proof -
  let ?st1 = "demo_store\<lparr>as_secret := Some ''k''\<rparr>"
  have issued: "issue_session_token demo_manager ''k'' 100 (to_session demo_account) demo_store = (?st1, ''k.i'')"
    by (simp add: issue_session_token_def resolve_session_secret_def demo_manager_def new_auth_manager_def demo_signer_def
        demo_store_is given_def to_session_def demo_account_def py_strip_def dict_get_def)
  have id: "ls_id (to_session demo_account) = ''i''" "ls_provider (to_session demo_account) = provider"
    by (simp_all add: to_session_def demo_account_is)
  have get1: "dict_get (as_accounts ?st1) ''i'' = Some demo_account" using demo_account_is(1) by simp
  obtain a where a: "dict_get (as_accounts (auth_step demo_manager demo_reset ?st1)) ''i'' = Some a" "la_status a = active"
    using get1 demo_account_is
    by (auto simp: reset_password_def require_account_def get_account_by_id_def validate_password_def hashed_def
        hash_password_def demo_kdf update_password_def Let_def demo_reset_def outcome_def)
  have steps: "auth_steps demo_manager ?st1 (auth_step demo_manager demo_reset ?st1)"
    by (rule auth_more [OF auth_none]) (simp add: demo_reset_def)
  have "snd (authenticate_session_request demo_manager ''n'' 160 [(lm_cookie_name demo_manager, ''k.i'')]
      (auth_step demo_manager demo_reset ?st1)) = Inr (to_session a)"
    by (subst session_follows_account [OF demo_reachable demo_has_admin _ issued steps])
      (use a in \<open>simp_all add: id demo_settings demo_signer_def issued_payload_def py_strip_def py_isspace_def\<close>)
  with issued show ?thesis by blast
qed

end
