(* ===== verification/Odbc_Wire.thy ===== *)
theory Odbc_Wire
  imports Passwords Sql_Guard
begin

text \<open>
  Bytes of the SQL endpoint for BI drivers (\<open>runtime/hosting/odbc.py\<close>): big-endian integers,
  strings that end with a zero byte, frames, rows and row descriptions of the PostgreSQL protocol.
  A length that does not fit its field raises \<open>struct.error\<close>, except that of a whole message,
  where payloads of 4 GiB and more are left out. As everywhere, texts have code points below 256; bytes that
  are no UTF-8 for such a text count as an error of the decoder.
\<close>

section \<open>Integers\<close>

datatype odbc_error =
    Struct_Error
  | Bad_Utf8
  | Bad_Ascii
  | No_Terminator
  | Index_Error
  | Negative_Read
  | Missing_Placeholder nat
  | Binary_Parameters
  | Binary_Results
  | Unsupported_Describe char
  | Unsupported_Close char
  | Unsupported_Message char
  | Unknown_Portal string
  | Unknown_Statement string
  | No_Cancellation
  | Bad_Protocol
  | Password_Required
  | Invalid_Token
  | Host_Failed string

definition be16 :: "nat \<Rightarrow> byte list" where
  "be16 n = [of_nat (n div 256), of_nat (n mod 256)]"

definition be32 :: "nat \<Rightarrow> byte list" where
  "be32 n = be16 (n div 65536) @ be16 (n mod 65536)"

definition pack16 :: "nat \<Rightarrow> (odbc_error, byte list) result" where
  "pack16 n = (if n < 65536 then Inr (be16 n) else Inl Struct_Error)"

definition pack32 :: "nat \<Rightarrow> (odbc_error, byte list) result" where
  "pack32 n = (if n < 4294967296 then Inr (be32 n) else Inl Struct_Error)"

definition unpack16 :: "byte list \<Rightarrow> (odbc_error, nat) result" where
  "unpack16 bs = (case bs of [a, b] \<Rightarrow> Inr (unat a * 256 + unat b) | _ \<Rightarrow> Inl Struct_Error)"

definition unpack32 :: "byte list \<Rightarrow> (odbc_error, nat) result" where
  "unpack32 bs =
     (case bs of [a, b, c, d] \<Rightarrow> Inr (unat a * 16777216 + unat b * 65536 + unat c * 256 + unat d)
      | _ \<Rightarrow> Inl Struct_Error)"

definition unpack_signed32 :: "byte list \<Rightarrow> (odbc_error, int) result" where
  "unpack_signed32 bs =
     bindR (unpack32 bs) (\<lambda>n. Inr (if n < 2147483648 then int n else int n - 4294967296))"

section \<open>Strings\<close>

fun utf8_decode :: "byte list \<Rightarrow> string option" where
  "utf8_decode [] = Some []"
| "utf8_decode [b] = (if unat b < 128 then Some [char_of (unat b)] else None)"
| "utf8_decode (b # c # bs) =
     (if unat b < 128 then map_option ((#) (char_of (unat b))) (utf8_decode (c # bs))
      else if 194 \<le> unat b \<and> unat b \<le> 195 \<and> 128 \<le> unat c \<and> unat c < 192
        then map_option ((#) (char_of ((unat b - 192) * 64 + (unat c - 128)))) (utf8_decode bs)
      else None)"

definition decode :: "byte list \<Rightarrow> (odbc_error, string) result" where
  "decode bs = (case utf8_decode bs of None \<Rightarrow> Inl Bad_Utf8 | Some s \<Rightarrow> Inr s)"

definition cstring :: "string \<Rightarrow> byte list" where
  "cstring s = utf8 s @ [0]"

definition read_cstring :: "byte list \<Rightarrow> nat \<Rightarrow> (odbc_error, string \<times> nat) result" where
  "read_cstring payload offset =
     (let s = takeWhile (\<lambda>b. b \<noteq> 0) (drop offset payload)
      in if offset + length s < length payload
         then bindR (decode s) (\<lambda>t. Inr (t, offset + length s + 1)) else Inl No_Terminator)"

text \<open>\<open>payload[i:j]\<close>\<close>

definition py_index :: "int \<Rightarrow> nat \<Rightarrow> nat" where
  "py_index i n = (if i < 0 then nat (max 0 (i + int n)) else min (nat i) n)"

definition py_slice :: "byte list \<Rightarrow> int \<Rightarrow> int \<Rightarrow> byte list" where
  "py_slice bs i j = (let a = py_index i (length bs); b = py_index j (length bs) in take (b - a) (drop a bs))"

section \<open>Messages\<close>

definition frame :: "char \<Rightarrow> byte list \<Rightarrow> byte list" where
  "frame t payload = of_nat (of_char t) # be32 (length payload + 4) @ payload"

record odbc_column =
  oc_name :: string
  oc_type_oid :: nat

text \<open>Of a value the model has the texts that Python's printers give; a date and time has two.\<close>

datatype wire_value =
    W_None
  | W_Bool bool
  | W_Int int
  | W_Float string
  | W_Decimal string
  | W_Date string
  | W_Time string
  | W_Datetime string string bool
  | W_Other string

fun wire_text :: "wire_value \<Rightarrow> string" where
  "wire_text W_None = []"
| "wire_text (W_Bool b) = (if b then ''t'' else ''f'')"
| "wire_text (W_Int n) = py_str_int n"
| "wire_text (W_Float s) = s"
| "wire_text (W_Decimal s) = s"
| "wire_text (W_Date s) = s"
| "wire_text (W_Time s) = s"
| "wire_text (W_Datetime d t aware) = d @ ''T'' @ t"
| "wire_text (W_Other s) = s"

fun sql_literal :: "wire_value \<Rightarrow> string" where
  "sql_literal W_None = ''NULL''"
| "sql_literal (W_Bool b) = (if b then ''TRUE'' else ''FALSE'')"
| "sql_literal (W_Int n) = py_str_int n"
| "sql_literal (W_Float s) = s"
| "sql_literal (W_Decimal s) = s"
| "sql_literal (W_Datetime d t aware) = ''TIMESTAMP '' @ [quote] @ d @ '' '' @ t @ [quote]"
| "sql_literal (W_Date s) = ''DATE '' @ [quote] @ s @ [quote]"
| "sql_literal (W_Time s) = ''TIME '' @ [quote] @ s @ [quote]"
| "sql_literal (W_Other s) = [quote] @ double_quotes s @ [quote]"

definition pg_type_oids :: "(string, nat) dict" where
  "pg_type_oids = [(''bool'', 16), (''bytea'', 17), (''int8'', 20), (''int2'', 21), (''int4'', 23), (''text'', 25),
     (''oid'', 26), (''float4'', 700), (''float8'', 701), (''varchar'', 1043), (''date'', 1082), (''time'', 1083),
     (''timestamp'', 1114), (''timestamptz'', 1184), (''numeric'', 1700)]"

definition oid_of :: "string \<Rightarrow> nat" where
  "oid_of name = (case dict_get pg_type_oids name of None \<Rightarrow> 25 | Some n \<Rightarrow> n)"

definition infer_type_oid :: "string \<Rightarrow> nat" where
  "infer_type_oid raw = oid_of (py_lower (py_strip raw))"

fun infer_type_oid_from_value :: "wire_value \<Rightarrow> nat" where
  "infer_type_oid_from_value (W_Bool b) = oid_of ''bool''"
| "infer_type_oid_from_value (W_Int n) = oid_of ''int8''"
| "infer_type_oid_from_value (W_Float s) = oid_of ''float8''"
| "infer_type_oid_from_value (W_Decimal s) = oid_of ''numeric''"
| "infer_type_oid_from_value (W_Date s) = oid_of ''date''"
| "infer_type_oid_from_value (W_Time s) = oid_of ''time''"
| "infer_type_oid_from_value (W_Datetime d t aware) = oid_of (if aware then ''timestamptz'' else ''timestamp'')"
| "infer_type_oid_from_value _ = oid_of ''text''"

definition duckdb_oids :: "(string \<times> nat) list" where
  "duckdb_oids = [(''bool'', oid_of ''bool''), (''int2'', oid_of ''int2''), (''int4'', oid_of ''int4''),
     (''int8'', oid_of ''int8''), (''double'', oid_of ''float8''), (''float'', oid_of ''float8''),
     (''decimal'', oid_of ''numeric''), (''date'', oid_of ''date''), (''time'', oid_of ''time''),
     (''timestamp with time zone'', oid_of ''timestamptz''), (''timestamp'', oid_of ''timestamp''),
     (''varchar'', oid_of ''varchar'')]"

definition infer_type_oid_from_duckdb :: "string \<Rightarrow> nat" where
  "infer_type_oid_from_duckdb raw =
     (case find (\<lambda>(k, n). sublist k (py_lower (py_strip raw))) duckdb_oids of None \<Rightarrow> oid_of ''text'' | Some (k, n) \<Rightarrow> n)"

fun encode_columns :: "odbc_column list \<Rightarrow> (odbc_error, byte list) result" where
  "encode_columns [] = Inr []"
| "encode_columns (c # cs) =
     bindR (pack32 (if oc_type_oid c = 0 then 25 else oc_type_oid c)) (\<lambda>oid.
     bindR (encode_columns cs) (\<lambda>rest.
       Inr (cstring (if oc_name c = [] then ''column'' else oc_name c) @ be32 0 @ be16 0 @ oid @ be16 65535
         @ be32 4294967295 @ be16 0 @ rest)))"

definition encode_row_description :: "odbc_column list \<Rightarrow> (odbc_error, byte list) result" where
  "encode_row_description columns =
     bindR (pack16 (length columns)) (\<lambda>n. bindR (encode_columns columns) (\<lambda>body. Inr (n @ body)))"

fun encode_values :: "wire_value list \<Rightarrow> (odbc_error, byte list) result" where
  "encode_values [] = Inr []"
| "encode_values (v # vs) =
     bindR (if v = W_None then Inr (be32 4294967295)
            else let e = utf8 (wire_text v) in bindR (pack32 (length e)) (\<lambda>n. Inr (n @ e))) (\<lambda>b.
     bindR (encode_values vs) (\<lambda>rest. Inr (b @ rest)))"

definition encode_data_row :: "wire_value list \<Rightarrow> (odbc_error, byte list) result" where
  "encode_data_row values =
     bindR (pack16 (length values)) (\<lambda>n. bindR (encode_values values) (\<lambda>body. Inr (n @ body)))"

text \<open>The parameters of a startup packet: the pieces between zero bytes, empty ones dropped, taken in pairs.\<close>

fun split_zero :: "byte list \<Rightarrow> byte list list" where
  "split_zero [] = [[]]"
| "split_zero (b # bs) =
     (if b = 0 then [] # split_zero bs
      else case split_zero bs of [] \<Rightarrow> [[b]] | p # ps \<Rightarrow> (b # p) # ps)"

fun decode_all :: "byte list list \<Rightarrow> (odbc_error, string list) result" where
  "decode_all [] = Inr []"
| "decode_all (p # ps) = bindR (decode p) (\<lambda>s. bindR (decode_all ps) (\<lambda>ss. Inr (s # ss)))"

fun pair_up :: "(string, string) dict \<Rightarrow> string list \<Rightarrow> (string, string) dict" where
  "pair_up d (k # v # items) = pair_up (dict_set d k v) items"
| "pair_up d _ = d"

definition parse_startup_parameters :: "byte list \<Rightarrow> (odbc_error, (string, string) dict) result" where
  "parse_startup_parameters payload =
     bindR (decode_all (filter (\<lambda>p. p \<noteq> []) (split_zero payload))) (\<lambda>items. Inr (pair_up [] items))"

end
