(* ===== verification/Odbc_Gateway.thy ===== *)
theory Odbc_Gateway
  imports Odbc_Wire
begin

text \<open>
  The query gateway of the SQL endpoint (\<open>RuntimeOdbcQueryGateway\<close> in \<open>runtime/hosting/odbc.py\<close>):
  placeholders, session commands and settings, queries about the catalog and queries for the runtime.
  The runtime host is a state with three calls as parameters: running a query under a row limit, listing datasets and
  reading one of them. The rewriting of a query through \<open>sqlglot\<close> and DuckDB's answer over a
  catalog of \<open>CREATE TABLE\<close> statements are parameters too; the statements run when all datasets have been read.
\<close>

section \<open>Configuration and results\<close>

record odbc_config =
  ec_database_name :: string
  ec_schema_name :: string
  ec_max_rows :: int

definition default_database :: string where
  "default_database = ''langbridge''"

definition public_schema :: string where
  "public_schema = ''public''"

definition server_version :: string where
  "server_version = ''16.0-langbridge''"

text \<open>\<open>from_env\<close> with the number of rows given by the caller or the environment; zero counts as not given.\<close>

definition config_from_env :: "int option \<Rightarrow> int \<Rightarrow> odbc_config" where
  "config_from_env max_rows env_max_rows =
     \<lparr>ec_database_name = default_database, ec_schema_name = public_schema,
       ec_max_rows = max 1 (case max_rows of None \<Rightarrow> env_max_rows | Some n \<Rightarrow> if n = 0 then env_max_rows else n)\<rparr>"

record odbc_result =
  qr_columns :: "odbc_column list"
  qr_rows :: "wire_value list list"
  qr_tag :: string

text \<open>A column of a payload has the text of its name and of its type; it is missing when the entry is no dictionary.\<close>

record raw_column =
  rc_name :: string
  rc_type :: "string option"

datatype raw_row = Row_Dict "(string, wire_value) dict" | Row_List "wire_value list" | Row_Scalar wire_value

record dataset_entry =
  de_ref :: string
  de_name :: string

record dataset_details =
  dd_alias :: "string option"
  dd_columns :: "(string \<times> string) option list"

record 'h gateway =
  gw_config :: odbc_config
  gw_run :: "string \<Rightarrow> int \<Rightarrow> 'h \<Rightarrow> 'h \<times> (string, raw_column option list \<times> raw_row list) result"
  gw_datasets :: "'h \<Rightarrow> 'h \<times> (string, dataset_entry list) result"
  gw_dataset :: "string \<Rightarrow> 'h \<Rightarrow> 'h \<times> (string, dataset_details) result"
  gw_rewrite :: "string \<Rightarrow> string option"
  gw_catalog :: "string list \<Rightarrow> string \<Rightarrow> (string, (string \<times> string) list \<times> wire_value list list) result"

section \<open>Placeholders\<close>

definition digits_value :: "string \<Rightarrow> nat" where
  "digits_value s = foldl (\<lambda>n c. n * 10 + (of_char c - 48)) 0 s"

text \<open>\<open>\$([1-9][0-9]*)\b\<close>\<close>

definition match_placeholder :: "char option \<Rightarrow> string \<Rightarrow> (nat \<times> nat) option" where
  "match_placeholder before s =
     (case s of
        [] \<Rightarrow> None
      | c # t \<Rightarrow>
          let d = takeWhile is_digit t; rest = dropWhile is_digit t
          in if c = dollar \<and> d \<noteq> [] \<and> hd d \<noteq> CHR ''0'' \<and> (rest = [] \<or> \<not> word_char (hd rest))
             then Some (Suc (length d), digits_value d) else None)"

definition replace_placeholder :: "wire_value list \<Rightarrow> nat \<Rightarrow> (odbc_error, string) result" where
  "replace_placeholder parameters n =
     (if n = 0 \<or> length parameters < n then Inl (Missing_Placeholder n) else Inr (sql_literal (parameters ! (n - 1))))"

definition render_query :: "string \<Rightarrow> wire_value list \<Rightarrow> (odbc_error, string) result" where
  "render_query query parameters =
     (if parameters = [] then Inr query
      else scan_sub match_placeholder (replace_placeholder parameters) 0 None query)"

text \<open>The groups of all matches, from left to right.\<close>

fun scan_all :: "(char option \<Rightarrow> string \<Rightarrow> (nat \<times> 'g) option) \<Rightarrow> nat \<Rightarrow> char option \<Rightarrow> string \<Rightarrow> 'g list" where
  "scan_all m skip before [] = []"
| "scan_all m (Suc n) before (c # s) = scan_all m n (Some c) s"
| "scan_all m 0 before (c # s) =
     (case m before (c # s) of
        None \<Rightarrow> scan_all m 0 (Some c) s
      | Some (len, g) \<Rightarrow> g # scan_all m (len - 1) (Some c) s)"

definition count_query_parameters :: "string \<Rightarrow> nat" where
  "count_query_parameters query = fold max (scan_all match_placeholder 0 None query) 0"

section \<open>Session commands and settings\<close>

definition session_commands :: "string list" where
  "session_commands = [''begin'', ''start transaction'', ''commit'', ''rollback'', ''set '', ''reset '', ''discard '',
     ''deallocate '']"

definition lowered :: "string \<Rightarrow> string" where
  "lowered query = py_lower (py_strip query)"

definition is_session_command :: "string \<Rightarrow> bool" where
  "is_session_command query = list_ex (\<lambda>p. prefix p (lowered query)) session_commands"

definition setting_values :: "odbc_config \<Rightarrow> (string, string) dict" where
  "setting_values ec =
     [(''search_path'', ec_schema_name ec), (''transaction_read_only'', ''on''), (''server_version'', server_version),
      (''standard_conforming_strings'', ''on''), (''integer_datetimes'', ''on''), (''client_encoding'', ''UTF8''),
      (''server_encoding'', ''UTF8''), (''application_name'', ''langbridge''), (''timezone'', ''UTC''),
      (''datestyle'', ''ISO, MDY'')]"

definition semicolon :: char where
  "semicolon = CHR '';''"

definition strip_semicolons :: "string \<Rightarrow> string" where
  "strip_semicolons s = rev (dropWhile (\<lambda>c. c = semicolon) (rev (dropWhile (\<lambda>c. c = semicolon) s)))"

definition rstrip_semicolons :: "string \<Rightarrow> string" where
  "rstrip_semicolons s = rev (dropWhile (\<lambda>c. c = semicolon) (rev s))"

definition text_column :: "string \<Rightarrow> odbc_column" where
  "text_column name = \<lparr>oc_name = name, oc_type_oid = oid_of ''text''\<rparr>"

definition one_text :: "string \<Rightarrow> string \<Rightarrow> string \<Rightarrow> odbc_result" where
  "one_text name v tag = \<lparr>qr_columns = [text_column name], qr_rows = [[W_Other v]], qr_tag = tag\<rparr>"

definition show_setting :: "odbc_config \<Rightarrow> string \<Rightarrow> odbc_result" where
  "show_setting ec query =
     (let name = py_lower (py_strip (strip_semicolons (py_strip (drop 5 (py_strip query)))))
      in one_text name (case dict_get (setting_values ec) name of None \<Rightarrow> [] | Some v \<Rightarrow> v) ''SHOW'')"

definition bare_result :: "string \<Rightarrow> odbc_result" where
  "bare_result tag = \<lparr>qr_columns = [], qr_rows = [], qr_tag = tag\<rparr>"

definition execute_session_command :: "odbc_config \<Rightarrow> string \<Rightarrow> odbc_result" where
  "execute_session_command ec query =
     (let l = lowered query
      in if prefix ''show '' l then show_setting ec query
         else if prefix ''begin'' l \<or> prefix ''start transaction'' l then bare_result ''BEGIN''
         else if prefix ''commit'' l then bare_result ''COMMIT''
         else if prefix ''rollback'' l then bare_result ''ROLLBACK''
         else bare_result ''SET'')"

section \<open>Queries about the catalog\<close>

definition metadata_tokens :: "string list" where
  "metadata_tokens = [''information_schema.'', ''pg_catalog.'', ''show '', ''version()'', ''current_database()'',
     ''current_catalog'', ''current_schema()'', ''current_schemas('']"

definition is_metadata_query :: "string \<Rightarrow> bool" where
  "is_metadata_query query = list_ex (\<lambda>t. sublist t (lowered query)) metadata_tokens"

definition clean_identifier :: "string \<Rightarrow> string" where
  "clean_identifier s = strip_underscores (collapse_symbols False (py_lower (py_strip s)))"

definition normalize_column_identifier :: "string option \<Rightarrow> string \<Rightarrow> string" where
  "normalize_column_identifier v fallback =
     (let n = clean_identifier (case v of None \<Rightarrow> [] | Some s \<Rightarrow> s); d = clean_identifier fallback
      in if n \<noteq> [] then n else if d \<noteq> [] then d else ''dataset'')"

definition duckdb_type_map :: "(string, string) dict" where
  "duckdb_type_map = [(''bool'', ''BOOLEAN''), (''boolean'', ''BOOLEAN''), (''int'', ''INTEGER''), (''int2'', ''SMALLINT''),
     (''int4'', ''INTEGER''), (''int8'', ''BIGINT''), (''integer'', ''INTEGER''), (''bigint'', ''BIGINT''),
     (''smallint'', ''SMALLINT''), (''number'', ''DOUBLE''), (''float'', ''DOUBLE''), (''float4'', ''FLOAT''),
     (''float8'', ''DOUBLE''), (''double'', ''DOUBLE''), (''double precision'', ''DOUBLE''), (''real'', ''REAL''),
     (''numeric'', ''DECIMAL(38, 10)''), (''decimal'', ''DECIMAL(38, 10)''), (''date'', ''DATE''), (''time'', ''TIME''),
     (''timestamp'', ''TIMESTAMP''), (''timestamptz'', ''TIMESTAMPTZ''), (''datetime'', ''TIMESTAMP''),
     (''string'', ''VARCHAR''), (''text'', ''VARCHAR''), (''varchar'', ''VARCHAR''), (''char'', ''VARCHAR''),
     (''uuid'', ''VARCHAR''), (''json'', ''VARCHAR'')]"

definition duckdb_type_for_column :: "string \<Rightarrow> string" where
  "duckdb_type_for_column data_type =
     (case dict_get duckdb_type_map (py_lower (py_strip data_type)) of None \<Rightarrow> ''VARCHAR'' | Some t \<Rightarrow> t)"

abbreviation double_quote :: char where
  "double_quote \<equiv> CHR 0x22"

definition quote_name :: "string \<Rightarrow> string" where
  "quote_name s = [double_quote] @ py_replace [double_quote] [double_quote, double_quote] s @ [double_quote]"

definition column_sql :: "(string \<times> string) option list \<Rightarrow> string" where
  "column_sql columns =
     py_join '', '' (concat (map (\<lambda>(index, c). case c of
          None \<Rightarrow> []
        | Some (name, data_type) \<Rightarrow>
            [quote_name (normalize_column_identifier (Some name) (''column_'' @ py_str_int (int (index + 1)))) @ '' ''
               @ duckdb_type_for_column data_type]) (enumerate 0 columns)))"

definition create_table_sql :: "dataset_entry \<Rightarrow> dataset_details \<Rightarrow> string" where
  "create_table_sql e d =
     (let name = py_strip (de_name e);
          sql_alias = normalize_column_identifier (Some (if given (dd_alias d) then the (dd_alias d) else name)) name;
          columns = column_sql (dd_columns d)
      in ''CREATE TABLE '' @ quote_name public_schema @ ''.'' @ quote_name sql_alias @ '' ('' @
           (if columns = [] then [double_quote] @ ''value'' @ [double_quote] @ '' VARCHAR'' else columns) @ '')'')"

fun catalog_tables ::
  "'h gateway \<Rightarrow> dataset_entry list \<Rightarrow> 'h \<Rightarrow> 'h \<times> (odbc_error, string list) result" where
  "catalog_tables gw [] h = (h, Inr [])"
| "catalog_tables gw (e # es) h =
     (let ref = py_strip (if de_ref e = [] then de_name e else de_ref e)
      in if ref = [] \<or> py_strip (de_name e) = [] then catalog_tables gw es h
         else case gw_dataset gw ref h of
             (h1, Inl err) \<Rightarrow> (h1, Inl (Host_Failed err))
           | (h1, Inr d) \<Rightarrow>
               (case catalog_tables gw es h1 of (h2, r) \<Rightarrow>
                  (h2, bindR r (\<lambda>tables. Inr (create_table_sql e d # tables)))))"

definition materialize_catalog :: "'h gateway \<Rightarrow> 'h \<Rightarrow> 'h \<times> (odbc_error, string list) result" where
  "materialize_catalog gw h =
     (case gw_datasets gw h of
        (h1, Inl err) \<Rightarrow> (h1, Inl (Host_Failed err))
      | (h1, Inr es) \<Rightarrow>
          (case catalog_tables gw es h1 of (h2, r) \<Rightarrow>
             (h2, bindR r (\<lambda>tables. Inr ((''CREATE SCHEMA IF NOT EXISTS '' @ quote_name public_schema) # tables)))))"

definition select_tag :: "'a list \<Rightarrow> string" where
  "select_tag rows = ''SELECT '' @ py_str_int (int (length rows))"

definition execute_metadata_query :: "'h gateway \<Rightarrow> string \<Rightarrow> 'h \<Rightarrow> 'h \<times> (odbc_error, odbc_result) result" where
  "execute_metadata_query gw query h =
     (let l = lowered query; ec = gw_config gw
      in if prefix ''show '' l then (h, Inr (show_setting ec query))
         else if sublist ''version()'' l
           then (h, Inr (one_text ''version'' (''Langbridge runtime federated endpoint ('' @ server_version @ '')'') ''SELECT 1''))
         else if sublist ''current_database()'' l \<or> sublist ''current_catalog'' l
           then (h, Inr (one_text ''current_database'' (ec_database_name ec) ''SELECT 1''))
         else if sublist ''current_schema()'' l then (h, Inr (one_text ''current_schema'' (ec_schema_name ec) ''SELECT 1''))
         else if sublist ''current_schemas('' l then (h, Inr (one_text ''current_schemas'' ''{public}'' ''SELECT 1''))
         else case materialize_catalog gw h of
             (h1, Inl err) \<Rightarrow> (h1, Inl err)
           | (h1, Inr statements) \<Rightarrow>
               (case gw_catalog gw statements query of
                  Inl err \<Rightarrow> (h1, Inl (Host_Failed err))
                | Inr (description, rows) \<Rightarrow>
                    (h1, Inr \<lparr>qr_columns = map (\<lambda>(n, t). \<lparr>oc_name = n, oc_type_oid = infer_type_oid_from_duckdb t\<rparr>) description,
                       qr_rows = rows, qr_tag = select_tag rows\<rparr>)))"

section \<open>Queries for the runtime\<close>

text \<open>\<open>(?i)(?<![A-Za-z0-9_"])public\s*\.\<close>, removed when the query does not parse.\<close>

definition match_public :: "char option \<Rightarrow> string \<Rightarrow> (nat \<times> unit) option" where
  "match_public before s =
     (if (case before of None \<Rightarrow> True | Some c \<Rightarrow> \<not> ident_char c \<and> c \<noteq> double_quote)
         \<and> py_lower (take 6 s) = public_schema
      then let w = takeWhile py_isspace (drop 6 s)
        in if prefix ''.'' (drop (6 + length w) s) then Some (7 + length w, ()) else None
      else None)"

definition strip_public :: "string \<Rightarrow> string" where
  "strip_public query =
     (case scan_sub match_public (\<lambda>_. Inr [] :: (odbc_error, string) result) 0 None query of Inl e \<Rightarrow> query | Inr s \<Rightarrow> s)"

definition normalize_runtime_query :: "'h gateway \<Rightarrow> string \<Rightarrow> string" where
  "normalize_runtime_query gw query = (case gw_rewrite gw query of None \<Rightarrow> strip_public query | Some s \<Rightarrow> s)"

definition effective_limit :: "odbc_config \<Rightarrow> int option \<Rightarrow> int" where
  "effective_limit ec max_rows =
     (case max_rows of
        None \<Rightarrow> ec_max_rows ec
      | Some n \<Rightarrow> if n \<le> 0 then ec_max_rows ec else max 1 (min n (ec_max_rows ec)))"

definition row_value :: "string \<Rightarrow> nat \<Rightarrow> raw_row \<Rightarrow> wire_value option" where
  "row_value name index row =
     (case row of
        Row_Dict d \<Rightarrow> (case dict_get d name of None \<Rightarrow> None | Some W_None \<Rightarrow> None | Some v \<Rightarrow> Some v)
      | Row_List vs \<Rightarrow> (if index < length vs \<and> vs ! index \<noteq> W_None then Some (vs ! index) else None)
      | Row_Scalar v \<Rightarrow> None)"

definition first_value_of :: "string \<Rightarrow> nat \<Rightarrow> raw_row list \<Rightarrow> wire_value" where
  "first_value_of name index rows =
     (case find (\<lambda>r. row_value name index r \<noteq> None) rows of None \<Rightarrow> W_None | Some r \<Rightarrow> the (row_value name index r))"

definition normalize_columns :: "raw_column option list \<Rightarrow> raw_row list \<Rightarrow> odbc_column list" where
  "normalize_columns raw_columns rows =
     (let named = concat (map (\<lambda>(index, item). case item of
             None \<Rightarrow> []
           | Some rc \<Rightarrow>
               let name = py_strip (rc_name rc)
               in if name = [] then []
                  else [\<lparr>oc_name = name, oc_type_oid = (case rc_type rc of
                          Some t \<Rightarrow> infer_type_oid t
                        | None \<Rightarrow> infer_type_oid_from_value (first_value_of name index rows))\<rparr>])
           (enumerate 0 raw_columns))
      in if named \<noteq> [] then named
         else case rows of
             Row_Dict d # _ \<Rightarrow> map (\<lambda>(n, v). \<lparr>oc_name = n, oc_type_oid = infer_type_oid_from_value v\<rparr>) d
           | _ \<Rightarrow> [])"

text \<open>The names of the columns, or of the first dictionary when there are none.\<close>

fun normalize_rows :: "string list \<Rightarrow> raw_row list \<Rightarrow> wire_value list list" where
  "normalize_rows names [] = []"
| "normalize_rows names (Row_Dict d # rows) =
     (let ns = (if names = [] then dict_keys d else names)
      in map (\<lambda>n. case dict_get d n of None \<Rightarrow> W_None | Some v \<Rightarrow> v) ns # normalize_rows ns rows)"
| "normalize_rows names (Row_List vs # rows) = vs # normalize_rows names rows"
| "normalize_rows names (Row_Scalar v # rows) = [v] # normalize_rows names rows"

definition runtime_result :: "raw_column option list \<Rightarrow> raw_row list \<Rightarrow> odbc_result" where
  "runtime_result raw_columns raw_rows =
     (let columns = normalize_columns raw_columns raw_rows; rows = normalize_rows (map oc_name columns) raw_rows
      in \<lparr>qr_columns = columns, qr_rows = rows, qr_tag = select_tag rows\<rparr>)"

definition gateway_execute ::
  "'h gateway \<Rightarrow> string \<Rightarrow> wire_value list \<Rightarrow> int option \<Rightarrow> 'h \<Rightarrow> 'h \<times> (odbc_error, odbc_result) result" where
  "gateway_execute gw query parameters max_rows h =
     (let normalized = rstrip_semicolons (py_strip query)
      in if normalized = [] then (h, Inr (bare_result ''EMPTY''))
         else case render_query normalized parameters of
             Inl err \<Rightarrow> (h, Inl err)
           | Inr rendered \<Rightarrow>
               if is_session_command rendered then (h, Inr (execute_session_command (gw_config gw) rendered))
               else if is_metadata_query rendered then execute_metadata_query gw rendered h
               else case gw_run gw (normalize_runtime_query gw rendered) (effective_limit (gw_config gw) max_rows) h of
                   (h1, Inl err) \<Rightarrow> (h1, Inl (Host_Failed err))
                 | (h1, Inr (columns, rows)) \<Rightarrow> (h1, Inr (runtime_result columns rows)))"

end
