(* ===== verification/Odbc_Session.thy ===== *)
theory Odbc_Session
  imports Odbc_Gateway
begin

text \<open>
  A connection of the SQL endpoint (\<open>RuntimeOdbcEndpoint\<close> in \<open>runtime/hosting/odbc.py\<close>): the
  startup with its authentication and the loop over frontend messages. The input is every byte that the client
  sends until it closes; the output is the list of messages written. Of the process id and the
  random key in the key data the model takes the values drawn as arguments.
\<close>

section \<open>Statements, portals and output\<close>

record prepared =
  ps_query :: string
  ps_parameter_count :: nat

record portal =
  bp_statement :: string
  bp_parameters :: "wire_value list"
  bp_formats :: "nat list"

datatype sent = Out_Refuse_Ssl | Out_Message char "byte list"

definition written :: "sent \<Rightarrow> byte list" where
  "written x = (case x of Out_Refuse_Ssl \<Rightarrow> [of_nat (of_char CHR ''N'')] | Out_Message t payload \<Rightarrow> frame t payload)"

record 'h connection =
  cx_host :: 'h
  cx_out :: "sent list"
  cx_statements :: "(string, prepared) dict"
  cx_portals :: "(string, portal) dict"

definition emit :: "char \<Rightarrow> byte list \<Rightarrow> 'h connection \<Rightarrow> 'h connection" where
  "emit t payload cx = cx\<lparr>cx_out := cx_out cx @ [Out_Message t payload]\<rparr>"

definition write_ready :: "'h connection \<Rightarrow> 'h connection" where
  "write_ready cx = emit CHR ''Z'' [of_nat (of_char CHR ''I'')] cx"

datatype reply = Go_On | Close_Now | Failed odbc_error

section \<open>Running a query\<close>

fun emit_rows :: "wire_value list list \<Rightarrow> 'h connection \<Rightarrow> 'h connection \<times> odbc_error option" where
  "emit_rows [] cx = (cx, None)"
| "emit_rows (row # rows) cx =
     (case encode_data_row row of
        Inl err \<Rightarrow> (cx, Some err)
      | Inr body \<Rightarrow> emit_rows rows (emit CHR ''D'' body cx))"

definition answer_query :: "odbc_result \<Rightarrow> 'h connection \<Rightarrow> 'h connection \<times> odbc_error option" where
  "answer_query r cx =
     (if qr_columns r \<noteq> []
      then (case encode_row_description (qr_columns r) of
              Inl err \<Rightarrow> (cx, Some err)
            | Inr body \<Rightarrow>
                (case emit_rows (qr_rows r) (emit CHR ''T'' body cx) of
                   (cx', Some err) \<Rightarrow> (cx', Some err)
                 | (cx', None) \<Rightarrow> (emit CHR ''C'' (cstring (qr_tag r)) cx', None)))
      else if qr_rows r = [] \<and> qr_tag r = ''EMPTY'' then (emit CHR ''I'' [] cx, None)
      else (emit CHR ''C'' (cstring (qr_tag r)) cx, None))"

definition run_query ::
  "'h gateway \<Rightarrow> string \<Rightarrow> wire_value list \<Rightarrow> int option \<Rightarrow> 'h connection \<Rightarrow> 'h connection \<times> odbc_error option" where
  "run_query gw query parameters max_rows cx =
     (case gateway_execute gw query parameters max_rows (cx_host cx) of
        (h, Inl err) \<Rightarrow> (cx\<lparr>cx_host := h\<rparr>, Some err)
      | (h, Inr r) \<Rightarrow> answer_query r (cx\<lparr>cx_host := h\<rparr>))"

definition reply_of :: "'h connection \<times> odbc_error option \<Rightarrow> 'h connection \<times> reply" where
  "reply_of x = (case x of (cx, None) \<Rightarrow> (cx, Go_On) | (cx, Some err) \<Rightarrow> (cx, Failed err))"

section \<open>Frontend messages\<close>

definition read16 :: "byte list \<Rightarrow> int \<Rightarrow> (odbc_error, nat) result" where
  "read16 payload offset = unpack16 (py_slice payload offset (offset + 2))"

definition parse_statement :: "byte list \<Rightarrow> (odbc_error, string \<times> prepared) result" where
  "parse_statement payload =
     bindR (read_cstring payload 0) (\<lambda>(name, i).
     bindR (read_cstring payload i) (\<lambda>(query, j).
     bindR (read16 payload (int j)) (\<lambda>declared.
       Inr (name, \<lparr>ps_query = query, ps_parameter_count = max declared (count_query_parameters query)\<rparr>))))"

fun read_formats :: "nat \<Rightarrow> byte list \<Rightarrow> int \<Rightarrow> (odbc_error, nat list \<times> int) result" where
  "read_formats 0 payload offset = Inr ([], offset)"
| "read_formats (Suc n) payload offset =
     bindR (read16 payload offset) (\<lambda>f.
     bindR (read_formats n payload (offset + 2)) (\<lambda>(fs, end). Inr (f # fs, end)))"

definition format_for :: "nat list \<Rightarrow> nat \<Rightarrow> (odbc_error, nat) result" where
  "format_for formats index =
     (case formats of
        [] \<Rightarrow> Inr 0
      | [f] \<Rightarrow> Inr f
      | _ \<Rightarrow> if index < length formats then Inr (formats ! index) else Inl Index_Error)"

fun read_parameters ::
  "nat \<Rightarrow> nat \<Rightarrow> nat list \<Rightarrow> byte list \<Rightarrow> int \<Rightarrow> (odbc_error, wire_value list \<times> int) result" where
  "read_parameters 0 index formats payload offset = Inr ([], offset)"
| "read_parameters (Suc n) index formats payload offset =
     bindR (unpack_signed32 (py_slice payload offset (offset + 4))) (\<lambda>len.
     if len = -1
     then bindR (read_parameters n (Suc index) formats payload (offset + 4)) (\<lambda>(vs, end). Inr (W_None # vs, end))
     else bindR (format_for formats index) (\<lambda>f.
       if f \<noteq> 0 then Inl Binary_Parameters
       else bindR (decode (py_slice payload (offset + 4) (offset + 4 + len))) (\<lambda>s.
         bindR (read_parameters n (Suc index) formats payload (offset + 4 + len)) (\<lambda>(vs, end).
           Inr (W_Other s # vs, end)))))"

definition parse_bind :: "byte list \<Rightarrow> (odbc_error, string \<times> portal) result" where
  "parse_bind payload =
     bindR (read_cstring payload 0) (\<lambda>(name, i).
     bindR (read_cstring payload i) (\<lambda>(statement, j).
     bindR (read16 payload (int j)) (\<lambda>format_count.
     bindR (read_formats format_count payload (int j + 2)) (\<lambda>(formats, k).
     bindR (read16 payload k) (\<lambda>parameter_count.
     bindR (read_parameters parameter_count 0 formats payload (k + 2)) (\<lambda>(parameters, l).
     bindR (read16 payload l) (\<lambda>result_count.
     bindR (read_formats result_count payload (l + 2)) (\<lambda>(results, m).
       if list_ex (\<lambda>f. f \<noteq> 0) results then Inl Binary_Results
       else Inr (name, \<lparr>bp_statement = statement, bp_parameters = parameters,
         bp_formats = (if results = [] then [0] else results)\<rparr>)))))))))"

definition target_and_name :: "byte list \<Rightarrow> (odbc_error, char \<times> string) result" where
  "target_and_name payload =
     (case payload of
        [] \<Rightarrow> Inl Index_Error
      | b # _ \<Rightarrow> bindR (read_cstring payload 1) (\<lambda>(name, _). Inr (char_of (unat b), name)))"

definition describe :: "byte list \<Rightarrow> 'h connection \<Rightarrow> 'h connection \<times> reply" where
  "describe payload cx =
     (case target_and_name payload of
        Inl err \<Rightarrow> (cx, Failed err)
      | Inr (target, name) \<Rightarrow>
          if target = CHR ''S''
          then let count = (case dict_get (cx_statements cx) name of None \<Rightarrow> 0 | Some s \<Rightarrow> ps_parameter_count s)
            in (case pack16 count of
                  Inl err \<Rightarrow> (cx, Failed err)
                | Inr n \<Rightarrow> (emit CHR ''n'' [] (emit CHR ''t'' (n @ concat (replicate count (be32 0))) cx), Go_On))
          else if target = CHR ''P'' then (emit CHR ''n'' [] cx, Go_On)
          else (cx, Failed (Unsupported_Describe target)))"

definition parse_execute :: "byte list \<Rightarrow> (odbc_error, string \<times> nat) result" where
  "parse_execute payload =
     bindR (read_cstring payload 0) (\<lambda>(name, i).
     bindR (unpack32 (py_slice payload (int i) (int i + 4))) (\<lambda>max_rows. Inr (name, max_rows)))"

definition execute_portal :: "'h gateway \<Rightarrow> byte list \<Rightarrow> 'h connection \<Rightarrow> 'h connection \<times> reply" where
  "execute_portal gw payload cx =
     (case parse_execute payload of
        Inl err \<Rightarrow> (cx, Failed err)
      | Inr (name, max_rows) \<Rightarrow>
          (case dict_get (cx_portals cx) name of
             None \<Rightarrow> (cx, Failed (Unknown_Portal name))
           | Some p \<Rightarrow>
               (case dict_get (cx_statements cx) (bp_statement p) of
                  None \<Rightarrow> (cx, Failed (Unknown_Statement (bp_statement p)))
                | Some s \<Rightarrow> reply_of (run_query gw (ps_query s) (bp_parameters p) (Some (int max_rows)) cx))))"

definition close_target :: "byte list \<Rightarrow> 'h connection \<Rightarrow> 'h connection \<times> reply" where
  "close_target payload cx =
     (case target_and_name payload of
        Inl err \<Rightarrow> (cx, Failed err)
      | Inr (target, name) \<Rightarrow>
          if target = CHR ''S''
          then (emit CHR ''3'' [] (cx\<lparr>cx_statements := dict_pop (cx_statements cx) name\<rparr>), Go_On)
          else if target = CHR ''P''
          then (emit CHR ''3'' [] (cx\<lparr>cx_portals := dict_pop (cx_portals cx) name\<rparr>), Go_On)
          else (cx, Failed (Unsupported_Close target)))"

definition simple_query :: "'h gateway \<Rightarrow> byte list \<Rightarrow> 'h connection \<Rightarrow> 'h connection \<times> reply" where
  "simple_query gw payload cx =
     (case read_cstring payload 0 of
        Inl err \<Rightarrow> (cx, Failed err)
      | Inr (query, _) \<Rightarrow>
          (case run_query gw query [] None cx of
             (cx', Some err) \<Rightarrow> (cx', Failed err)
           | (cx', None) \<Rightarrow> (write_ready cx', Go_On)))"

definition handle_message :: "'h gateway \<Rightarrow> char \<Rightarrow> byte list \<Rightarrow> 'h connection \<Rightarrow> 'h connection \<times> reply" where
  "handle_message gw code payload cx =
     (if code = CHR ''X'' then (cx, Close_Now)
      else if code = CHR ''Q'' then simple_query gw payload cx
      else if code = CHR ''P'' then
        (case parse_statement payload of
           Inl err \<Rightarrow> (cx, Failed err)
         | Inr (name, s) \<Rightarrow> (emit CHR ''1'' [] (cx\<lparr>cx_statements := dict_set (cx_statements cx) name s\<rparr>), Go_On))
      else if code = CHR ''B'' then
        (case parse_bind payload of
           Inl err \<Rightarrow> (cx, Failed err)
         | Inr (name, p) \<Rightarrow> (emit CHR ''2'' [] (cx\<lparr>cx_portals := dict_set (cx_portals cx) name p\<rparr>), Go_On))
      else if code = CHR ''D'' then describe payload cx
      else if code = CHR ''E'' then execute_portal gw payload cx
      else if code = CHR ''S'' then (write_ready cx, Go_On)
      else if code = CHR ''H'' then (cx, Go_On)
      else if code = CHR ''C'' then close_target payload cx
      else (cx, Failed (Unsupported_Message code)))"

section \<open>Reading\<close>

text \<open>Reading a length and the bytes that it announces: the client may stop early, and a length below four
  asks for a negative number of bytes.\<close>

datatype 'a reading = Got 'a "byte list" | Ended | Refused odbc_error

definition read_packet :: "byte list \<Rightarrow> byte list reading" where
  "read_packet input =
     (case unpack32 (take 4 input) of
        Inl err \<Rightarrow> Ended
      | Inr n \<Rightarrow>
          if n < 4 then Refused Negative_Read
          else if length (drop 4 input) < n - 4 then Ended
          else Got (take (n - 4) (drop 4 input)) (drop n input))"

definition read_message :: "byte list \<Rightarrow> (char \<times> byte list) reading" where
  "read_message input =
     (case input of
        [] \<Rightarrow> Ended
      | t # bs \<Rightarrow>
          (case read_packet bs of
             Ended \<Rightarrow> Ended
           | Refused err \<Rightarrow> Refused err
           | Got payload rest \<Rightarrow>
               if unat t < 128 then Got (char_of (unat t), payload) rest else Refused Bad_Ascii))"

lemma read_packet_shrinks: "read_packet input = Got p rest \<Longrightarrow> length rest < length input"
  by (cases "input = []") (auto simp: read_packet_def unpack32_def [of "[]"] split: sum.splits if_splits)

lemma read_message_shrinks: "read_message input = Got p rest \<Longrightarrow> length rest < length input"
  using read_packet_shrinks by (fastforce simp: read_message_def split: list.splits reading.splits if_splits)

function serve :: "'h gateway \<Rightarrow> byte list \<Rightarrow> 'h connection \<Rightarrow> 'h connection \<times> odbc_error option" where
  "serve gw input cx =
     (case read_message input of
        Ended \<Rightarrow> (cx, None)
      | Refused err \<Rightarrow> (cx, Some err)
      | Got (code, payload) rest \<Rightarrow>
          (case handle_message gw code payload cx of
             (cx', Close_Now) \<Rightarrow> (cx', None)
           | (cx', Failed err) \<Rightarrow> (cx', Some err)
           | (cx', Go_On) \<Rightarrow> serve gw rest cx'))"
  by pat_completeness auto
termination
  by (relation "measure (\<lambda>(gw, input, cx). length input)") (auto dest: read_message_shrinks)

declare serve.simps [simp del]

section \<open>Startup\<close>

datatype auth_mode = Auth_None | Auth_Static_Token | Auth_Jwt

record 'r odbc_context =
  oc_workspace_id :: uuid
  oc_actor_id :: uuid
  oc_roles :: "'r list"

record 'r odbc_auth =
  oa_mode :: auth_mode
  oa_static_token :: "string option"
  oa_workspace_id :: "uuid option"
  oa_actor_id :: "uuid option"
  oa_roles :: "'r list"

record ('r, 'h) endpoint =
  ep_auth :: "'r odbc_auth"
  ep_host_context :: "'r odbc_context"
  ep_gateway :: "'r odbc_context \<Rightarrow> 'h gateway"
  ep_library_text :: "odbc_error \<Rightarrow> string"

text \<open>The endpoint starts in two of the modes.\<close>

definition endpoint_starts :: "('r, 'h) endpoint \<Rightarrow> bool" where
  "endpoint_starts ep = (oa_mode (ep_auth ep) \<in> {Auth_None, Auth_Static_Token})"

definition connection_context :: "('r, 'h) endpoint \<Rightarrow> 'r odbc_context" where
  "connection_context ep =
     (let au = ep_auth ep; hc = ep_host_context ep
      in \<lparr>oc_workspace_id = (case oa_workspace_id au of Some w \<Rightarrow> w | None \<Rightarrow> oc_workspace_id hc),
          oc_actor_id = (case oa_actor_id au of Some a \<Rightarrow> a | None \<Rightarrow> oc_actor_id hc),
          oc_roles = (if oa_roles au \<noteq> [] then oa_roles au else oc_roles hc)\<rparr>)"

function read_startup :: "byte list \<Rightarrow> 'h connection \<Rightarrow> 'h connection \<times> ((string, string) dict) reading" where
  "read_startup input cx =
     (case read_packet input of
        Ended \<Rightarrow> (cx, Ended)
      | Refused err \<Rightarrow> (cx, Refused err)
      | Got payload rest \<Rightarrow>
          (case unpack32 (take 4 payload) of
             Inl err \<Rightarrow> (cx, Refused err)
           | Inr code \<Rightarrow>
               if code = 80877103 then read_startup rest (cx\<lparr>cx_out := cx_out cx @ [Out_Refuse_Ssl]\<rparr>)
               else if code = 80877102 then (cx, Refused No_Cancellation)
               else if code \<noteq> 196608 then (cx, Refused Bad_Protocol)
               else (case parse_startup_parameters (drop 4 payload) of
                       Inl err \<Rightarrow> (cx, Refused err)
                     | Inr params \<Rightarrow> (cx, Got params rest))))"
  by pat_completeness auto
termination
  by (relation "measure (\<lambda>(input, cx). length input)") (auto dest: read_packet_shrinks)

declare read_startup.simps [simp del]

definition check_password :: "('r, 'h) endpoint \<Rightarrow> byte list \<Rightarrow> unit reading" where
  "check_password ep input =
     (if input \<noteq> [] \<and> 128 \<le> unat (hd input) then Refused Bad_Ascii
      else case read_message input of
        Ended \<Rightarrow> Ended
      | Refused err \<Rightarrow> Refused err
      | Got (code, payload) rest \<Rightarrow>
          if code \<noteq> CHR ''p'' then Refused Password_Required
          else (case read_cstring payload 0 of
                  Inl err \<Rightarrow> Refused err
                | Inr (password, _) \<Rightarrow>
                    if oa_static_token (ep_auth ep) \<noteq> Some password then Refused Invalid_Token else Got () rest))"

definition parameter_status :: "string \<times> string \<Rightarrow> 'h connection \<Rightarrow> 'h connection" where
  "parameter_status p cx = emit CHR ''S'' (cstring (fst p) @ cstring (snd p)) cx"

definition startup_settings :: "(string \<times> string) list" where
  "startup_settings = [(''client_encoding'', ''UTF8''), (''server_encoding'', ''UTF8''), (''server_version'', server_version),
     (''DateStyle'', ''ISO, MDY''), (''TimeZone'', ''UTC''), (''standard_conforming_strings'', ''on''),
     (''integer_datetimes'', ''on'')]"

definition greet :: "nat \<Rightarrow> nat \<Rightarrow> 'h connection \<Rightarrow> 'h connection" where
  "greet pid key cx =
     write_ready (emit CHR ''K'' (be32 (pid mod 2147483648) @ be32 (key mod 2147483648))
       (fold parameter_status startup_settings (emit CHR ''R'' (be32 0) cx)))"

definition authenticate_connection ::
  "('r, 'h) endpoint \<Rightarrow> byte list \<Rightarrow> 'h connection \<Rightarrow> 'h connection \<times> unit reading" where
  "authenticate_connection ep input cx =
     (if oa_mode (ep_auth ep) = Auth_Static_Token
      then (emit CHR ''R'' (be32 3) cx, check_password ep input) else (cx, Got () input))"

definition startup ::
  "('r, 'h) endpoint \<Rightarrow> nat \<Rightarrow> nat \<Rightarrow> byte list \<Rightarrow> 'h connection \<Rightarrow> 'h connection \<times> unit reading" where
  "startup ep pid key input cx =
     (case read_startup input cx of
        (cx1, Ended) \<Rightarrow> (cx1, Ended)
      | (cx1, Refused err) \<Rightarrow> (cx1, Refused err)
      | (cx1, Got params rest) \<Rightarrow>
          (case authenticate_connection ep rest cx1 of
             (cx2, Got u rest') \<Rightarrow> (greet pid key cx2, Got u rest')
           | failed \<Rightarrow> failed))"

section \<open>Connections\<close>

definition error_text :: "(odbc_error \<Rightarrow> string) \<Rightarrow> odbc_error \<Rightarrow> string" where
  "error_text lib err =
     (case err of
        Missing_Placeholder n \<Rightarrow> ''Missing SQL parameter '' @ dollar # py_str_int (int n) @ ''.''
      | Binary_Parameters \<Rightarrow> ''Binary bind parameters are not supported by the runtime ODBC endpoint.''
      | Binary_Results \<Rightarrow> ''Binary result formats are not supported by the runtime ODBC endpoint.''
      | Unsupported_Describe c \<Rightarrow> ''Unsupported describe target '' @ [quote, c, quote] @ ''.''
      | Unsupported_Close c \<Rightarrow> ''Unsupported close target '' @ [quote, c, quote] @ ''.''
      | Unsupported_Message c \<Rightarrow> ''Unsupported frontend message '' @ [quote, c, quote] @ ''.''
      | Unknown_Portal p \<Rightarrow> ''Unknown portal '' @ [quote] @ p @ [quote] @ ''.''
      | Unknown_Statement s \<Rightarrow> ''Unknown statement '' @ [quote] @ s @ [quote] @ ''.''
      | No_Cancellation \<Rightarrow> ''Cancellation requests are not supported.''
      | Bad_Protocol \<Rightarrow> ''Unsupported PostgreSQL protocol version.''
      | Password_Required \<Rightarrow> ''Password authentication is required.''
      | Invalid_Token \<Rightarrow> ''Invalid runtime token.''
      | Host_Failed s \<Rightarrow> s
      | _ \<Rightarrow> lib err)"

definition tagged :: "char \<Rightarrow> string \<Rightarrow> byte list" where
  "tagged c s = of_nat (of_char c) # cstring s"

definition write_error :: "(odbc_error \<Rightarrow> string) \<Rightarrow> odbc_error \<Rightarrow> 'h connection \<Rightarrow> 'h connection" where
  "write_error lib err cx =
     write_ready (emit CHR ''E'' (tagged CHR ''S'' ''ERROR'' @ tagged CHR ''V'' ''ERROR'' @ tagged CHR ''C'' ''XX000''
       @ tagged CHR ''M'' (error_text lib err) @ [0]) cx)"

definition new_connection :: "'h \<Rightarrow> 'h connection" where
  "new_connection h = \<lparr>cx_host = h, cx_out = [], cx_statements = [], cx_portals = []\<rparr>"

definition handle_client :: "('r, 'h) endpoint \<Rightarrow> nat \<Rightarrow> nat \<Rightarrow> byte list \<Rightarrow> 'h \<Rightarrow> 'h connection" where
  "handle_client ep pid key input h =
     (case startup ep pid key input (new_connection h) of
        (cx, Ended) \<Rightarrow> cx
      | (cx, Refused err) \<Rightarrow> write_error (ep_library_text ep) err cx
      | (cx, Got u rest) \<Rightarrow>
          (case serve (ep_gateway ep (connection_context ep)) rest cx of
             (cx', None) \<Rightarrow> cx'
           | (cx', Some err) \<Rightarrow> write_error (ep_library_text ep) err cx'))"

end
