(* ===== verification/Odbc_Protocol.thy ===== *)
theory Odbc_Protocol
  imports Odbc_Session
begin

text \<open>
  What the SQL endpoint of theory \<open>Odbc_Session\<close> guarantees: messages, rows and bound
  parameters survive their encoding, nothing runs before the token has been presented, the limit
  on rows holds on every path, and the extended protocol answers as the simple one does.
\<close>

section \<open>Reading what was written\<close>

lemma unat_of_nat_byte: "n < 256 \<Longrightarrow> unat (of_nat n :: byte) = n"
  by (rule unat_byte)

lemma unpack16_be16: "n < 65536 \<Longrightarrow> unpack16 (be16 n) = Inr n"
  by (simp add: unpack16_def be16_def unat_of_nat_byte del: of_nat_mod)

lemma unpack32_be32: "n < 4294967296 \<Longrightarrow> unpack32 (be32 n) = Inr n"
proof -
  assume n: "n < 4294967296"
  have parts: "n div 65536 div 256 < 256" "n div 65536 mod 256 < 256" "n mod 65536 div 256 < 256" "n mod 65536 mod 256 < 256"
    using n by simp_all
  have "n div 65536 div 256 * 16777216 + n div 65536 mod 256 * 65536 + n mod 65536 div 256 * 256 + n mod 65536 mod 256 = n"
  proof -
    have "n div 65536 div 256 * 256 + n div 65536 mod 256 = n div 65536" "n mod 65536 div 256 * 256 + n mod 65536 mod 256 = n mod 65536"
      "n div 65536 * 65536 + n mod 65536 = n" by (rule div_mult_mod_eq)+
    then show ?thesis by linarith
  qed
  then show ?thesis
    using parts by (simp only: unpack32_def be32_def be16_def append.simps list.case unat_of_nat_byte)
qed

lemma length_be [simp]: "length (be16 n) = 2" "length (be32 n) = 4"
  by (simp_all add: be16_def be32_def)

lemma byte_of_unat: "(of_nat (unat b) :: byte) = b"
  by (metis of_nat_unat ucast_id)

lemma be32_unpack32:
  assumes "unpack32 bs = Inr n"
  shows "bs = be32 n" "n < 4294967296"
proof -
  obtain a b c d where bs: "bs = [a, b, c, d]" and n: "n = unat a * 16777216 + unat b * 65536 + unat c * 256 + unat d"
    using assms by (auto simp: unpack32_def split: list.splits)
  have u: "unat a < 256" "unat b < 256" "unat c < 256" "unat d < 256" using byte_bounds(1) by blast+
  then show "n < 4294967296" unfolding n by linarith
  have low: "unat c * 256 + unat d < 65536" using u by linarith
  have split: "n = (unat c * 256 + unat d) + 65536 * (unat a * 256 + unat b)" unfolding n by simp
  have "n div 65536 = unat a * 256 + unat b" "n mod 65536 = unat c * 256 + unat d"
    unfolding split using low by (simp_all only: div_mult_self2 mod_mult_self2 div_less mod_less)
  then have "n div 65536 div 256 = unat a" "n div 65536 mod 256 = unat b" "n mod 65536 div 256 = unat c"
    "n mod 65536 mod 256 = unat d" using u by simp_all
  then show "bs = be32 n" by (simp only: bs be32_def be16_def byte_of_unat append.simps)
qed

lemma read_packet_frame:
  assumes "length p + 4 < 4294967296"
  shows "read_packet (be32 (length p + 4) @ p @ rest) = Got p rest"
proof -
  have "take 4 (be32 (length p + 4) @ p @ rest) = be32 (length p + 4)" "drop 4 (be32 (length p + 4) @ p @ rest) = p @ rest"
    "drop (length p + 4) (be32 (length p + 4) @ p @ rest) = rest" by simp_all
  then show ?thesis unfolding read_packet_def by (simp only: unpack32_be32 [OF assms]) simp
qed

lemma read_message_frame:
  assumes "(of_char c :: nat) < 128" "length p + 4 < 4294967296"
  shows "read_message (frame c p @ rest) = Got (c, p) rest"
  using assms(1) by (simp add: read_message_def frame_def read_packet_frame [OF assms(2)] unat_of_nat_byte)

lemma packet_read:
  assumes "read_packet input = Got p rest"
  shows "input = be32 (length p + 4) @ p @ rest"
proof -
  obtain n where n: "unpack32 (take 4 input) = Inr n" "4 \<le> n" "n - 4 \<le> length (drop 4 input)"
      "p = take (n - 4) (drop 4 input)" "rest = drop n input"
    using assms by (auto simp: read_packet_def split: sum.splits if_splits)
  have "length p + 4 = n" using n by simp
  moreover have "drop n input = drop (n - 4) (drop 4 input)" using n(2) by simp
  ultimately show ?thesis
    using be32_unpack32(1) [OF n(1)] n(4,5) by (metis append_take_drop_id)
qed

lemma message_read:
  assumes "read_message input = Got (c, p) rest"
  shows "input = frame c p @ rest"
proof -
  obtain t bs where "input = t # bs" "read_packet bs = Got p rest" "unat t < 128" "c = char_of (unat t)"
    using assms by (auto simp: read_message_def split: list.splits reading.splits if_splits)
  then show ?thesis using packet_read by (simp add: frame_def byte_of_unat)
qed

section \<open>Texts\<close>

lemma utf8_small: "(of_char c :: nat) < 128 \<Longrightarrow> utf8_char c = [of_nat (of_char c)]"
  by (simp add: utf8_char_def)

lemma utf8_decode_utf8: "utf8_decode (utf8 s @ bs) = map_option ((@) s) (utf8_decode bs)"
proof (induction s)
  case Nil
  show ?case by (simp add: utf8_def option.map_ident)
next
  case (Cons c s)
  have step: "utf8_decode (utf8_char c @ rest) = map_option ((#) c) (utf8_decode rest)" for rest
  proof (cases "(of_char c :: nat) < 128")
    case True
    then show ?thesis by (cases rest) (simp_all add: utf8_small unat_of_nat_byte)
  next
    case False
    have b: "(of_char c :: nat) < 256" by simp
    have "192 + of_char c div 64 < (256 :: nat)" "128 + of_char c mod 64 < (256 :: nat)" using b by linarith+
    then obtain x y :: byte where u: "utf8_char c = [x, y]" "unat x = 192 + of_char c div 64" "unat y = 128 + of_char c mod 64"
      using False utf8_units [of c] by (cases "utf8_char c"; cases "tl (utf8_char c)") (auto simp del: of_char_eq_iff)
    have "2 \<le> (of_char c :: nat) div 64" "(of_char c :: nat) div 64 < 4" using False b by linarith+
    moreover have "(of_char c :: nat) div 64 * 64 + of_char c mod 64 = of_char c" by (rule div_mult_mod_eq)
    ultimately show ?thesis using u by (simp del: div_mult_mod_eq)
  qed
  have "utf8 (c # s) @ bs = utf8_char c @ (utf8 s @ bs)" by (simp add: utf8_def)
  then show ?case by (simp only: step Cons.IH) (simp add: option.map_comp comp_def)
qed

lemma utf8_decode_own [simp]: "utf8_decode (utf8 s) = Some s"
  using utf8_decode_utf8 [of s "[]"] by simp

lemma utf8_of_decoded: "utf8_decode bs = Some s \<Longrightarrow> utf8 s = bs"
proof (induction bs arbitrary: s rule: utf8_decode.induct)
  case (2 b)
  then show ?case by (auto simp: utf8_def utf8_char_def byte_of_unat split: if_splits)
next
  case (3 b c bs)
  show ?case
  proof (cases "unat b < 128")
    case True
    with 3(1,3) show ?thesis by (auto simp: utf8_def utf8_char_def byte_of_unat)
  next
    case False
    with 3(3) have r: "194 \<le> unat b" "unat b \<le> 195" "128 \<le> unat c" "unat c < 192"
      and "\<exists>t. utf8_decode bs = Some t \<and> s = char_of ((unat b - 192) * 64 + (unat c - 128)) # t" by (auto split: if_splits)
    then obtain t where t: "utf8_decode bs = Some t" "s = char_of ((unat b - 192) * 64 + (unat c - 128)) # t" by blast
    define n where "n = (unat b - 192) * 64 + (unat c - 128)"
    have n: "n < 256" "\<not> n < 128" "192 + n div 64 = unat b" "128 + n mod 64 = unat c"
    proof -
      define k where "k = unat c - 128"
      have k: "unat c = 128 + k" "k < 64" using r(3,4) by (simp_all add: k_def)
      have "n = k + 64 * (unat b - 192)" by (simp add: n_def k(1))
      then have "n div 64 = unat b - 192" "n mod 64 = k" using k(2) by simp_all
      moreover have "n < 256" "\<not> n < 128" using r(1,2) k by (auto simp: n_def)
      ultimately show "n < 256" "\<not> n < 128" "192 + n div 64 = unat b" "128 + n mod 64 = unat c" using r(1) k(1) by simp_all
    qed
    have "utf8_char (char_of n) = [b, c]"
      using n by (simp add: utf8_char_def byte_of_unat del: of_nat_add of_nat_numeral)
    then show ?thesis using 3(2) [OF False _ t(1)] r t n_def by (simp add: utf8_def)
  qed
qed (auto simp: utf8_def)

lemma utf8_no_zero: "CHR 0x00 \<notin> set s \<Longrightarrow> (0 :: byte) \<notin> set (utf8 s)"
proof (induction s)
  case (Cons c s)
  have "(0 :: byte) \<notin> set (utf8_char c)"
  proof
    assume "(0 :: byte) \<in> set (utf8_char c)"
    then have "unat (0 :: byte) \<in> set (map unat (utf8_char c))" by (simp only: list.set_map imageI)
    then have "(of_char c :: nat) = 0" unfolding utf8_units by (auto split: if_splits)
    then have "c = char_of (0 :: nat)" by (metis char_of_char)
    then have "c = CHR 0x00" by (simp add: char_of_def)
    with Cons.prems show False by simp
  qed
  with Cons show ?case by (simp add: utf8_def)
qed (simp add: utf8_def)

lemma read_cstring_own:
  assumes "CHR 0x00 \<notin> set s"
  shows "read_cstring (pre @ cstring s @ rest) (length pre) = Inr (s, length pre + length (cstring s))"
proof -
  have "takeWhile (\<lambda>b. b \<noteq> 0) (utf8 s @ 0 # rest) = utf8 s"
    using utf8_no_zero [OF assms] by (subst takeWhile_append2) auto
  then show ?thesis by (simp add: read_cstring_def cstring_def decode_def)
qed

lemma cstring_read:
  assumes "read_cstring p 0 = Inr (s, j)"
  shows "p = cstring s @ drop j p"
proof -
  let ?w = "takeWhile (\<lambda>b. b \<noteq> 0) p"
  have l: "length ?w < length p" and s: "utf8_decode ?w = Some s" and j: "j = Suc (length ?w)"
    using assms by (auto simp: read_cstring_def decode_def bindR_eq_Inr Let_def split: if_splits option.splits)
  from l have z: "p ! length ?w = 0" using nth_length_takeWhile [of "\<lambda>b. b \<noteq> 0" p] by simp
  have "p = ?w @ p ! length ?w # drop j p"
    using l j id_take_nth_drop [OF l] by (metis takeWhile_eq_take)
  then show ?thesis using utf8_of_decoded [OF s] z by (simp add: cstring_def)
qed

section \<open>Rows\<close>

text \<open>What a client reads from a data row: a count, then lengths and texts, with minus one for NULL.\<close>

fun client_values :: "nat \<Rightarrow> byte list \<Rightarrow> string option list option" where
  "client_values 0 bs = (if bs = [] then Some [] else None)"
| "client_values (Suc n) bs =
     (case unpack_signed32 (take 4 bs) of
        Inl e \<Rightarrow> None
      | Inr len \<Rightarrow>
          if len = -1 then map_option ((#) None) (client_values n (drop 4 bs))
          else Option.bind (utf8_decode (take (nat len) (drop 4 bs))) (\<lambda>s.
            map_option ((#) (Some s)) (client_values n (drop (4 + nat len) bs))))"

definition client_row :: "byte list \<Rightarrow> string option list option" where
  "client_row bs = (case unpack16 (take 2 bs) of Inl e \<Rightarrow> None | Inr n \<Rightarrow> client_values n (drop 2 bs))"

definition shown :: "wire_value \<Rightarrow> string option" where
  "shown v = (if v = W_None then None else Some (wire_text v))"

lemma signed_length: "n < 2147483648 \<Longrightarrow> unpack_signed32 (be32 n) = Inr (int n)"
  by (simp add: unpack_signed32_def unpack32_be32)

lemma signed_null: "unpack_signed32 (be32 4294967295) = Inr (- 1)"
  by (simp add: unpack_signed32_def unpack32_be32)

lemma client_values_encoded:
  "\<lbrakk>encode_values vs = Inr body; \<forall>v \<in> set vs. length (utf8 (wire_text v)) < 2147483648\<rbrakk> \<Longrightarrow>
     client_values (length vs) body = Some (map shown vs)"
proof (induction vs arbitrary: body)
  case (Cons v vs)
  obtain rest where rest: "encode_values vs = Inr rest"
    and body: "body = (if v = W_None then be32 4294967295
      else be32 (length (utf8 (wire_text v))) @ utf8 (wire_text v)) @ rest"
    using Cons.prems by (auto simp: bindR_eq_Inr pack32_def Let_def split: if_splits)
  note ih = Cons.IH [OF rest]
  show ?case
  proof (cases "v = W_None")
    case True
    then show ?thesis using ih Cons.prems(2) by (simp add: body signed_null shown_def)
  next
    case False
    let ?e = "utf8 (wire_text v)"
    have "body = be32 (length ?e) @ ?e @ rest" using False by (simp add: body)
    then have "take 4 body = be32 (length ?e)" "take (length ?e) (drop 4 body) = ?e" "drop (4 + length ?e) body = rest"
      by simp_all
    then show ?thesis using ih Cons.prems(2) False by (simp add: signed_length shown_def)
  qed
qed simp

text \<open>C32: A client reads from every encoded row the text of each value, and NULL exactly for missing ones.\<close>

theorem rows_arrive_intact:
  assumes "encode_data_row vs = Inr body" "\<forall>v \<in> set vs. length (utf8 (wire_text v)) < 2147483648"
  shows "client_row body = Some (map shown vs)"
proof -
  obtain rest where "length vs < 65536" "body = be16 (length vs) @ rest" "encode_values vs = Inr rest"
    using assms(1) by (auto simp: encode_data_row_def pack16_def bindR_eq_Inr split: if_splits)
  then show ?thesis using client_values_encoded [OF _ assms(2)] by (simp add: client_row_def unpack16_be16)
qed

theorem rows_arrive_intact_witness:
  "\<exists>body. encode_data_row [W_None, W_Bool True] = Inr body \<and> client_row body = Some [None, Some ''t'']"
proof -
  obtain body where b: "encode_data_row [W_None, W_Bool True] = Inr body"
    by (simp add: encode_data_row_def pack16_def pack32_def utf8_def utf8_char_def)
  have "client_row body = Some (map shown [W_None, W_Bool True])"
    by (rule rows_arrive_intact [OF b]) (simp add: utf8_def utf8_char_def)
  then show ?thesis using b by (simp add: shown_def)
qed

section \<open>Bound parameters\<close>

text \<open>The bind message of a client that sends texts, by the protocol's description.\<close>

fun bound_values :: "string option list \<Rightarrow> byte list" where
  "bound_values [] = []"
| "bound_values (None # vs) = be32 4294967295 @ bound_values vs"
| "bound_values (Some s # vs) = be32 (length (utf8 s)) @ utf8 s @ bound_values vs"

definition bind_message :: "string \<Rightarrow> string \<Rightarrow> string option list \<Rightarrow> byte list" where
  "bind_message name statement vs =
     cstring name @ cstring statement @ be16 0 @ be16 (length vs) @ bound_values vs @ be16 0"

definition wired :: "string option \<Rightarrow> wire_value" where
  "wired v = (case v of None \<Rightarrow> W_None | Some s \<Rightarrow> W_Other s)"

lemma slice_at: "py_slice (pre @ mid @ post) (int (length pre)) (int (length pre) + int (length mid)) = mid"
  by (simp add: py_slice_def py_index_def nat_add_distrib Let_def)

lemma slice_here: "i = int (length pre) \<Longrightarrow> j = i + int (length mid) \<Longrightarrow> py_slice (pre @ mid @ post) i j = mid"
  using slice_at by simp

lemma read_parameters_bound:
  "\<forall>s. Some s \<in> set vs \<longrightarrow> length (utf8 s) < 2147483648 \<Longrightarrow>
     read_parameters (length vs) index [] (pre @ bound_values vs @ post) (int (length pre))
       = Inr (map wired vs, int (length pre) + int (length (bound_values vs)))"
proof (induction vs arbitrary: index pre)
  case (Cons v vs)
  show ?case
  proof (cases v)
    case None
    let ?b = "be32 4294967295"
    have "py_slice (pre @ ?b @ bound_values vs @ post) (int (length pre)) (int (length pre) + 4) = ?b"
      by (rule slice_here) simp_all
    moreover have "read_parameters (length vs) (Suc index) [] ((pre @ ?b) @ bound_values vs @ post) (int (length (pre @ ?b)))
        = Inr (map wired vs, int (length (pre @ ?b)) + int (length (bound_values vs)))"
      by (rule Cons.IH) (use Cons.prems in auto)
    ultimately show ?thesis by (simp add: None signed_null wired_def add.assoc)
  next
    case (Some s)
    let ?b = "be32 (length (utf8 s))" and ?u = "utf8 s"
    have "py_slice (pre @ ?b @ ?u @ bound_values vs @ post) (int (length pre)) (int (length pre) + 4) = ?b"
      by (rule slice_here) simp_all
    moreover have "py_slice ((pre @ ?b) @ ?u @ bound_values vs @ post) (int (length pre) + 4)
        (int (length pre) + 4 + int (length ?u)) = ?u"
      by (rule slice_here) simp_all
    moreover have "read_parameters (length vs) (Suc index) [] ((pre @ ?b @ ?u) @ bound_values vs @ post) (int (length (pre @ ?b @ ?u)))
        = Inr (map wired vs, int (length (pre @ ?b @ ?u)) + int (length (bound_values vs)))"
      by (rule Cons.IH) (use Cons.prems in auto)
    moreover have "length ?u < 2147483648" using Cons.prems Some by simp
    ultimately show ?thesis
      by (simp add: Some signed_length wired_def decode_def format_for_def add.assoc)
  qed
qed simp

lemma read16_at: "n < 65536 \<Longrightarrow> i = int (length pre) \<Longrightarrow> read16 (pre @ be16 n @ post) i = Inr n"
  by (simp add: read16_def unpack16_be16 slice_here)

lemma parse_bind_message:
  assumes "CHR 0x00 \<notin> set name" "CHR 0x00 \<notin> set statement" "length vs < 65536"
    and "\<forall>s. Some s \<in> set vs \<longrightarrow> length (utf8 s) < 2147483648"
  shows "parse_bind (bind_message name statement vs) =
    Inr (name, \<lparr>bp_statement = statement, bp_parameters = map wired vs, bp_formats = [0]\<rparr>)"
proof -
  let ?a = "cstring name" and ?b = "cstring statement" and ?v = "bound_values vs"
  let ?n = "length ?a + length ?b"
  note unfold = bind_message_def
  have "read_cstring (bind_message name statement vs) 0 = Inr (name, length ?a)"
    using read_cstring_own [OF assms(1), of "[]"] by (simp add: unfold)
  moreover have "read_cstring (bind_message name statement vs) (length ?a) = Inr (statement, ?n)"
    using read_cstring_own [OF assms(2), of ?a] by (simp add: unfold)
  moreover have "read16 ((?a @ ?b) @ be16 0 @ be16 (length vs) @ ?v @ be16 0) (int ?n) = Inr 0"
    by (rule read16_at) simp_all
  moreover have "read16 ((?a @ ?b @ be16 0) @ be16 (length vs) @ ?v @ be16 0) (int ?n + 2) = Inr (length vs)"
    using assms(3) by (intro read16_at) simp_all
  moreover have "read_parameters (length vs) 0 [] ((?a @ ?b @ be16 0 @ be16 (length vs)) @ ?v @ be16 0)
      (int (length (?a @ ?b @ be16 0 @ be16 (length vs)))) = Inr (map wired vs, int (length (?a @ ?b @ be16 0 @ be16 (length vs))) + int (length ?v))"
    by (rule read_parameters_bound [OF assms(4)])
  moreover have "read16 ((?a @ ?b @ be16 0 @ be16 (length vs) @ ?v) @ be16 0 @ []) (int ?n + 4 + int (length ?v)) = Inr 0"
    by (rule read16_at) simp_all
  ultimately show ?thesis by (simp add: parse_bind_def unfold add.assoc)
qed

text \<open>C33: A bind message carries its portal's name, its statement's name and the texts and NULLs of its
  parameters unchanged.\<close>

theorem bound_parameters_arrive:
  assumes "CHR 0x00 \<notin> set name" "CHR 0x00 \<notin> set statement" "length vs < 65536"
    and "\<forall>s. Some s \<in> set vs \<longrightarrow> length (utf8 s) < 2147483648"
  shows "handle_message gw CHR ''B'' (bind_message name statement vs) cx =
    (emit CHR ''2'' [] (cx\<lparr>cx_portals := dict_set (cx_portals cx) name
       \<lparr>bp_statement = statement, bp_parameters = map wired vs, bp_formats = [0]\<rparr>\<rparr>), Go_On)"
  by (simp add: handle_message_def parse_bind_message [OF assms])

theorem bound_parameters_arrive_witness:
  "\<forall>gw (cx :: unit connection). handle_message gw CHR ''B'' (bind_message [] ''s'' [None, Some ''x'']) cx =
    (emit CHR ''2'' [] (cx\<lparr>cx_portals := dict_set (cx_portals cx) []
       \<lparr>bp_statement = ''s'', bp_parameters = [W_None, W_Other ''x''], bp_formats = [0]\<rparr>\<rparr>), Go_On)"
  by (intro allI, subst bound_parameters_arrive) (auto simp: wired_def utf8_def utf8_char_def)

section \<open>The extended protocol\<close>

text \<open>Preparing, binding, executing and synchronising a query without parameters.\<close>

definition extended_query :: "string \<Rightarrow> string \<Rightarrow> string \<Rightarrow> byte list" where
  "extended_query name statement query =
     frame CHR ''P'' (cstring statement @ cstring query @ be16 0) @ frame CHR ''B'' (bind_message name statement [])
       @ frame CHR ''E'' (cstring name @ be32 0) @ frame CHR ''S'' []"

lemma extended_reads:
  assumes "CHR 0x00 \<notin> set statement" "CHR 0x00 \<notin> set query" "CHR 0x00 \<notin> set name"
  shows "parse_statement (cstring statement @ cstring query @ be16 0)
      = Inr (statement, \<lparr>ps_query = query, ps_parameter_count = count_query_parameters query\<rparr>)"
    "parse_execute (cstring name @ be32 0) = Inr (name, 0)"
    "read_cstring (cstring query) 0 = Inr (query, length (cstring query))"
proof -
  have "read_cstring (cstring statement @ cstring query @ be16 0) 0 = Inr (statement, length (cstring statement))"
    using read_cstring_own [OF assms(1), of "[]"] by simp
  moreover have "read_cstring (cstring statement @ cstring query @ be16 0) (length (cstring statement))
      = Inr (query, length (cstring statement) + length (cstring query))"
    using read_cstring_own [OF assms(2), of "cstring statement"] by simp
  moreover have "read16 ((cstring statement @ cstring query) @ be16 0 @ []) (int (length (cstring statement) + length (cstring query)))
      = Inr 0" by (rule read16_at) simp_all
  ultimately show "parse_statement (cstring statement @ cstring query @ be16 0)
      = Inr (statement, \<lparr>ps_query = query, ps_parameter_count = count_query_parameters query\<rparr>)"
    by (simp add: parse_statement_def)
  have "read_cstring (cstring name @ be32 0) 0 = Inr (name, length (cstring name))"
    using read_cstring_own [OF assms(3), of "[]"] by simp
  moreover have "py_slice (cstring name @ be32 0 @ []) (int (length (cstring name))) (int (length (cstring name)) + 4) = be32 0"
    by (rule slice_here) simp_all
  ultimately show "parse_execute (cstring name @ be32 0) = Inr (name, 0)"
    by (simp add: parse_execute_def unpack32_be32)
  show "read_cstring (cstring query) 0 = Inr (query, length (cstring query))"
    using read_cstring_own [OF assms(2), of "[]" "[]"] by simp
qed

text \<open>Answering appends to the output and leaves statements and portals alone.\<close>

definition shifted :: "sent list \<Rightarrow> (string, prepared) dict \<Rightarrow> (string, portal) dict \<Rightarrow> 'h connection \<Rightarrow> 'h connection" where
  "shifted out ss ps cx = cx\<lparr>cx_out := out @ cx_out cx, cx_statements := ss, cx_portals := ps\<rparr>"

lemma shifted_emit: "emit t p (shifted out ss ps cx) = shifted out ss ps (emit t p cx)"
  by (simp add: emit_def shifted_def)

lemma shifted_rows: "emit_rows rows (shifted out ss ps cx) = map_prod (shifted out ss ps) id (emit_rows rows cx)"
  by (induction rows arbitrary: cx) (simp_all add: shifted_emit split: sum.split)

lemma shifted_answer: "answer_query r (shifted out ss ps cx) = map_prod (shifted out ss ps) id (answer_query r cx)"
  by (simp add: answer_query_def shifted_emit shifted_rows split: sum.split prod.split option.split)

lemma shifted_host: "(shifted out ss ps cx)\<lparr>cx_host := h\<rparr> = shifted out ss ps (cx\<lparr>cx_host := h\<rparr>)"
  by (simp add: shifted_def)

lemma shifted_run:
  "run_query gw q vs m (shifted out ss ps cx) = map_prod (shifted out ss ps) id (run_query gw q vs m cx)"
proof -
  have "cx_host (shifted out ss ps cx) = cx_host cx" by (simp add: shifted_def)
  then show ?thesis by (simp add: run_query_def shifted_host shifted_answer split: sum.split prod.split)
qed

lemma zero_limit: "gateway_execute gw q vs (Some 0) h = gateway_execute gw q vs None h"
proof -
  have "effective_limit ec (Some 0) = effective_limit ec None" for ec by (simp add: effective_limit_def)
  note limit = this
  show ?thesis unfolding gateway_execute_def limit ..
qed

lemma run_zero_limit: "run_query gw q vs (Some 0) cx = run_query gw q vs None cx"
  by (simp add: run_query_def zero_limit)

text \<open>One step of the loop.\<close>

lemma serve_frame:
  assumes "(of_char c :: nat) < 128" "length p + 4 < 4294967296"
  shows "serve gw (frame c p @ rest) cx =
    (case handle_message gw c p cx of
       (cx', Close_Now) \<Rightarrow> (cx', None) | (cx', Failed err) \<Rightarrow> (cx', Some err) | (cx', Go_On) \<Rightarrow> serve gw rest cx')"
  by (subst serve.simps) (simp add: read_message_frame [OF assms] split: prod.split reply.split)

lemma serve_end: "serve gw [] cx = (cx, None)"
  by (subst serve.simps) (simp add: read_message_def)

lemma codes_small: "(of_char CHR ''P'' :: nat) < 128" "(of_char CHR ''B'' :: nat) < 128" "(of_char CHR ''E'' :: nat) < 128"
  "(of_char CHR ''S'' :: nat) < 128" "(of_char CHR ''Q'' :: nat) < 128"
  by simp_all

lemma serve_extended:
  assumes "CHR 0x00 \<notin> set statement" "CHR 0x00 \<notin> set query" "CHR 0x00 \<notin> set name"
    and "length (cstring statement) + length (cstring query) + length (cstring name) < 4294960000"
  shows "serve gw (extended_query name statement query) cx =
    (case run_query gw query [] None
        (emit CHR ''2'' [] (emit CHR ''1'' [] (cx\<lparr>cx_statements := dict_set (cx_statements cx) statement
             \<lparr>ps_query = query, ps_parameter_count = count_query_parameters query\<rparr>,
           cx_portals := dict_set (cx_portals cx) name \<lparr>bp_statement = statement, bp_parameters = [], bp_formats = [0]\<rparr>\<rparr>))) of
       (cx', None) \<Rightarrow> (write_ready cx', None) | (cx', Some err) \<Rightarrow> (cx', Some err))"
proof -
  have bind: "parse_bind (bind_message name statement []) = Inr (name, \<lparr>bp_statement = statement, bp_parameters = [], bp_formats = [0]\<rparr>)"
    using parse_bind_message [OF assms(3,1), of "[]"] by simp
  have l: "length (cstring statement @ cstring query @ be16 0) + 4 < 4294967296" "length (bind_message name statement []) + 4 < 4294967296"
    "length (cstring name @ be32 0) + 4 < 4294967296" "length ([] :: byte list) + 4 < 4294967296"
    using assms(4) by (simp_all add: bind_message_def)
  note parts = extended_reads [OF assms(1-3)]
  let ?s = "\<lparr>ps_query = query, ps_parameter_count = count_query_parameters query\<rparr>"
  let ?p = "\<lparr>bp_statement = statement, bp_parameters = [], bp_formats = [0]\<rparr>"
  let ?cx1 = "emit CHR ''1'' [] (cx\<lparr>cx_statements := dict_set (cx_statements cx) statement ?s\<rparr>)"
  let ?cx2 = "emit CHR ''2'' [] (?cx1\<lparr>cx_portals := dict_set (cx_portals ?cx1) name ?p\<rparr>)"
  have 1: "handle_message gw CHR ''P'' (cstring statement @ cstring query @ be16 0) cx = (?cx1, Go_On)"
    by (simp add: handle_message_def parts(1))
  have 2: "handle_message gw CHR ''B'' (bind_message name statement []) ?cx1 = (?cx2, Go_On)"
    by (simp add: handle_message_def bind)
  have 3: "handle_message gw CHR ''E'' (cstring name @ be32 0) ?cx2 = reply_of (run_query gw query [] None ?cx2)"
    by (simp add: handle_message_def execute_portal_def parts(2) emit_def run_zero_limit)
  have 4: "handle_message gw CHR ''S'' [] cx' = (write_ready cx', Go_On)" for cx' :: "'a connection"
    by (simp add: handle_message_def)
  have tail: "serve gw (frame CHR ''S'' [] @ []) cx' = (write_ready cx', None)" for cx'
    unfolding serve_frame [OF codes_small(4) l(4)] 4 by (simp add: serve_end)
  have "serve gw (extended_query name statement query) cx =
      (case run_query gw query [] None ?cx2 of (cx', None) \<Rightarrow> (write_ready cx', None) | (cx', Some err) \<Rightarrow> (cx', Some err))"
    unfolding extended_query_def serve_frame [OF codes_small(1) l(1)] 1 prod.case reply.case
      serve_frame [OF codes_small(2) l(2)] 2 serve_frame [OF codes_small(3) l(3)] 3
    using tail by (simp add: reply_of_def split: prod.split option.split)
  then show ?thesis by (simp add: emit_def)
qed

lemma serve_simple:
  assumes "CHR 0x00 \<notin> set query" "length (cstring query) < 4294960000"
  shows "serve gw (frame CHR ''Q'' (cstring query)) cx =
    (case run_query gw query [] None cx of
       (cx', None) \<Rightarrow> (write_ready cx', None) | (cx', Some err) \<Rightarrow> (cx', Some err))"
proof -
  have l: "length (cstring query) + 4 < 4294967296" using assms(2) by simp
  have "read_cstring (cstring query) 0 = Inr (query, length (cstring query))"
    using read_cstring_own [OF assms(1), of "[]" "[]"] by simp
  then show ?thesis
    using serve_frame [OF codes_small(5) l, of gw "[]" cx]
    by (simp add: handle_message_def simple_query_def serve_end split: prod.split option.split)
qed

text \<open>C30: On a fresh connection a query that is prepared, bound, executed and synchronised is answered as a simple query
  is: the host ends in the same state, the same error or none arises, and the messages are the same after the two
  acknowledgements.\<close>

theorem extended_query_agrees_with_simple:
  assumes "CHR 0x00 \<notin> set statement" "CHR 0x00 \<notin> set query" "CHR 0x00 \<notin> set name"
    and "length (cstring statement) + length (cstring query) + length (cstring name) < 4294960000"
    and "serve gw (frame CHR ''Q'' (cstring query)) (new_connection h) = (simple, err)"
  shows "\<exists>extended. serve gw (extended_query name statement query) (new_connection h) = (extended, err)
    \<and> cx_host extended = cx_host simple
    \<and> cx_out extended = [Out_Message CHR ''1'' [], Out_Message CHR ''2'' []] @ cx_out simple"
proof -
  let ?out = "[Out_Message CHR ''1'' [], Out_Message CHR ''2'' []]"
  let ?ss = "[(statement, \<lparr>ps_query = query, ps_parameter_count = count_query_parameters query\<rparr>)]"
  let ?ps = "[(name, \<lparr>bp_statement = statement, bp_parameters = [], bp_formats = [0]\<rparr>)]"
  have "serve gw (extended_query name statement query) (new_connection h) =
      (case run_query gw query [] None (shifted ?out ?ss ?ps (new_connection h)) of
         (cx', None) \<Rightarrow> (write_ready cx', None) | (cx', Some err) \<Rightarrow> (cx', Some err))"
    unfolding serve_extended [OF assms(1-4)]
    by (simp add: emit_def shifted_def new_connection_def dict_set_def)
  also have "\<dots> = map_prod (shifted ?out ?ss ?ps) id
      (case run_query gw query [] None (new_connection h) of
         (cx', None) \<Rightarrow> (write_ready cx', None) | (cx', Some err) \<Rightarrow> (cx', Some err))"
    by (simp add: shifted_run write_ready_def shifted_emit split: prod.split option.split)
  also have "\<dots> = map_prod (shifted ?out ?ss ?ps) id (simple, err)"
    using assms(2,4,5) by (subst serve_simple [symmetric]) simp_all
  finally show ?thesis by (simp add: shifted_def)
qed

section \<open>Authentication\<close>

lemma startup_read:
  "read_startup input cx = (cx', r) \<Longrightarrow>
     (\<exists>n. cx' = cx\<lparr>cx_out := cx_out cx @ replicate n Out_Refuse_Ssl\<rparr>) \<and> (\<forall>params rest. r = Got params rest \<longrightarrow> suffix rest input)"
proof (induction input cx arbitrary: cx' r rule: read_startup.induct)
  case (1 input cx)
  show ?case
  proof (cases "read_packet input")
    case (Got payload rest)
    have suf: "suffix rest input" using packet_read [OF Got] by (metis append_assoc suffixI)
    show ?thesis
    proof (cases "unpack32 (take 4 payload) = Inr 80877103")
      case True
      let ?cx = "cx\<lparr>cx_out := cx_out cx @ [Out_Refuse_Ssl]\<rparr>"
      have "read_startup rest ?cx = (cx', r)" using 1(2) Got True by (simp add: read_startup.simps [of input])
      from 1(1) [OF Got True _ this] obtain n where "cx' = ?cx\<lparr>cx_out := cx_out ?cx @ replicate n Out_Refuse_Ssl\<rparr>"
        and r: "\<forall>params rest'. r = Got params rest' \<longrightarrow> suffix rest' rest" by auto
      then have "cx' = cx\<lparr>cx_out := cx_out cx @ replicate (Suc n) Out_Refuse_Ssl\<rparr>" by simp
      with r suf show ?thesis using suffix_order.trans by blast
    next
      case False
      then have "cx' = cx \<and> (\<forall>params rest'. r = Got params rest' \<longrightarrow> rest' = rest)"
        using 1(2) Got by (auto simp: read_startup.simps [of input] split: sum.splits if_splits)
      then have "cx' = cx\<lparr>cx_out := cx_out cx @ replicate 0 Out_Refuse_Ssl\<rparr>" by simp
      with \<open>cx' = cx \<and> _\<close> suf show ?thesis by blast
    qed
  next
    case Ended
    then have "cx' = cx\<lparr>cx_out := cx_out cx @ replicate 0 Out_Refuse_Ssl\<rparr> \<and> r = Ended"
      using 1(2) by (simp add: read_startup.simps [of input])
    then show ?thesis by blast
  next
    case (Refused err)
    then have "cx' = cx\<lparr>cx_out := cx_out cx @ replicate 0 Out_Refuse_Ssl\<rparr> \<and> r = Refused err"
      using 1(2) by (simp add: read_startup.simps [of input])
    then show ?thesis by blast
  qed
qed

lemma password_read:
  assumes "check_password ep input = Got u rest"
  shows "\<exists>token extra. oa_static_token (ep_auth ep) = Some token \<and> input = frame CHR ''p'' (cstring token @ extra) @ rest"
proof -
  obtain payload token j where m: "read_message input = Got (CHR ''p'', payload) rest"
    and c: "read_cstring payload 0 = Inr (token, j)" and t: "oa_static_token (ep_auth ep) = Some token"
    using assms by (auto simp: check_password_def split: if_splits reading.splits sum.splits)
  show ?thesis using message_read [OF m] cstring_read [OF c] t by metis
qed

text \<open>What the connection has written when its startup fails.\<close>

definition unauthenticated :: "sent \<Rightarrow> bool" where
  "unauthenticated x \<longleftrightarrow> x = Out_Refuse_Ssl \<or> x = Out_Message CHR ''R'' (be32 3) \<or> x = Out_Message CHR ''Z'' [of_nat (of_char CHR ''I'')]
     \<or> (\<exists>p. x = Out_Message CHR ''E'' p)"

lemma secured_startup:
  assumes "oa_mode (ep_auth ep) = Auth_Static_Token" "startup ep pid key input (new_connection h) = (cx, r)"
  shows "(\<exists>u rest. r = Got u rest \<and> (\<exists>token pre extra. oa_static_token (ep_auth ep) = Some token
        \<and> input = pre @ frame CHR ''p'' (cstring token @ extra) @ rest))
    \<or> (\<nexists>u rest. r = Got u rest) \<and> cx_host cx = h \<and> list_all unauthenticated (cx_out cx)"
proof -
  obtain cx1 r1 where s: "read_startup input (new_connection h) = (cx1, r1)" by fastforce
  from startup_read [OF s] obtain n where
    cx1: "cx1 = new_connection h\<lparr>cx_out := cx_out (new_connection h) @ replicate n Out_Refuse_Ssl\<rparr>"
    and suf: "\<forall>params rest. r1 = Got params rest \<longrightarrow> suffix rest input" by blast
  have plain: "cx_host cx1 = h" "list_all unauthenticated (cx_out cx1)"
    by (simp_all add: cx1 new_connection_def list_all_iff unauthenticated_def)
  have asked: "cx_host (emit CHR ''R'' (be32 3) cx1) = h" "list_all unauthenticated (cx_out (emit CHR ''R'' (be32 3) cx1))"
    using plain by (simp_all add: emit_def unauthenticated_def)
  show ?thesis
  proof (cases r1)
    case (Got params rest)
    note sres = assms(2)[unfolded startup_def s prod.case Got reading.case authenticate_connection_def if_P [OF assms(1)] prod.case]
    show ?thesis
    proof (cases "check_password ep rest")
      case pw: (Got u rest')
      then have "r = Got u rest'" using sres by simp
      moreover obtain pre where "input = pre @ rest" using suf Got unfolding suffix_def by blast
      ultimately show ?thesis using password_read [OF pw] by blast
    qed (use sres asked in auto)
  qed (use assms(2) s plain in \<open>auto simp: startup_def\<close>)
qed

text \<open>C29: With a static token configured, a client that has not presented the token in a password message gets refusals,
  the request for it and an error at most, and the host is left as it was.\<close>

theorem secured_connection_needs_token:
  assumes "oa_mode (ep_auth ep) = Auth_Static_Token"
    and "\<nexists>token pre extra rest. oa_static_token (ep_auth ep) = Some token
      \<and> input = pre @ frame CHR ''p'' (cstring token @ extra) @ rest"
  shows "cx_host (handle_client ep pid key input h) = h
    \<and> list_all unauthenticated (cx_out (handle_client ep pid key input h))"
proof -
  obtain cx r where s: "startup ep pid key input (new_connection h) = (cx, r)" by fastforce
  from secured_startup [OF assms(1) s] assms(2)
  have "\<nexists>u rest. r = Got u rest" "cx_host cx = h" "list_all unauthenticated (cx_out cx)" by blast+
  then show ?thesis
    by (cases r) (simp_all add: handle_client_def s write_error_def write_ready_def emit_def unauthenticated_def)
qed

section \<open>Limits\<close>

text \<open>An invariant of the host that runs within the limit and reads of the catalog keep.\<close>

definition keeps :: "('h \<Rightarrow> bool) \<Rightarrow> 'h gateway \<Rightarrow> bool" where
  "keeps ok gw \<longleftrightarrow>
     (\<forall>q n h. ok h \<longrightarrow> 1 \<le> n \<longrightarrow> n \<le> ec_max_rows (gw_config gw) \<longrightarrow> ok (fst (gw_run gw q n h)))
     \<and> (\<forall>h. ok h \<longrightarrow> ok (fst (gw_datasets gw h))) \<and> (\<forall>ref h. ok h \<longrightarrow> ok (fst (gw_dataset gw ref h)))"

lemma limit_within: "1 \<le> ec_max_rows ec \<Longrightarrow> 1 \<le> effective_limit ec m \<and> effective_limit ec m \<le> ec_max_rows ec"
  by (auto simp: effective_limit_def split: option.split)

lemma catalog_keeps: "keeps ok gw \<Longrightarrow> ok h \<Longrightarrow> ok (fst (catalog_tables gw es h))"
proof (induction es arbitrary: h)
  case (Cons e es)
  let ?ref = "py_strip (if de_ref e = [] then de_name e else de_ref e)"
  obtain h1 r where d: "gw_dataset gw ?ref h = (h1, r)" by fastforce
  have "ok (fst (gw_dataset gw ?ref h))" using Cons.prems by (simp add: keeps_def)
  then have "ok h1" using d by simp
  from Cons.IH [OF Cons.prems(1) this] Cons.IH [OF Cons.prems] this d show ?case
    by (cases r; cases "catalog_tables gw es h1") (simp_all add: Let_def)
qed simp

lemma materialize_keeps:
  assumes "keeps ok gw" "ok h"
  shows "ok (fst (materialize_catalog gw h))"
proof -
  have "ok (fst (gw_datasets gw h))" using assms by (simp add: keeps_def)
  then show ?thesis
    using catalog_keeps [OF assms(1)] by (auto simp: materialize_catalog_def split: prod.split sum.split) (metis fst_conv)
qed

lemma execute_keeps:
  assumes "keeps ok gw" "1 \<le> ec_max_rows (gw_config gw)" "ok h"
  shows "ok (fst (gateway_execute gw q vs m h))"
proof -
  have run: "ok (fst (gw_run gw x (effective_limit (gw_config gw) m) h))" for x
    using assms limit_within [OF assms(2), of m] unfolding keeps_def by blast
  have meta: "ok (fst (execute_metadata_query gw x h))" for x
    using assms(3) materialize_keeps [OF assms(1,3)] by (auto simp: execute_metadata_query_def Let_def split: prod.split sum.split)
  show ?thesis
    using assms(3) run meta by (simp add: gateway_execute_def Let_def split: sum.split prod.split) (metis fst_conv)
qed

lemma emit_host [simp]: "cx_host (emit t p cx) = cx_host cx"
  by (simp add: emit_def)

lemma rows_host: "cx_host (fst (emit_rows rows cx)) = cx_host cx"
  by (induction rows arbitrary: cx) (simp_all split: sum.split)

lemma answer_host: "cx_host (fst (answer_query r cx)) = cx_host cx"
proof (cases "qr_columns r = []")
  case False
  show ?thesis
  proof (cases "encode_row_description (qr_columns r)")
    case (Inr body)
    obtain cx' e where rows: "emit_rows (qr_rows r) (emit CHR ''T'' body cx) = (cx', e)" by fastforce
    then have "cx_host cx' = cx_host cx" using rows_host [of "qr_rows r" "emit CHR ''T'' body cx"] by simp
    then show ?thesis using False Inr rows by (cases e) (simp_all add: answer_query_def)
  qed (use False in \<open>simp add: answer_query_def\<close>)
qed (simp add: answer_query_def)

lemma run_keeps:
  assumes "keeps ok gw" "1 \<le> ec_max_rows (gw_config gw)" "ok (cx_host cx)"
  shows "ok (cx_host (fst (run_query gw q vs m cx)))"
proof -
  obtain h r where e: "gateway_execute gw q vs m (cx_host cx) = (h, r)" by fastforce
  then have "ok h" using execute_keeps [OF assms, of q vs m] by simp
  then show ?thesis by (cases r) (simp_all add: run_query_def e answer_host)
qed

lemma handle_keeps:
  assumes "keeps ok gw" "1 \<le> ec_max_rows (gw_config gw)" "ok (cx_host cx)"
  shows "ok (cx_host (fst (handle_message gw c p cx)))"
proof -
  note run = run_keeps [OF assms]
  have s: "ok (cx_host (fst (simple_query gw p cx)))"
    using assms(3) run by (simp add: simple_query_def write_ready_def emit_def split: sum.split prod.split option.split) (metis fst_conv)
  have e: "ok (cx_host (fst (execute_portal gw p cx)))"
    using assms(3) run by (simp add: execute_portal_def reply_of_def split: sum.split prod.split option.split) (metis fst_conv)
  have d: "ok (cx_host (fst (describe p cx)))" "ok (cx_host (fst (close_target p cx)))"
    using assms(3) by (simp_all add: describe_def close_target_def emit_def Let_def split: sum.split prod.split option.split)
  show ?thesis
    using assms(3) s e d by (simp add: handle_message_def emit_def write_ready_def split: sum.split prod.split)
qed

lemma serve_keeps:
  "keeps ok gw \<Longrightarrow> 1 \<le> ec_max_rows (gw_config gw) \<Longrightarrow> ok (cx_host cx) \<Longrightarrow> ok (cx_host (fst (serve gw input cx)))"
proof (induction gw input cx rule: serve.induct)
  case (1 gw input cx)
  show ?case
  proof (cases "read_message input")
    case (Got m rest)
    obtain c p where m: "m = (c, p)" by fastforce
    obtain cx' r where h: "handle_message gw c p cx = (cx', r)" by fastforce
    have "ok (cx_host cx')" using handle_keeps [OF 1(2-4), of c p] h by simp
    then show ?thesis
      using 1(1) [OF Got m [symmetric] h [symmetric]] 1(2,3) Got m h
      by (cases r) (simp_all add: serve.simps [of gw input cx])
  qed (use 1(4) in \<open>simp_all add: serve.simps [of gw input cx]\<close>)
qed

lemma startup_host: "cx_host (fst (startup ep pid key input cx)) = cx_host cx"
proof -
  obtain cx1 r where s: "read_startup input cx = (cx1, r)" by fastforce
  have "cx_host cx1 = cx_host cx" using startup_read [OF s] by auto
  moreover have "cx_host (fold parameter_status ps x) = cx_host x" for ps and x :: "'a connection"
    by (induction ps arbitrary: x) (simp_all add: parameter_status_def)
  then have "cx_host (greet pid key x) = cx_host x" for x :: "'a connection" by (simp add: greet_def write_ready_def)
  ultimately show ?thesis
    using s by (cases r) (auto simp: startup_def authenticate_connection_def split: reading.split)
qed

text \<open>C31: Whatever a client sends, the runtime is asked for at least one row and never for more rows than the
  configured maximum: an invariant of the host that such runs and reads of the catalog keep is kept by the
  connection.\<close>

theorem requests_stay_within_limit:
  assumes "keeps ok (ep_gateway ep (connection_context ep))"
    and "1 \<le> ec_max_rows (gw_config (ep_gateway ep (connection_context ep)))" "ok h"
  shows "ok (cx_host (handle_client ep pid key input h))"
proof -
  obtain cx r where s: "startup ep pid key input (new_connection h) = (cx, r)" by fastforce
  have ok: "ok (cx_host cx)"
    using startup_host [of ep pid key input "new_connection h"] s assms(3) by (simp add: new_connection_def)
  show ?thesis
  proof (cases r)
    case (Got u rest)
    obtain cx' e where v: "serve (ep_gateway ep (connection_context ep)) rest cx = (cx', e)" by fastforce
    then have "ok (cx_host cx')" using serve_keeps [OF assms(1,2) ok, of rest] by simp
    then show ?thesis using Got s v by (cases e) (simp_all add: handle_client_def write_error_def write_ready_def)
  qed (use s ok in \<open>simp_all add: handle_client_def write_error_def write_ready_def\<close>)
qed

section \<open>Witnesses and defects\<close>

text \<open>A host that records the queries it runs with their limits.\<close>

definition recording_gateway :: "(string \<times> int) list gateway" where
  "recording_gateway = \<lparr>gw_config = config_from_env None 100,
     gw_run = (\<lambda>q n h. (h @ [(q, n)], Inr ([Some \<lparr>rc_name = ''x'', rc_type = None\<rparr>], [Row_List [W_Int 1]]))),
     gw_datasets = (\<lambda>h. (h, Inr [])), gw_dataset = (\<lambda>ref h. (h, Inl ''missing'')), gw_rewrite = Some,
     gw_catalog = (\<lambda>statements q. Inl ''no catalog'')\<rparr>"

definition recording_endpoint :: "(string, (string \<times> int) list) endpoint" where
  "recording_endpoint = \<lparr>ep_auth = \<lparr>oa_mode = Auth_Static_Token, oa_static_token = Some ''token'', oa_workspace_id = None,
       oa_actor_id = None, oa_roles = []\<rparr>,
     ep_host_context = \<lparr>oc_workspace_id = ''w'', oc_actor_id = ''a'', oc_roles = []\<rparr>,
     ep_gateway = (\<lambda>_. recording_gateway), ep_library_text = (\<lambda>_. ''error'')\<rparr>"

theorem requests_stay_within_limit_witness:
  "\<forall>input. list_all (\<lambda>(q, n). 1 \<le> n \<and> n \<le> 100) (cx_host (handle_client recording_endpoint 1 2 input []))"
proof
  fix input
  show "list_all (\<lambda>(q, n). 1 \<le> n \<and> n \<le> 100) (cx_host (handle_client recording_endpoint 1 2 input []))"
    by (rule requests_stay_within_limit [where ok = "list_all (\<lambda>(q, n). 1 \<le> n \<and> n \<le> 100)"])
      (simp_all add: keeps_def recording_endpoint_def recording_gateway_def config_from_env_def)
qed

theorem secured_connection_needs_token_witness:
  "cx_host (handle_client recording_endpoint 1 2 (frame CHR ''Q'' (cstring ''select 1'')) []) = []"
proof -
  have c: "of_nat (of_char CHR ''p'') \<notin> set (frame CHR ''Q'' (cstring ''select 1''))"
    by (simp add: frame_def be32_def be16_def cstring_def utf8_def utf8_char_def)
  have "cx_host (handle_client recording_endpoint 1 2 (frame CHR ''Q'' (cstring ''select 1'')) []) = []
      \<and> list_all unauthenticated (cx_out (handle_client recording_endpoint 1 2 (frame CHR ''Q'' (cstring ''select 1'')) []))"
  proof (rule secured_connection_needs_token)
    show "oa_mode (ep_auth recording_endpoint) = Auth_Static_Token" by (simp add: recording_endpoint_def)
    show "\<nexists>token pre extra rest. oa_static_token (ep_auth recording_endpoint) = Some token
        \<and> frame CHR ''Q'' (cstring ''select 1'') = pre @ frame CHR ''p'' (cstring token @ extra) @ rest"
    proof
      assume "\<exists>token pre extra rest. oa_static_token (ep_auth recording_endpoint) = Some token
        \<and> frame CHR ''Q'' (cstring ''select 1'') = pre @ frame CHR ''p'' (cstring token @ extra) @ rest"
      then obtain token pre extra rest where "frame CHR ''Q'' (cstring ''select 1'') = pre @ frame CHR ''p'' (cstring token @ extra) @ rest"
        by blast
      then have "of_nat (of_char CHR ''p'') \<in> set (frame CHR ''Q'' (cstring ''select 1''))"
        by (simp only: set_append) (simp add: frame_def)
      with c show False by contradiction
    qed
  qed
  then show ?thesis by blast
qed

theorem extended_query_agrees_with_simple_witness:
  "\<exists>simple extended err. serve recording_gateway (frame CHR ''Q'' (cstring ''select 1'')) (new_connection []) = (simple, err)
     \<and> serve recording_gateway (extended_query [] ''s'' ''select 1'') (new_connection []) = (extended, err)
     \<and> cx_host extended = cx_host simple"
proof -
  obtain simple err where s: "serve recording_gateway (frame CHR ''Q'' (cstring ''select 1'')) (new_connection []) = (simple, err)"
    by fastforce
  have "\<exists>extended. serve recording_gateway (extended_query [] ''s'' ''select 1'') (new_connection []) = (extended, err)
      \<and> cx_host extended = cx_host simple
      \<and> cx_out extended = [Out_Message CHR ''1'' [], Out_Message CHR ''2'' []] @ cx_out simple"
    by (rule extended_query_agrees_with_simple [OF _ _ _ _ s]) (simp_all add: cstring_def utf8_def utf8_char_def)
  with s show ?thesis by blast
qed

text \<open>A type of DuckDB whose name contains \<open>timestamp\<close> never gets the type of a timestamp: the shorter
  word \<open>time\<close> is tried first.\<close>

lemma timestamps_are_not_timestamps:
  "infer_type_oid_from_duckdb raw \<notin> {oid_of ''timestamp'', oid_of ''timestamptz''}"
proof -
  have "sublist ''time'' l" if "sublist ''timestamp'' l \<or> sublist ''timestamp with time zone'' l" for l :: string
  proof -
    have "sublist ''time'' (''timestamp'' :: string)" "sublist ''time'' (''timestamp with time zone'' :: string)"
      by (simp_all add: sublist_code)
    then show ?thesis using that sublist_order.order_trans by blast
  qed
  then show ?thesis
    by (auto simp: infer_type_oid_from_duckdb_def duckdb_oids_def oid_of_def pg_type_oids_def dict_get_def split: option.split)
qed

lemma timestamp_gets_time: "infer_type_oid_from_duckdb ''TIMESTAMP'' = oid_of ''time''"
  by code_simp

text \<open>A placeholder inside a string literal of the query is replaced as well, so the parameter's quotes end the
  literal.\<close>

lemma quoted_placeholder_is_replaced:
  "render_query (''select '' @ [quote, dollar] @ ''1'' @ [quote]) [W_Other ''; drop table t --'']
     = Inr (''select '' @ [quote, quote] @ ''; drop table t --'' @ [quote, quote])"
  by code_simp

text \<open>An empty value shifts the pairs of a startup packet.\<close>

lemma empty_value_shifts_parameters:
  "parse_startup_parameters (utf8 ''user'' @ [0, 0] @ utf8 ''database'' @ [0] @ utf8 ''x'' @ [0, 0])
     = Inr [(''user'', ''database'')]"
  by (simp add: parse_startup_parameters_def utf8_def utf8_char_def decode_def dict_set_def char_of_def bit_0)

text \<open>Any mention of a catalog function, even inside a literal, makes a query one about the catalog.\<close>

lemma literal_makes_metadata_query:
  "is_metadata_query (''select * from notes where body = '' @ [quote] @ ''show me'' @ [quote])"
  by code_simp

end
