(* ===== verification/Spec2Isabelle.thy ===== *)
theory Spec2Isabelle
  imports Federated_Service Join_Planner Semantic_Resolver In_Memory_Store Access_Policy Sql_Guard
    Background_Tasks Unified_Model Query_Translator Dataset_Sync Local_Login Odbc_Protocol
begin

text \<open>
  A verification library for Langbridge (paths below are under \<open>src/langbridge\<close>).

  THE PROGRAM. A query over datasets of several sources is run in stages. The planner
  (\<open>federation/planner\<close>) parses the SQL, resolves its tables to the bindings of a virtual
  dataset, decides which filters and columns a scan takes over, orders the joins by cost and
  builds a graph of stages: one scan per table and a local stage that joins the results, or a
  single scan when the whole query can be pushed to one source. The scheduler
  (\<open>federation/executor/scheduler.py\<close>) runs the stages whose dependencies are complete in
  batches of concurrent tasks with retries; the executor serves a stage from the artifact store
  when its cache key is unchanged and else runs it at its source or in the local engine; the
  service (\<open>federation/service.py\<close>) ties these together, keeps statistics and hands out
  results. Around it stand the semantic layer (\<open>semantic\<close>), which turns members of a semantic
  model into columns and finds the joins between datasets, the repositories of the runtime, the
  guards of SQL text and results, the access policy of the agents, and the manager of background
  tasks.

  THEORIES AND THE CODE.
  Prelude: results with errors as values, Python strings and dictionaries. Encodings: injective
  encodings, for witnesses only.
  Plan_Models: the classes of \<open>federation/models/plans.py\<close> and \<open>virtual_dataset.py\<close>.
  Sql_Utils, Sql_Parser, Sql_Renderer, Optimizer, Federated_Planner: \<open>federation/utils/sql.py\<close> and
  the modules of \<open>federation/planner\<close>, one function each; Pushdown gives filters a meaning on rows.
  Stage_Scheduler: \<open>StageScheduler\<close> with its batches, retries and summary. Every order in which
  asyncio may serve the attempts of a batch is an interleaving given to the model.
  Dispatcher_Contract: the locale \<open>stage_dispatcher\<close>, what the scheduler needs of a dispatcher, and
  the lemmas about whole runs proved once from it; \<open>live_dispatcher\<close> extends it with success.
  Cache_Context, Artifact_Store, Stage_Executor: the modules of \<open>federation/executor\<close>; the executor
  interprets the dispatcher locale on its own definitions.
  Federated_Service: \<open>FederatedQueryService\<close>.
  Semantic_Model, Join_Planner, Semantic_Resolver: \<open>semantic/model.py\<close>, \<open>semantic/query\<close>. Date_Ranges:
  \<open>semantic/query/tsql.py\<close>, literals and date ranges. Unified_Model: \<open>semantic/unified_query.py\<close>.
  Resource_Paths: \<open>connectors/base/resource_paths.py\<close>, rows of nested API records.
  In_Memory_Store: every repository of \<open>runtime/persistence/in_memory.py\<close>; the locales \<open>keyed_store\<close>
  and \<open>listed_store\<close> state the contract that the dictionary stores share, with one
  interpretation per store.
  Sql_Guard: \<open>runtime/utils/sql.py\<close>. Access_Policy: \<open>orchestrator/runtime/access_policy.py\<close>.
  Background_Tasks: \<open>runtime/hosting/background.py\<close> and \<open>runtime/scheduling.py\<close>, a state machine
  whose events are what the event loop may do next.

  WHAT IS SHOWN. Scheduling: dependencies are attempted first, runs account for every stage,
  failures list the blocked stages, planned queries succeed when their sources answer. Caching: a
  hit needs equal keys and executes nothing, keys of local stages separate the states of their
  dependencies, outputs are read back as written, paths stay below the base directory, handles
  stay fetchable. Planning: plans are acyclic with distinct stages, the join order is a
  permutation that follows the joins, pushed filters preserve inner joins (and not left joins,
  which is a defect), scans fetch the required columns. Semantic layer: the search for a join
  path ends, returns a shortest path and fails only when there is none; join plans are connected
  trees; members resolve to what the model declares; a unified model is the disjoint union of its
  sources; relative periods follow one another without gap. Rows of API resources are flat. Repositories: pages make up the listing,
  the thread store refines a finite map, revision numbers increase. Guards: text literals are
  read back exactly, redaction hides every ruled column, the allow-list and the access policy
  accept exactly what they state, requests that name a denied asset are refused. Background
  tasks: one execution per task, a well-formed registry. Some properties state a defect of the
  code on a concrete input; they are listed as findings.

  BOUNDS AND TERMINATION. No definition uses fuel. The scheduling loop is a function on the stages
  that remain; each round completes one or stops. The breadth-first search has as its measure
  the length of the queue plus the number of nodes not visited. Retry limits and the
  parallelism are those of the plan. Python integers are \<open>int\<close>; strings hold code points below
  256, on which strip, lower, upper and the regular expressions are exact but for the two letters
  named in In_Memory_Store.

  PARAMETERS. sqlglot (parsing, rendering, traversal) is the record \<open>sql_ops\<close>, with \<open>guard_ops\<close>
  for the checks; DuckDB, the sources and Parquet are parameters of the executor and the store;
  SHA-256 is a function, assumed to have no collisions only where a property says so;
  clocks and random ids are arguments; whether APScheduler accepts a cron expression is a
  predicate.

  NOT MODELLED. Calls of language models and the agents built on them (\<open>orchestrator/agents\<close>,
  \<open>orchestrator/llm\<close>, tools other than the access policy), connectors to external systems
  (\<open>connectors\<close>, the packages of \<open>langbridge-connectors\<close>, \<open>federation/connectors\<close> but for the byte
  estimate), HTTP hosting, the ODBC server, the client, CLI, MCP server and UI, configuration and
  bootstrap, SQLAlchemy persistence and migrations, the dataset and sync services: most of their
  lines move data between libraries. The translation of semantic queries to SQL
  (\<open>semantic/query/translator.py\<close>, \<open>engine.py\<close>) is code of this repository that is planned next. Timing, logging and telemetry are left out everywhere.
\<close>

end
